(* ===== verification/PyBase.thy ===== *)
theory PyBase
  imports Main "HOL-Library.Char_ord" "HOL-Library.List_Lexorder"
begin

text \<open>
  The prelude: the parts of Python that every component uses.

  \<^item> Exceptions are values. \<open>exc\<close> has one constructor per exception class the modelled code
    raises, and a computation that may raise returns \<open>exc + 'a\<close> with \<open>Inl\<close> for the exception;
    \<open>bindR\<close> is sequencing, \<open>traverse\<close> a comprehension or loop whose body may raise.
  \<^item> Text is \<open>string\<close>. A string stands for ASCII text (one \<open>char\<close> per code point, which is also
    its UTF-8 encoding); \<open>py_strip\<close>, \<open>py_lower\<close>, \<open>py_upper\<close>, \<open>py_split\<close>, \<open>replace_sub\<close> are the
    methods of \<open>str\<close> on it, and Python's comparison of strings is the lexicographic order of
    \<open>HOL-Library.List_Lexorder\<close>.
  \<^item> \<open>py_eval\<close> collects the equations that evaluate closed terms over these functions, and
    \<open>result_simps\<close> the rewrite rules of the error values.
\<close>

named_theorems py_eval \<open>equations that evaluate closed terms\<close>
named_theorems result_simps \<open>rewriting of error values\<close>

subsection \<open>Exceptions\<close>

datatype exc =
    ValueError string
  | KeyError string
  | OverflowError
  | OSError
  | RuntimeError string
  | LookupError string
  | AssertionError
  | TypeError
  | AttributeError
  | NotImplementedError string
  | LiveRequestStateError string
  | LivePermitError string
  | SetupError "string list"
  | ConfigValidationError "string list"
  | PackageProcessingError string
  | CfdiParseError string
  | SatSoapParseError string
  | LiveSatGuardError "string list"
  | CredentialProviderError string
  | HandlerError string
  | CsvError string

type_synonym 'a result = "exc + 'a"

definition bindR :: "'a result \<Rightarrow> ('a \<Rightarrow> 'b result) \<Rightarrow> 'b result" where
  "bindR m k = (case m of Inl e \<Rightarrow> Inl e | Inr x \<Rightarrow> k x)"

lemma bindR_simps [simp, result_simps, py_eval]:
  "bindR (Inl e) k = Inl e"
  "bindR (Inr x) k = k x"
  by (simp_all add: bindR_def)

lemma bindR_assoc [result_simps]: "bindR (bindR m f) g = bindR m (\<lambda>x. bindR (f x) g)"
  by (cases m) simp_all

lemma bindR_Inr_conv [result_simps]: "bindR m k = Inr y \<longleftrightarrow> (\<exists>x. m = Inr x \<and> k x = Inr y)"
  by (cases m) auto

lemma bindR_InrE:
  assumes "bindR m k = Inr y"
  obtains x where "m = Inr x" and "k x = Inr y"
  using assms by (cases m) auto

text \<open>\<open>postR P m\<close>: whatever \<open>m\<close> returns satisfies \<open>P\<close>.\<close>

definition postR :: "('a \<Rightarrow> bool) \<Rightarrow> 'a result \<Rightarrow> bool" where
  "postR P m = (case m of Inl e \<Rightarrow> True | Inr x \<Rightarrow> P x)"

lemma postR_simps [simp]: "postR P (Inl e)" "postR P (Inr x) = P x"
  by (simp_all add: postR_def)

lemma postR_bind: "(\<And>x. postR P (k x)) \<Longrightarrow> postR P (bindR m k)"
  by (cases m) simp_all

lemma postR_D: "postR P m \<Longrightarrow> m = Inr x \<Longrightarrow> P x"
  by simp

lemma bindR_Inl_conv [result_simps]:
  "bindR m k = Inl e \<longleftrightarrow> m = Inl e \<or> (\<exists>x. m = Inr x \<and> k x = Inl e)"
  by (cases m) auto

lemma bindR_cong [fundef_cong]:
  "m = m' \<Longrightarrow> (\<And>x. m' = Inr x \<Longrightarrow> k x = k' x) \<Longrightarrow> bindR m k = bindR m' k'"
  by (cases m') auto

text \<open>A guard followed by the rest of the block: \<open>if c: raise e\<close>.\<close>

definition raise_if :: "bool \<Rightarrow> exc \<Rightarrow> unit result" where
  "raise_if c e = (if c then Inl e else Inr ())"

lemma raise_if_simps [simp, result_simps, py_eval]:
  "raise_if True e = Inl e"
  "raise_if False e = Inr ()"
  by (simp_all add: raise_if_def)

lemma raise_if_Inr_conv [result_simps]: "raise_if c e = Inr u \<longleftrightarrow> \<not> c"
  by (simp add: raise_if_def)

lemma raise_if_Inl_conv [result_simps]: "raise_if c e = Inl x \<longleftrightarrow> c \<and> x = e"
  by (auto simp: raise_if_def)

text \<open>\<open>[f(x) for x in xs]\<close>: the first exception ends the comprehension.\<close>

fun traverse :: "('a \<Rightarrow> 'b result) \<Rightarrow> 'a list \<Rightarrow> 'b list result" where
  "traverse f [] = Inr []"
| "traverse f (x # xs) = bindR (f x) (\<lambda>y. bindR (traverse f xs) (\<lambda>ys. Inr (y # ys)))"

lemma traverse_Inr: "(\<And>x. x \<in> set xs \<Longrightarrow> f x = Inr (g x)) \<Longrightarrow> traverse f xs = Inr (map g xs)"
  by (induction xs) auto

lemma traverse_map: "traverse f (map g xs) = traverse (f \<circ> g) xs"
  by (induction xs) auto

lemma traverse_Inr_length: "traverse f xs = Inr ys \<Longrightarrow> length ys = length xs"
  by (induction xs arbitrary: ys) (auto simp: result_simps)

lemma traverse_Inr_set: "traverse f xs = Inr ys \<Longrightarrow> y \<in> set ys \<Longrightarrow> \<exists>x \<in> set xs. f x = Inr y"
  by (induction xs arbitrary: ys) (auto simp: result_simps)

subsection \<open>Characters\<close>

definition char_code :: "char \<Rightarrow> nat" where
  "char_code c = of_char c"

definition char_is_space :: "char \<Rightarrow> bool" where
  "char_is_space c \<longleftrightarrow> (9 \<le> char_code c \<and> char_code c \<le> 13) \<or> (28 \<le> char_code c \<and> char_code c \<le> 32)"

definition char_is_digit :: "char \<Rightarrow> bool" where
  "char_is_digit c \<longleftrightarrow> 48 \<le> char_code c \<and> char_code c \<le> 57"

definition char_is_upper :: "char \<Rightarrow> bool" where
  "char_is_upper c \<longleftrightarrow> 65 \<le> char_code c \<and> char_code c \<le> 90"

definition char_is_lower :: "char \<Rightarrow> bool" where
  "char_is_lower c \<longleftrightarrow> 97 \<le> char_code c \<and> char_code c \<le> 122"

definition char_is_alnum :: "char \<Rightarrow> bool" where
  "char_is_alnum c \<longleftrightarrow> char_is_digit c \<or> char_is_upper c \<or> char_is_lower c"

definition char_is_hex :: "char \<Rightarrow> bool" where
  "char_is_hex c \<longleftrightarrow> char_is_digit c \<or> (65 \<le> char_code c \<and> char_code c \<le> 70)
     \<or> (97 \<le> char_code c \<and> char_code c \<le> 102)"

definition word_char :: "char \<Rightarrow> bool" where
  "word_char c \<longleftrightarrow> char_is_alnum c \<or> c = CHR ''_''"

definition char_lower :: "char \<Rightarrow> char" where
  "char_lower c = (if char_is_upper c then char_of (char_code c + 32) else c)"

definition char_upper :: "char \<Rightarrow> char" where
  "char_upper c = (if char_is_lower c then char_of (char_code c - 32) else c)"

lemmas char_defs [py_eval] =
  char_code_def char_is_space_def char_is_digit_def char_is_upper_def char_is_lower_def
  char_is_alnum_def char_is_hex_def word_char_def char_lower_def char_upper_def char_of_def

lemma char_code_bound [simp]: "char_code c < 256"
  by (simp add: char_code_def)

lemma char_code_char_of: "n < 256 \<Longrightarrow> char_code (char_of n) = n"
  by (simp add: char_code_def)

lemma char_lower_idem [simp]: "char_lower (char_lower c) = char_lower c"
  by (auto simp: char_lower_def char_is_upper_def char_code_def)

lemma char_upper_idem [simp]: "char_upper (char_upper c) = char_upper c"
  by (auto simp: char_upper_def char_is_lower_def char_code_def)

lemma char_space_upper [simp]: "char_is_space (char_upper c) = char_is_space c"
  by (auto simp: char_upper_def char_is_lower_def char_is_space_def char_code_def)

lemma char_space_lower [simp]: "char_is_space (char_lower c) = char_is_space c"
  by (auto simp: char_lower_def char_is_upper_def char_is_space_def char_code_def)

subsection \<open>Methods of str\<close>

definition py_lower :: "string \<Rightarrow> string" where "py_lower s = map char_lower s"
definition py_upper :: "string \<Rightarrow> string" where "py_upper s = map char_upper s"
definition py_lstrip :: "string \<Rightarrow> string" where "py_lstrip s = dropWhile char_is_space s"
definition py_rstrip :: "string \<Rightarrow> string" where
  "py_rstrip s = rev (dropWhile char_is_space (rev s))"
definition py_strip :: "string \<Rightarrow> string" where "py_strip s = py_rstrip (py_lstrip s)"

text \<open>\<open>s.strip(chars)\<close>\<close>

definition strip_chars :: "char list \<Rightarrow> string \<Rightarrow> string" where
  "strip_chars cs s = rev (dropWhile (\<lambda>c. c \<in> set cs) (rev (dropWhile (\<lambda>c. c \<in> set cs) s)))"

lemmas py_str_defs [py_eval] =
  py_lower_def py_upper_def py_lstrip_def py_rstrip_def py_strip_def strip_chars_def

lemma py_upper_idem [simp]: "py_upper (py_upper s) = py_upper s"
  by (simp add: py_upper_def)

lemma py_lower_idem [simp]: "py_lower (py_lower s) = py_lower s"
  by (simp add: py_lower_def)

lemma length_py_upper [simp]: "length (py_upper s) = length s"
  by (simp add: py_upper_def)

lemma py_upper_Nil [simp]: "py_upper s = [] \<longleftrightarrow> s = []" "py_upper [] = []"
  by (simp_all add: py_upper_def)

lemma py_lower_Nil [simp]: "py_lower s = [] \<longleftrightarrow> s = []" "py_lower [] = []"
  by (simp_all add: py_lower_def)

lemma py_strip_Nil [simp]: "py_strip [] = []"
  by (simp add: py_str_defs)

lemma strip_by_ends:
  assumes r: "r = rev (dropWhile P (rev (dropWhile P s)))" and ne: "r \<noteq> []"
  shows "\<not> P (hd r)" "\<not> P (last r)"
proof -
  let ?t = "dropWhile P s"
  have "rev (takeWhile P (rev ?t) @ dropWhile P (rev ?t)) = ?t"
    by (simp only: takeWhile_dropWhile_id rev_rev_ident)
  then have "?t = r @ rev (takeWhile P (rev ?t))" by (simp only: r rev_append)
  then have "hd r = hd ?t" and "?t \<noteq> []"
    using ne by (metis hd_append2, metis append_is_Nil_conv)
  then show "\<not> P (hd r)" by (metis hd_dropWhile)
  have "last r = hd (dropWhile P (rev ?t))" "dropWhile P (rev ?t) \<noteq> []"
    using ne by (simp_all add: r last_rev)
  then show "\<not> P (last r)" by (metis hd_dropWhile)
qed

lemma strip_by_fixed:
  "r = [] \<or> \<not> P (hd r) \<and> \<not> P (last r) \<Longrightarrow> rev (dropWhile P (rev (dropWhile P r))) = r"
  by (cases "r = []")
     (simp_all add: dropWhile_eq_self_iff [of P r, THEN iffD2]
        dropWhile_eq_self_iff [of P "rev r", THEN iffD2] hd_rev)

lemma py_strip_fixed: "s \<noteq> [] \<Longrightarrow> \<not> char_is_space (hd s) \<Longrightarrow> \<not> char_is_space (last s) \<Longrightarrow> py_strip s = s"
  using strip_by_fixed [of s char_is_space] by (simp add: py_str_defs)

lemma py_strip_ends:
  "py_strip s \<noteq> [] \<Longrightarrow> \<not> char_is_space (hd (py_strip s)) \<and> \<not> char_is_space (last (py_strip s))"
  using strip_by_ends [of "py_strip s" char_is_space s] by (simp add: py_str_defs)

lemma py_strip_idem [simp]: "py_strip (py_strip s) = py_strip s"
  by (cases "py_strip s = []") (simp_all add: py_strip_fixed py_strip_ends)

lemma py_strip_eq_Nil: "py_strip s = [] \<longleftrightarrow> list_all char_is_space s"
proof -
  have "dropWhile char_is_space s = [] \<longleftrightarrow> list_all char_is_space s"
    by (simp add: dropWhile_eq_Nil_conv list_all_iff)
  moreover have "rev (dropWhile char_is_space (rev t)) = [] \<longleftrightarrow> list_all char_is_space t" for t
    by (simp add: dropWhile_eq_Nil_conv list_all_iff)
  moreover have "list_all char_is_space (dropWhile char_is_space s) \<longleftrightarrow> list_all char_is_space s"
    by (induction s) auto
  ultimately show ?thesis by (simp add: py_str_defs)
qed

lemma strip_chars_set: "set (strip_chars cs s) \<subseteq> set s"
  unfolding strip_chars_def by (auto dest!: set_dropWhileD)

text \<open>\<open>s.split()\<close> on whitespace runs, and \<open>sep.join(parts)\<close>.\<close>

fun split_ws_aux :: "string \<Rightarrow> string \<Rightarrow> string list" where
  "split_ws_aux acc [] = (if acc = [] then [] else [rev acc])"
| "split_ws_aux acc (c # cs) =
     (if char_is_space c
      then (if acc = [] then split_ws_aux [] cs else rev acc # split_ws_aux [] cs)
      else split_ws_aux (c # acc) cs)"

definition py_split :: "string \<Rightarrow> string list" where
  "py_split s = split_ws_aux [] s"

fun py_join :: "string \<Rightarrow> string list \<Rightarrow> string" where
  "py_join sep [] = []"
| "py_join sep [x] = x"
| "py_join sep (x # y # ys) = x @ sep @ py_join sep (y # ys)"

text \<open>\<open>s.split(c)\<close> for one separator character.\<close>

fun split_on_aux :: "char \<Rightarrow> string \<Rightarrow> string \<Rightarrow> string list" where
  "split_on_aux d acc [] = [rev acc]"
| "split_on_aux d acc (c # cs) =
     (if c = d then rev acc # split_on_aux d [] cs else split_on_aux d (c # acc) cs)"

definition split_on :: "char \<Rightarrow> string \<Rightarrow> string list" where
  "split_on d s = split_on_aux d [] s"

definition py_startswith :: "string \<Rightarrow> string \<Rightarrow> bool" where
  "py_startswith p s \<longleftrightarrow> take (length p) s = p"

definition py_endswith :: "string \<Rightarrow> string \<Rightarrow> bool" where
  "py_endswith p s \<longleftrightarrow> py_startswith (rev p) (rev s)"

text \<open>\<open>p in s\<close>: substring test.\<close>

fun py_contains :: "string \<Rightarrow> string \<Rightarrow> bool" where
  "py_contains p [] = (p = [])"
| "py_contains p (c # cs) = (py_startswith p (c # cs) \<or> py_contains p cs)"

text \<open>\<open>s.replace(p, r)\<close> for a non-empty pattern: leftmost matches, no overlap.\<close>

function replace_sub :: "string \<Rightarrow> string \<Rightarrow> string \<Rightarrow> string" where
  "replace_sub p r [] = []"
| "replace_sub p r (c # cs) =
     (if p \<noteq> [] \<and> py_startswith p (c # cs)
      then r @ replace_sub p r (drop (length p) (c # cs))
      else c # replace_sub p r cs)"
  by pat_completeness auto
termination
  by (relation "measure (\<lambda>(p, r, s). length s)") (auto simp: neq_Nil_conv)

definition replace_char :: "char \<Rightarrow> string \<Rightarrow> string \<Rightarrow> string" where
  "replace_char c r s = concat (map (\<lambda>x. if x = c then r else [x]) s)"

lemmas py_text_defs [py_eval] =
  py_split_def split_on_def py_startswith_def py_endswith_def replace_char_def

lemma replace_char_absent: "c \<notin> set s \<Longrightarrow> replace_char c r s = s"
  by (induction s) (auto simp: replace_char_def)

lemma replace_char_append: "replace_char c r (s @ t) = replace_char c r s @ replace_char c r t"
  by (simp add: replace_char_def)

lemma replace_sub_absent:
  "p \<noteq> [] \<Longrightarrow> hd p \<notin> set s \<Longrightarrow> replace_sub p r (s @ t) = s @ replace_sub p r t"
  by (induction s) (auto simp: py_startswith_def neq_Nil_conv)

text \<open>\<open>xs[:n]\<close>: a negative bound counts from the end.\<close>

definition py_take :: "int \<Rightarrow> 'a list \<Rightarrow> 'a list" where
  "py_take n xs = (if 0 \<le> n then take (nat n) xs else take (nat (int (length xs) + n)) xs)"

lemma set_py_take: "x \<in> set (py_take n xs) \<Longrightarrow> x \<in> set xs"
  by (auto simp: py_take_def dest: in_set_takeD split: if_splits)

lemma length_py_take: "0 \<le> n \<Longrightarrow> int (length (py_take n xs)) \<le> n"
  by (simp add: py_take_def)

text \<open>\<open>xs.sort(key=k)\<close> and \<open>xs.sort(key=k, reverse=True)\<close>: both are stable.\<close>

definition sort_asc :: "('a \<Rightarrow> 'k::linorder) \<Rightarrow> 'a list \<Rightarrow> 'a list" where
  "sort_asc k xs = sort_key k xs"

definition sort_desc :: "('a \<Rightarrow> 'k::linorder) \<Rightarrow> 'a list \<Rightarrow> 'a list" where
  "sort_desc k xs = rev (sort_key k (rev xs))"

lemma set_sorts [simp]: "set (sort_asc k xs) = set xs" "set (sort_desc k xs) = set xs"
  by (simp_all add: sort_asc_def sort_desc_def)

lemma length_sorts [simp]: "length (sort_asc k xs) = length xs" "length (sort_desc k xs) = length xs"
  by (simp_all add: sort_asc_def sort_desc_def)

lemma sorted_sort_desc: "sorted_wrt (\<lambda>a b. k b \<le> k a) (sort_desc k xs)"
  using sorted_sort_key [of k "rev xs"] by (simp add: sort_desc_def sorted_wrt_rev sorted_map)

lemma distinct_map_sorts [simp]:
  "distinct (map f (sort_asc k xs)) = distinct (map f xs)"
  "distinct (map f (sort_desc k xs)) = distinct (map f xs)"
  by (simp_all add: sort_asc_def sort_desc_def distinct_map)

lemma filter_sort_desc: "filter P (sort_desc k xs) = sort_desc k (filter P xs)"
  unfolding sort_desc_def by (metis filter_sort rev_filter)

subsection \<open>Truth values of str and Optional\<close>

text \<open>\<open>value or default\<close> for a string, and for an optional string (both \<open>None\<close> and the empty
  string are false).\<close>

definition str_or :: "string \<Rightarrow> string \<Rightarrow> string" where
  "str_or s d = (if s = [] then d else s)"

definition opt_str :: "string option \<Rightarrow> string" where
  "opt_str v = (case v of None \<Rightarrow> [] | Some s \<Rightarrow> s)"

definition opt_truthy :: "string option \<Rightarrow> bool" where
  "opt_truthy v \<longleftrightarrow> opt_str v \<noteq> []"

lemmas truth_defs [py_eval] = str_or_def opt_str_def opt_truthy_def

end
