(* ===== verification/PyDatetime.thy ===== *)
theory PyDatetime
  imports PyBase
begin

text \<open>
  The part of Python's \<open>datetime\<close> the code uses. A moment is an \<open>int\<close>: microseconds since
  0001-01-01T00:00:00, so that comparison and addition of a \<open>timedelta\<close> (also microseconds) are
  integer comparison and addition. \<open>pydt\<close> separates naive values (a wall clock) from aware ones (a
  wall clock and its offset from UTC). \<open>dt_ok\<close> is the supported range (years 1 to 9999); leaving it
  raises OverflowError.

  The calendar is the proleptic Gregorian one, with the algorithm of CPython's \<open>_pydatetime.py\<close>.
  \<open>isoformat_utc\<close> prints what \<open>isoformat()\<close> gives for a UTC value; \<open>fromisoformat\<close> reads the
  extended ISO 8601 forms (\<open>YYYY-MM-DD\<close>, optionally a separator and \<open>HH[:MM[:SS[.f+]]]\<close> and an
  offset \<open>Z\<close> or \<open>+HH:MM\<close>). The basic forms without dashes and the week dates, which Python 3.11
  also reads, are not accepted by this model.
\<close>

subsection \<open>Fixed-width decimal numbers\<close>

definition digit_char :: "nat \<Rightarrow> char" where
  "digit_char d = char_of (48 + d)"

definition digit_val :: "char \<Rightarrow> nat" where
  "digit_val c = char_code c - 48"

fun pad :: "nat \<Rightarrow> nat \<Rightarrow> string" where
  "pad 0 n = []"
| "pad (Suc w) n = pad w (n div 10) @ [digit_char (n mod 10)]"

definition digits_val :: "string \<Rightarrow> nat" where
  "digits_val s = foldl (\<lambda>a c. 10 * a + digit_val c) 0 s"

lemma digit_val_digit_char: "d < 10 \<Longrightarrow> digit_val (digit_char d) = d"
  by (simp add: digit_val_def digit_char_def char_code_char_of)

lemma digit_char_is_digit: "d < 10 \<Longrightarrow> char_is_digit (digit_char d)"
  by (simp add: digit_char_def char_is_digit_def char_code_char_of)

lemma digit_char_code: "d < 10 \<Longrightarrow> char_code (digit_char d) = 48 + d"
  by (simp add: digit_char_def char_code_char_of)

lemma length_pad [simp]: "length (pad w n) = w"
  by (induction w n rule: pad.induct) auto

lemma pad_digits: "c \<in> set (pad w n) \<Longrightarrow> char_is_digit c"
  by (induction w n rule: pad.induct) (auto simp: digit_char_is_digit)

lemma digits_val_pad: "digits_val (pad w n) = n mod 10 ^ w"
proof (induction w n rule: pad.induct)
  case (1 n)
  then show ?case by (simp add: digits_val_def)
next
  case (2 w n)
  have "digits_val (pad (Suc w) n) = 10 * digits_val (pad w (n div 10)) + n mod 10"
    by (simp add: digits_val_def digit_val_digit_char)
  also have "\<dots> = 10 * (n div 10 mod 10 ^ w) + n mod 10" using 2 by simp
  also have "\<dots> = n mod 10 ^ Suc w" by (simp add: mod_mult2_eq)
  finally show ?case .
qed

text \<open>Reading \<open>w\<close> digits from the front of a text.\<close>

definition read_digits :: "nat \<Rightarrow> string \<Rightarrow> (nat \<times> string) option" where
  "read_digits w s =
     (if w \<le> length s \<and> list_all char_is_digit (take w s)
      then Some (digits_val (take w s), drop w s) else None)"

lemma read_digits_pad: "n < 10 ^ w \<Longrightarrow> read_digits w (pad w n @ r) = Some (n, r)"
  by (auto simp: read_digits_def list_all_iff digits_val_pad dest: pad_digits)

definition read_char :: "char \<Rightarrow> string \<Rightarrow> string option" where
  "read_char c s = (case s of [] \<Rightarrow> None | x # r \<Rightarrow> if x = c then Some r else None)"

lemma read_char_Cons [simp]: "read_char c (c # r) = Some r"
  by (simp add: read_char_def)

subsection \<open>The calendar\<close>

definition is_leap :: "int \<Rightarrow> bool" where
  "is_leap y \<longleftrightarrow> y mod 4 = 0 \<and> (y mod 100 \<noteq> 0 \<or> y mod 400 = 0)"

definition days_before_year :: "int \<Rightarrow> int" where
  "days_before_year y = 365 * (y - 1) + (y - 1) div 4 - (y - 1) div 100 + (y - 1) div 400"

definition days_in_month :: "int \<Rightarrow> int \<Rightarrow> int" where
  "days_in_month y m =
     (if m = 2 then (if is_leap y then 29 else 28)
      else if m = 4 \<or> m = 6 \<or> m = 9 \<or> m = 11 then 30 else 31)"

definition days_before_month :: "int \<Rightarrow> int \<Rightarrow> int" where
  "days_before_month y m =
     (let l = (if is_leap y then 1 else 0) in
      if m = 1 then 0 else if m = 2 then 31 else if m = 3 then 59 + l else if m = 4 then 90 + l
      else if m = 5 then 120 + l else if m = 6 then 151 + l else if m = 7 then 181 + l
      else if m = 8 then 212 + l else if m = 9 then 243 + l else if m = 10 then 273 + l
      else if m = 11 then 304 + l else 334 + l)"

definition valid_ymd :: "int \<Rightarrow> int \<Rightarrow> int \<Rightarrow> bool" where
  "valid_ymd y m d \<longleftrightarrow> 1 \<le> y \<and> y \<le> 9999 \<and> 1 \<le> m \<and> m \<le> 12 \<and> 1 \<le> d \<and> d \<le> days_in_month y m"

definition ymd2ord :: "int \<Rightarrow> int \<Rightarrow> int \<Rightarrow> int" where
  "ymd2ord y m d = days_before_year y + days_before_month y m + d"

text \<open>Year and day of the year (from 1) of an ordinal, as in \<open>_ord2ymd\<close>.\<close>

definition year_of_ord :: "int \<Rightarrow> int" where
  "year_of_ord n =
     (let n0 = n - 1; a = n0 div 146097; r1 = n0 mod 146097;
          c = r1 div 36524; r2 = r1 mod 36524; f = r2 div 1461; r3 = r2 mod 1461; g = r3 div 365;
          y = 400 * a + 100 * c + 4 * f + g + 1
      in if g = 4 \<or> c = 4 then y - 1 else y)"

definition month_of_doy :: "int \<Rightarrow> int \<Rightarrow> int" where
  "month_of_doy y k =
     (let b = days_before_month y in
      if k \<le> b 2 then 1 else if k \<le> b 3 then 2 else if k \<le> b 4 then 3 else if k \<le> b 5 then 4
      else if k \<le> b 6 then 5 else if k \<le> b 7 then 6 else if k \<le> b 8 then 7 else if k \<le> b 9 then 8
      else if k \<le> b 10 then 9 else if k \<le> b 11 then 10 else if k \<le> b 12 then 11 else 12)"

definition ord2ymd :: "int \<Rightarrow> int \<times> int \<times> int" where
  "ord2ymd n =
     (let y = year_of_ord n; k = n - days_before_year y; m = month_of_doy y k
      in (y, m, k - days_before_month y m))"

definition max_ordinal :: int where
  "max_ordinal = 3652059"

lemma days_before_year_decomp:
  assumes "0 \<le> a" "0 \<le> c" "c \<le> 3" "0 \<le> f" "f \<le> 24" "0 \<le> g" "g \<le> 3"
  shows "days_before_year (400 * a + 100 * c + 4 * f + g + 1)
           = 146097 * a + 36524 * c + 1461 * f + 365 * g"
proof -
  have "(400 * a + 100 * c + 4 * f + g) div 4 = 100 * a + 25 * c + f"
  proof -
    have "(4 * (100 * a + 25 * c + f) + g) div 4 = 100 * a + 25 * c + f"
      using assms by (simp add: div_pos_pos_trivial)
    then show ?thesis by (simp add: algebra_simps)
  qed
  moreover have "(400 * a + 100 * c + 4 * f + g) div 100 = 4 * a + c"
  proof -
    have "(100 * (4 * a + c) + (4 * f + g)) div 100 = 4 * a + c"
      using assms by (simp add: div_pos_pos_trivial)
    then show ?thesis by (simp add: algebra_simps)
  qed
  moreover have "(400 * a + 100 * c + 4 * f + g) div 400 = a"
  proof -
    have "(400 * a + (100 * c + 4 * f + g)) div 400 = a"
      using assms by (simp add: div_pos_pos_trivial)
    then show ?thesis by (simp add: algebra_simps)
  qed
  ultimately show ?thesis by (simp add: days_before_year_def)
qed

lemma mod_window:
  fixes t m a :: int
  assumes "1 \<le> t" "t \<le> m"
  shows "(m * a + t) mod m = 0 \<longleftrightarrow> t = m"
proof (cases "t = m")
  case True
  then show ?thesis by simp
next
  case False
  with assms have "(m * a + t) mod m = t" by (simp add: mod_pos_pos_trivial)
  with False assms show ?thesis by simp
qed

lemma is_leap_decomp:
  assumes "0 \<le> a" "0 \<le> c" "c \<le> 3" "0 \<le> f" "f \<le> 24" "0 \<le> g" "g \<le> 3"
  shows "is_leap (400 * a + 100 * c + 4 * f + g + 1) \<longleftrightarrow> g = 3 \<and> (f \<noteq> 24 \<or> c = 3)"
proof -
  let ?y = "400 * a + 100 * c + 4 * f + g + 1"
  have "?y mod 4 = 0 \<longleftrightarrow> g + 1 = 4"
    using mod_window [of "g + 1" 4 "100 * a + 25 * c + f"] assms by (simp add: algebra_simps)
  moreover have "?y mod 100 = 0 \<longleftrightarrow> 4 * f + g + 1 = 100"
    using mod_window [of "4 * f + g + 1" 100 "4 * a + c"] assms by (simp add: algebra_simps)
  moreover have "?y mod 400 = 0 \<longleftrightarrow> 100 * c + 4 * f + g + 1 = 400"
    using mod_window [of "100 * c + 4 * f + g + 1" 400 a] assms by (simp add: algebra_simps)
  ultimately show ?thesis unfolding is_leap_def using assms by auto
qed

lemma year_of_ord_bounds:
  assumes "1 \<le> n"
  shows "days_before_year (year_of_ord n) < n
    \<and> n \<le> days_before_year (year_of_ord n) + 365 + (if is_leap (year_of_ord n) then 1 else 0)
    \<and> 1 \<le> year_of_ord n \<and> (n \<le> max_ordinal \<longrightarrow> year_of_ord n \<le> 9999)"
proof -
  define a where "a = (n - 1) div 146097"
  define r1 where "r1 = (n - 1) mod 146097"
  define c where "c = r1 div 36524"
  define r2 where "r2 = r1 mod 36524"
  define f where "f = r2 div 1461"
  define r3 where "r3 = r2 mod 1461"
  define g where "g = r3 div 365"
  define r4 where "r4 = r3 mod 365"
  have n: "n - 1 = 146097 * a + r1" and r1: "r1 = 36524 * c + r2" and r2: "r2 = 1461 * f + r3"
    and r3: "r3 = 365 * g + r4"
    by (simp_all add: a_def r1_def c_def r2_def f_def r3_def g_def r4_def)
  have b: "0 \<le> r1" "r1 < 146097" "0 \<le> r2" "r2 < 36524" "0 \<le> r3" "r3 < 1461" "0 \<le> r4" "r4 < 365"
    by (simp_all add: r1_def r2_def r3_def r4_def)
  have p: "0 \<le> a" "0 \<le> c" "c \<le> 4" "0 \<le> f" "f \<le> 24" "0 \<le> g" "g \<le> 4"
    using assms b n r1 r2 r3 by (auto simp: a_def)
  have y: "year_of_ord n =
      (if g = 4 \<or> c = 4 then 400 * a + 100 * c + 4 * f + g else 400 * a + 100 * c + 4 * f + g + 1)"
    by (simp add: year_of_ord_def Let_def a_def r1_def c_def r2_def f_def r3_def g_def)
  have hi: "400 * a + 100 * c + 4 * f + g \<le> 9998" if "n \<le> max_ordinal" "c \<le> 3"
  proof -
    have "146097 * a + r1 \<le> 3652058" using that n by (simp add: max_ordinal_def)
    then consider "a \<le> 23" | "a = 24" "c \<le> 2" | "a = 24" "c = 3" "f \<le> 23" | "a = 24" "c = 3" "f = 24" "g \<le> 2"
      using that(2) b p n r1 r2 r3 by linarith
    then show ?thesis using that(2) p by cases linarith+
  qed
  have hi4: "a \<le> 23" if "n \<le> max_ordinal" "c = 4"
  proof -
    have "146097 * a + r1 \<le> 3652058" using that n by (simp add: max_ordinal_def)
    then show ?thesis using that(2) r1 b by linarith
  qed
  consider (normal) "g \<le> 3" "c \<le> 3" | (leap) "g = 4" "c \<le> 3" | (cent) "c = 4" using p by linarith
  then show ?thesis
  proof cases
    case normal
    then show ?thesis using y n r1 r2 r3 b p
      by (auto simp: days_before_year_decomp dest: hi)
  next
    case leap
    have "r4 = 0" using leap r3 b by linarith
    have "f \<noteq> 24 \<or> c = 3" using leap b r1 r2 r3 p by linarith
    then show ?thesis
      using leap y n r1 r2 r3 b p \<open>r4 = 0\<close> days_before_year_decomp [of a c f 3]
        is_leap_decomp [of a c f 3] hi
      by (auto simp: algebra_simps)
  next
    case cent
    then have z: "r2 = 0" "f = 0" "g = 0" "r3 = 0" "r4 = 0" using b r1 r2 r3 p by linarith+
    then show ?thesis
      using cent z y n r1 p days_before_year_decomp [of a 3 24 3] is_leap_decomp [of a 3 24 3] hi4
      by (auto simp: algebra_simps)
  qed
qed

lemma month_of_doy_bounds:
  assumes "1 \<le> k" "k \<le> 365 + (if is_leap y then 1 else 0)"
  shows "1 \<le> month_of_doy y k \<and> month_of_doy y k \<le> 12
    \<and> days_before_month y (month_of_doy y k) < k
    \<and> k \<le> days_before_month y (month_of_doy y k) + days_in_month y (month_of_doy y k)"
  using assms
  by (cases "is_leap y")
     (simp_all add: month_of_doy_def days_before_month_def days_in_month_def Let_def split: if_splits)

lemma ord2ymd_roundtrip:
  assumes n: "1 \<le> n" "n \<le> max_ordinal" and eq: "ord2ymd n = (y, m, d)"
  shows "valid_ymd y m d" "ymd2ord y m d = n"
proof -
  have y: "y = year_of_ord n" and m: "m = month_of_doy y (n - days_before_year y)"
    and d: "d = n - days_before_year y - days_before_month y m"
    using eq by (auto simp: ord2ymd_def Let_def)
  have yb: "days_before_year y < n"
    "n \<le> days_before_year y + 365 + (if is_leap y then 1 else 0)" "1 \<le> y"
    using year_of_ord_bounds [OF n(1)] by (simp_all add: y)
  have "y \<le> 9999" using year_of_ord_bounds [OF n(1)] n(2) by (simp add: y)
  moreover have "1 \<le> m \<and> m \<le> 12 \<and> days_before_month y m < n - days_before_year y
      \<and> n - days_before_year y \<le> days_before_month y m + days_in_month y m"
    unfolding m using yb by (intro month_of_doy_bounds) auto
  ultimately show "valid_ymd y m d" "ymd2ord y m d = n"
    using yb by (auto simp: valid_ymd_def ymd2ord_def d)
qed

subsection \<open>Moments\<close>

type_synonym instant = int

definition us_second :: int where "us_second = 1000000"
definition us_minute :: int where "us_minute = 60000000"
definition us_hour :: int where "us_hour = 3600000000"
definition us_day :: int where "us_day = 86400000000"

lemmas us_defs [py_eval] = us_second_def us_minute_def us_hour_def us_day_def

datatype pydt = Naive instant | Aware instant int

definition dt_ok :: "instant \<Rightarrow> bool" where
  "dt_ok t \<longleftrightarrow> 0 \<le> t \<and> t < max_ordinal * us_day"

definition dt_check :: "instant \<Rightarrow> instant result" where
  "dt_check t = (if dt_ok t then Inr t else Inl OverflowError)"

text \<open>\<open>moment + timedelta\<close>\<close>

definition dt_add :: "instant \<Rightarrow> int \<Rightarrow> instant result" where
  "dt_add t d = dt_check (t + d)"

lemma dt_check_Inr [result_simps]: "dt_check t = Inr u \<longleftrightarrow> dt_ok t \<and> u = t"
  by (auto simp: dt_check_def)

lemma dt_check_ok [simp]: "dt_ok t \<Longrightarrow> dt_check t = Inr t"
  by (simp add: dt_check_def)

lemma dt_add_Inr [result_simps]: "dt_add t d = Inr u \<longleftrightarrow> dt_ok (t + d) \<and> u = t + d"
  by (simp add: dt_add_def dt_check_Inr)

text \<open>\<open>value.replace(tzinfo=utc)\<close> for a naive value, then \<open>astimezone(utc)\<close>.\<close>

definition to_utc :: "pydt \<Rightarrow> instant result" where
  "to_utc v = (case v of Naive w \<Rightarrow> dt_check w | Aware w off \<Rightarrow> dt_check (w - off))"

subsection \<open>isoformat\<close>

definition iso_date :: "int \<Rightarrow> string" where
  "iso_date n = (case ord2ymd n of (y, m, d) \<Rightarrow>
     pad 4 (nat y) @ ''-'' @ pad 2 (nat m) @ ''-'' @ pad 2 (nat d))"

definition iso_time :: "int \<Rightarrow> string" where
  "iso_time t =
     pad 2 (nat (t div us_hour)) @ '':'' @ pad 2 (nat (t mod us_hour div us_minute)) @ '':''
     @ pad 2 (nat (t mod us_minute div us_second))
     @ (if t mod us_second = 0 then [] else ''.'' @ pad 6 (nat (t mod us_second)))"

definition iso_wall :: "instant \<Rightarrow> string" where
  "iso_wall w = iso_date (w div us_day + 1) @ ''T'' @ iso_time (w mod us_day)"

definition isoformat_utc :: "instant \<Rightarrow> string" where
  "isoformat_utc w = iso_wall w @ ''+00:00''"

definition iso_offset :: "int \<Rightarrow> string" where
  "iso_offset off =
     (let a = \<bar>off\<bar> in (if off < 0 then ''-'' else ''+'')
       @ pad 2 (nat (a div us_hour)) @ '':'' @ pad 2 (nat (a mod us_hour div us_minute))
       @ (if a mod us_minute = 0 then []
          else '':'' @ pad 2 (nat (a mod us_minute div us_second))
            @ (if a mod us_second = 0 then [] else ''.'' @ pad 6 (nat (a mod us_second)))))"

definition isoformat :: "pydt \<Rightarrow> string" where
  "isoformat v = (case v of Naive w \<Rightarrow> iso_wall w | Aware w off \<Rightarrow> iso_wall w @ iso_offset off)"

lemma isoformat_Aware_0: "isoformat (Aware w 0) = isoformat_utc w"
proof -
  have "iso_offset 0 = ''+00:00''" by code_simp
  then show ?thesis by (simp add: isoformat_def isoformat_utc_def)
qed

subsection \<open>fromisoformat\<close>

definition read_date :: "string \<Rightarrow> (int \<times> string) option" where
  "read_date s =
     Option.bind (read_digits 4 s) (\<lambda>(y, s).
     Option.bind (read_char (CHR ''-'') s) (\<lambda>s.
     Option.bind (read_digits 2 s) (\<lambda>(m, s).
     Option.bind (read_char (CHR ''-'') s) (\<lambda>s.
     Option.bind (read_digits 2 s) (\<lambda>(d, s).
       if valid_ymd (int y) (int m) (int d) then Some (ymd2ord (int y) (int m) (int d), s) else None)))))"

text \<open>A fraction: a point or comma and at least one digit; digits after the sixth are dropped.\<close>

definition read_fraction :: "string \<Rightarrow> (int \<times> string) option" where
  "read_fraction s =
     (case s of [] \<Rightarrow> Some (0, [])
      | c # r \<Rightarrow>
        if c = CHR ''.'' \<or> c = CHR '',''
        then (let ds = takeWhile char_is_digit r in
              if ds = [] then None
              else Some (int (digits_val (take 6 (ds @ replicate 6 (CHR ''0'')))), drop (length ds) r))
        else Some (0, s))"

definition read_seconds :: "string \<Rightarrow> (int \<times> string) option" where
  "read_seconds s =
     (case read_char (CHR '':'') s of None \<Rightarrow> Some (0, s)
      | Some s \<Rightarrow> Option.bind (read_digits 2 s) (\<lambda>(ss, s). if 60 \<le> ss then None else
          Option.bind (read_fraction s) (\<lambda>(us, s). Some (int ss * us_second + us, s))))"

definition read_time :: "string \<Rightarrow> (int \<times> string) option" where
  "read_time s =
     Option.bind (read_digits 2 s) (\<lambda>(hh, s). if 24 \<le> hh then None else
       case read_char (CHR '':'') s of None \<Rightarrow> Some (int hh * us_hour, s)
       | Some s \<Rightarrow> Option.bind (read_digits 2 s) (\<lambda>(mm, s). if 60 \<le> mm then None else
           Option.bind (read_seconds s) (\<lambda>(us, s).
             Some (int hh * us_hour + int mm * us_minute + us, s))))"

definition read_offset :: "string \<Rightarrow> int option option" where
  "read_offset s =
     (if s = [] then Some None
      else if s = ''Z'' then Some (Some 0)
      else if hd s = CHR ''+'' \<or> hd s = CHR ''-''
      then (case read_time (tl s) of Some (t, []) \<Rightarrow> Some (Some (if hd s = CHR ''-'' then - t else t))
            | _ \<Rightarrow> None)
      else None)"

definition fromisoformat :: "string \<Rightarrow> pydt option" where
  "fromisoformat s =
     Option.bind (read_date s) (\<lambda>(n, s).
       let base = (n - 1) * us_day in
       case s of [] \<Rightarrow> Some (Naive base)
       | _ # s \<Rightarrow> Option.bind (read_time s) (\<lambda>(t, s).
           case read_offset s of None \<Rightarrow> None
           | Some None \<Rightarrow> Some (Naive (base + t))
           | Some (Some off) \<Rightarrow> Some (Aware (base + t) off)))"

text \<open>\<open>date.fromisoformat\<close> (the extended form), and \<open>date.isoformat\<close> is \<open>iso_date\<close>; a date is its
  proleptic ordinal.\<close>

definition date_fromisoformat :: "string \<Rightarrow> int option" where
  "date_fromisoformat s = (case read_date s of Some (n, []) \<Rightarrow> Some n | _ \<Rightarrow> None)"

lemma read_date_iso:
  assumes "1 \<le> n" "n \<le> max_ordinal"
  shows "read_date (iso_date n @ r) = Some (n, r)"
proof -
  obtain y m d where e: "ord2ymd n = (y, m, d)" by (cases "ord2ymd n")
  note v = ord2ymd_roundtrip [OF assms e]
  have b: "0 \<le> y" "y < 10000" "0 \<le> m" "m < 100" "0 \<le> d" "d < 100"
    using v(1) by (auto simp: valid_ymd_def days_in_month_def split: if_splits)
  show ?thesis using b v
    by (simp add: iso_date_def e read_date_def read_digits_pad nat_less_iff del: pad.simps)
qed

lemma date_roundtrip:
  "1 \<le> n \<Longrightarrow> n \<le> max_ordinal \<Longrightarrow> date_fromisoformat (iso_date n) = Some n"
  using read_date_iso [of n "[]"] by (simp add: date_fromisoformat_def)

lemma takeWhile_digits_pad:
  "takeWhile char_is_digit (pad w n @ r) = pad w n @ takeWhile char_is_digit r"
  by (simp add: takeWhile_append2 pad_digits)

text \<open>What follows a printed time is an offset or the end, never a digit.\<close>

lemma int_div_bounds:
  fixes t k H :: int
  assumes "0 \<le> t" "t < k * H" "0 < H"
  shows "0 \<le> t div H" "t div H < k"
proof -
  show "0 \<le> t div H" using assms by (simp add: pos_imp_zdiv_nonneg_iff)
  have "(t div H) * H \<le> t" using pos_mod_sign [OF assms(3), of t] div_mult_mod_eq [of t H] by linarith
  with assms(2) have "(t div H) * H < k * H" by linarith
  with assms(3) show "t div H < k" by simp
qed

lemma time_fields:
  assumes "0 \<le> t" "t < us_day"
  shows "0 \<le> t div us_hour" "t div us_hour < 24"
    "0 \<le> t mod us_hour div us_minute" "t mod us_hour div us_minute < 60"
    "0 \<le> t mod us_minute div us_second" "t mod us_minute div us_second < 60"
    "0 \<le> t mod us_second" "t mod us_second < 1000000"
    "t = (t div us_hour) * us_hour + (t mod us_hour div us_minute) * us_minute
       + (t mod us_minute div us_second) * us_second + t mod us_second"
proof -
  show "0 \<le> t div us_hour" "t div us_hour < 24"
    using assms int_div_bounds [of t 24 us_hour] by (simp_all add: us_defs)
  show "0 \<le> t mod us_hour div us_minute" "t mod us_hour div us_minute < 60"
    using int_div_bounds [of "t mod us_hour" 60 us_minute] by (simp_all add: us_defs)
  show "0 \<le> t mod us_minute div us_second" "t mod us_minute div us_second < 60"
    using int_div_bounds [of "t mod us_minute" 60 us_second] by (simp_all add: us_defs)
  show "0 \<le> t mod us_second" "t mod us_second < 1000000" by (simp_all add: us_defs)
  have "t mod us_hour mod us_minute = t mod us_minute" "t mod us_minute mod us_second = t mod us_second"
    by (simp_all add: us_defs mod_mod_cancel)
  then show "t = (t div us_hour) * us_hour + (t mod us_hour div us_minute) * us_minute
       + (t mod us_minute div us_second) * us_second + t mod us_second"
    using div_mult_mod_eq [of t us_hour] div_mult_mod_eq [of "t mod us_hour" us_minute]
      div_mult_mod_eq [of "t mod us_minute" us_second]
    by linarith
qed

definition time_end :: "string \<Rightarrow> bool" where
  "time_end r \<longleftrightarrow> (case r of [] \<Rightarrow> True
     | c # _ \<Rightarrow> \<not> char_is_digit c \<and> c \<noteq> CHR ''.'' \<and> c \<noteq> CHR '','')"

lemma read_fraction_none: "time_end r \<Longrightarrow> read_fraction r = Some (0, r)"
  by (simp add: read_fraction_def time_end_def split: list.splits)

lemma read_fraction_pad:
  assumes "time_end r" "n < 1000000"
  shows "read_fraction (CHR ''.'' # pad 6 n @ r) = Some (int n, r)"
proof -
  have "takeWhile char_is_digit r = []" using assms(1) by (simp add: time_end_def split: list.splits)
  then have "takeWhile char_is_digit (pad 6 n @ r) = pad 6 n"
    using takeWhile_digits_pad [of 6 n r] by simp
  moreover have "pad 6 n \<noteq> []" using length_pad [of 6 n] by (metis length_0_conv zero_neq_numeral)
  ultimately show ?thesis using assms(2)
    by (simp add: read_fraction_def Let_def digits_val_pad del: pad.simps)
qed

lemma read_time_iso:
  assumes t: "0 \<le> t" "t < us_day" and r: "time_end r"
  shows "read_time (iso_time t @ r) = Some (t, r)"
proof -
  note h = time_fields [OF t]
  have frac: "read_fraction ((if t mod us_second = 0 then [] else ''.'' @ pad 6 (nat (t mod us_second))) @ r)
      = Some (t mod us_second, r)"
    using r h(7,8) by (simp add: read_fraction_none read_fraction_pad nat_less_iff del: pad.simps)
  have "int (nat (t div us_hour)) * us_hour + int (nat (t mod us_hour div us_minute)) * us_minute
      + (int (nat (t mod us_minute div us_second)) * us_second + t mod us_second) = t"
    using h by simp
  then show ?thesis using h(1-6) frac
    by (simp add: read_time_def iso_time_def read_seconds_def read_digits_pad nat_less_iff
          le_nat_iff not_le del: pad.simps)
qed

lemma iso_wall_ok:
  assumes "dt_ok w"
  shows "1 \<le> w div us_day + 1" "w div us_day + 1 \<le> max_ordinal" "0 \<le> w mod us_day" "w mod us_day < us_day"
  using assms int_div_bounds [of w max_ordinal us_day]
  by (simp_all add: dt_ok_def us_day_def)

lemma fromisoformat_iso_wall:
  assumes "dt_ok w"
  shows "fromisoformat (iso_wall w) = Some (Naive w)"
    and "fromisoformat (iso_wall w @ ''+00:00'') = Some (Aware w 0)"
    and "fromisoformat (iso_wall w @ ''Z'') = Some (Aware w 0)"
proof -
  note b = iso_wall_ok [OF assms]
  have off: "read_offset ''+00:00'' = Some (Some 0)" by code_simp
  have e: "time_end []" "time_end ''+00:00''" "time_end ''Z''" by code_simp+
  have w: "w div us_day * us_day + w mod us_day = w" by (rule div_mult_mod_eq)
  show "fromisoformat (iso_wall w) = Some (Naive w)"
    using read_time_iso [OF b(3,4) e(1)] w
    by (simp add: fromisoformat_def iso_wall_def read_date_iso [OF b(1,2)] read_offset_def)
  show "fromisoformat (iso_wall w @ ''+00:00'') = Some (Aware w 0)"
    using read_time_iso [OF b(3,4) e(2)] w off
    by (simp add: fromisoformat_def iso_wall_def read_date_iso [OF b(1,2)])
  show "fromisoformat (iso_wall w @ ''Z'') = Some (Aware w 0)"
    using read_time_iso [OF b(3,4) e(3)] w
    by (simp add: fromisoformat_def iso_wall_def read_date_iso [OF b(1,2)] read_offset_def)
qed

text \<open>The characters of a printed moment.\<close>

lemma iso_wall_chars:
  assumes "c \<in> set (iso_wall w)"
  shows "char_is_digit c \<or> c = CHR ''-'' \<or> c = CHR '':'' \<or> c = CHR ''T'' \<or> c = CHR ''.''"
  using assms
  by (auto simp: iso_wall_def iso_date_def iso_time_def pad_digits simp del: pad.simps
        split: prod.splits if_splits)

lemma iso_wall_not_in:
  "CHR ''Z'' \<notin> set (iso_wall w)" "CHR ''+'' \<notin> set (iso_wall w)"
  by (auto dest!: iso_wall_chars simp: char_is_digit_def char_code_def)

lemma iso_wall_nonempty [simp]: "iso_wall w \<noteq> []"
  by (simp add: iso_wall_def)

text \<open>\<open>isoformat().replace("+00:00", "Z")\<close>, the form in which times are stored.\<close>

lemma isoformat_utc_z: "replace_sub ''+00:00'' ''Z'' (isoformat_utc t) = iso_wall t @ ''Z''"
proof -
  have "replace_sub ''+00:00'' ''Z'' ''+00:00'' = ''Z''" by code_simp
  then show ?thesis
    using replace_sub_absent [of "''+00:00''" "iso_wall t" "''Z''" "''+00:00''"] iso_wall_not_in(2)
    by (simp add: isoformat_utc_def)
qed

lemma read_date_digit:
  "read_date s = Some x \<Longrightarrow> s \<noteq> [] \<and> char_is_digit (hd s)"
  by (cases s) (auto simp: read_date_def read_digits_def bind_eq_Some_conv split: if_splits)

end
