(* ===== verification/PyHash.thy ===== *)
theory PyHash
  imports PyBase "HOL-Library.Word"
begin

unbundle bit_operations_syntax

text \<open>
  \<open>hashlib.sha256(data).hexdigest()\<close> of the Python standard library, as FIPS 180-4 defines it, on
  bytes given as a string. It is executable; the proofs use only that it is a function, that its
  value has 64 characters and that they are lowercase hexadecimal digits.
\<close>

type_synonym u32 = "32 word"

definition sha_k :: "u32 list" where
  "sha_k =
    [1116352408, 1899447441, 3049323471, 3921009573, 961987163, 1508970993, 2453635748, 2870763221,
     3624381080, 310598401, 607225278, 1426881987, 1925078388, 2162078206, 2614888103, 3248222580,
     3835390401, 4022224774, 264347078, 604807628, 770255983, 1249150122, 1555081692, 1996064986,
     2554220882, 2821834349, 2952996808, 3210313671, 3336571891, 3584528711, 113926993, 338241895,
     666307205, 773529912, 1294757372, 1396182291, 1695183700, 1986661051, 2177026350, 2456956037,
     2730485921, 2820302411, 3259730800, 3345764771, 3516065817, 3600352804, 4094571909, 275423344,
     430227734, 506948616, 659060556, 883997877, 958139571, 1322822218, 1537002063, 1747873779,
     1955562222, 2024104815, 2227730452, 2361852424, 2428436474, 2756734187, 3204031479, 3329325298]"

definition sha_init :: "u32 list" where
  "sha_init =
    [1779033703, 3144134277, 1013904242, 2773480762, 1359893119, 2600822924, 528734635, 1541459225]"

definition rotr :: "nat \<Rightarrow> u32 \<Rightarrow> u32" where
  "rotr n x = drop_bit n x OR push_bit (32 - n) x"

text \<open>The message as bytes, padded to a multiple of 64, then as big-endian words.\<close>

definition byte_of :: "char \<Rightarrow> nat" where "byte_of c = of_char c"

fun be_bytes :: "nat \<Rightarrow> nat \<Rightarrow> nat list" where
  "be_bytes 0 n = []"
| "be_bytes (Suc w) n = be_bytes w (n div 256) @ [n mod 256]"

definition sha_pad :: "string \<Rightarrow> nat list" where
  "sha_pad s =
     (let l = length s
      in map byte_of s @ [128] @ replicate ((119 - l mod 64) mod 64) 0 @ be_bytes 8 (8 * l))"

fun be_words :: "nat list \<Rightarrow> u32 list" where
  "be_words (a # b # c # d # r) = (push_bit 24 (of_nat a) OR push_bit 16 (of_nat b) OR push_bit 8 (of_nat c) OR of_nat d) # be_words r"
| "be_words _ = []"

text \<open>The message schedule: \<open>ws\<close> holds the words so far, newest first.\<close>

fun sha_schedule :: "nat \<Rightarrow> u32 list \<Rightarrow> u32 list" where
  "sha_schedule 0 ws = rev ws"
| "sha_schedule (Suc n) ws =
     (let w15 = ws ! 14; w2 = ws ! 1;
          s0 = rotr 7 w15 XOR rotr 18 w15 XOR drop_bit 3 w15;
          s1 = rotr 17 w2 XOR rotr 19 w2 XOR drop_bit 10 w2
      in sha_schedule n ((ws ! 15 + s0 + ws ! 6 + s1) # ws))"

fun sha_rounds :: "(u32 \<times> u32) list \<Rightarrow> u32 list \<Rightarrow> u32 list" where
  "sha_rounds ((k, w) # kws) [a, b, c, d, e, f, g, h] =
     (let s1 = rotr 6 e XOR rotr 11 e XOR rotr 25 e;
          ch = (e AND f) XOR (NOT e AND g);
          t1 = h + s1 + ch + k + w;
          s0 = rotr 2 a XOR rotr 13 a XOR rotr 22 a;
          maj = (a AND b) XOR (a AND c) XOR (b AND c)
      in sha_rounds kws [t1 + s0 + maj, a, b, c, d + t1, e, f, g])"
| "sha_rounds _ st = st"

definition sha_block :: "u32 list \<Rightarrow> u32 list \<Rightarrow> u32 list" where
  "sha_block st ws =
     map2 (+) st (sha_rounds (zip sha_k (sha_schedule 48 (rev ws))) st)"

function sha_blocks :: "u32 list \<Rightarrow> u32 list \<Rightarrow> u32 list" where
  "sha_blocks st [] = st"
| "sha_blocks st (w # ws) = sha_blocks (sha_block st (take 16 (w # ws))) (drop 16 (w # ws))"
  by pat_completeness auto
termination
  by (relation "measure (\<lambda>(st, ws). length ws)") auto

definition hex_char :: "nat \<Rightarrow> char" where
  "hex_char d = (if d < 10 then char_of (48 + d) else char_of (87 + d))"

definition hex_word :: "u32 \<Rightarrow> string" where
  "hex_word w = map (\<lambda>i. hex_char (unat (drop_bit (4 * i) w AND 15))) [7, 6, 5, 4, 3, 2, 1, 0]"

definition sha256_hex :: "string \<Rightarrow> string" where
  "sha256_hex s = concat (map hex_word (take 8 (sha_blocks sha_init (be_words (sha_pad s)))))"

lemma length_hex_word [simp]: "length (hex_word w) = 8"
  by (simp add: hex_word_def)

lemma hex_char_hex: "d < 16 \<Longrightarrow> char_is_hex (hex_char d) \<and> \<not> char_is_upper (hex_char d)"
  by (auto simp: hex_char_def char_is_hex_def char_is_upper_def char_is_digit_def char_code_char_of)

lemma nibble_bound: "unat (x AND 15 :: u32) < 16"
proof -
  have "x AND 15 \<le> (15 :: u32)" by (rule word_and_le1)
  then show ?thesis by (simp add: word_le_nat_alt)
qed

lemma hex_word_hex: "c \<in> set (hex_word w) \<Longrightarrow> char_is_hex c \<and> \<not> char_is_upper c"
  unfolding hex_word_def by (auto intro!: hex_char_hex [THEN conjunct1] hex_char_hex [THEN conjunct2] nibble_bound
      )

lemma length_sha_rounds: "length (sha_rounds kws st) = length st"
  by (induction kws st rule: sha_rounds.induct) (auto simp: Let_def)

lemma length_sha_block: "length (sha_block st ws) = length st"
  by (simp add: sha_block_def length_sha_rounds)

lemma length_sha_blocks: "length (sha_blocks st ws) = length st"
  by (induction st ws rule: sha_blocks.induct) (auto simp: length_sha_block)

lemma length_concat_hex: "length (concat (map hex_word ws)) = 8 * length ws"
  by (induction ws) auto

lemma length_sha256_hex [simp]: "length (sha256_hex s) = 64"
  by (simp add: sha256_hex_def length_concat_hex length_sha_blocks sha_init_def)

lemma sha256_hex_nonempty [simp]: "sha256_hex s \<noteq> []"
  by (metis length_sha256_hex list.size(3) zero_neq_numeral)

lemma sha256_hex_chars: "c \<in> set (sha256_hex s) \<Longrightarrow> char_is_hex c \<and> \<not> char_is_upper c"
  by (auto simp: sha256_hex_def dest: hex_word_hex)

end
