(* ===== verification/PyJson.thy ===== *)
theory PyJson
  imports PyDatetime PyHash
begin

text \<open>
  JSON values as \<open>json.loads\<close> returns them (a \<open>float\<close> is kept by its \<open>repr\<close>), the accessors the
  code applies to a loaded document, and the text \<open>json.dumps(payload, sort_keys=True,
  separators=(",", ":"))\<close> gives. A document read from a file is represented by the value it
  parses to: the round trip of \<open>json.loads\<close> after \<open>json.dumps\<close> is not modelled.
  The main lemma is that printing is injective: two values that print the same text are equal.
\<close>

datatype json =
    JNull
  | JBool bool
  | JInt int
  | JFloat string
  | JStr string
  | JArr "json list"
  | JObj "(string \<times> json) list"

type_synonym jobj = "(string \<times> json) list"

text \<open>\<open>document.get(key)\<close>: \<open>None\<close> and JSON null are the same value.\<close>

definition jget :: "jobj \<Rightarrow> string \<Rightarrow> json" where
  "jget d k = (case map_of d k of None \<Rightarrow> JNull | Some v \<Rightarrow> v)"

lemma jget_simps [simp, py_eval]:
  "jget [] k = JNull"
  "jget ((k', v) # d) k = (if k' = k then v else jget d k)"
  by (auto simp: jget_def)

text \<open>\<open>value == 1\<close> in Python, where \<open>True == 1\<close> and \<open>1.0 == 1\<close>.\<close>

definition json_is_one :: "json \<Rightarrow> bool" where
  "json_is_one v \<longleftrightarrow> v = JInt 1 \<or> v = JBool True \<or> v = JFloat ''1.0''"

fun is_jobj :: "json \<Rightarrow> bool" where
  "is_jobj (JObj _) = True"
| "is_jobj _ = False"

fun jobj_items :: "json \<Rightarrow> jobj" where
  "jobj_items (JObj d) = d"
| "jobj_items _ = []"

fun is_jstr :: "json \<Rightarrow> bool" where
  "is_jstr (JStr _) = True"
| "is_jstr _ = False"

fun jstr_val :: "json \<Rightarrow> string" where
  "jstr_val (JStr s) = s"
| "jstr_val _ = []"

subsection \<open>json.dumps\<close>

definition json_short_escape :: "char \<Rightarrow> char option" where
  "json_short_escape c =
     (if c = CHR 0x22 then Some (CHR 0x22)
      else if c = CHR 0x5C then Some (CHR 0x5C)
      else if c = CHR 0x0A then Some (CHR ''n'')
      else if c = CHR 0x0D then Some (CHR ''r'')
      else if c = CHR 0x09 then Some (CHR ''t'')
      else if c = CHR 0x08 then Some (CHR ''b'')
      else if c = CHR 0x0C then Some (CHR ''f'')
      else None)"

definition json_escape_char :: "char \<Rightarrow> string" where
  "json_escape_char c =
     (case json_short_escape c of
        Some x \<Rightarrow> [CHR 0x5C, x]
      | None \<Rightarrow>
          if char_code c < 32 \<or> 128 \<le> char_code c
          then [CHR 0x5C, CHR ''u'', CHR ''0'', CHR ''0'',
                hex_char (char_code c div 16), hex_char (char_code c mod 16)]
          else [c])"

fun json_escape_to :: "string \<Rightarrow> string" where
  "json_escape_to [] = [CHR 0x22]"
| "json_escape_to (c # cs) = json_escape_char c @ json_escape_to cs"

definition json_string :: "string \<Rightarrow> string" where
  "json_string s = CHR 0x22 # json_escape_to s"

fun nat_digits :: "nat \<Rightarrow> string" where
  "nat_digits n = (if n < 10 then [digit_char n] else nat_digits (n div 10) @ [digit_char (n mod 10)])"

declare nat_digits.simps [simp del]

definition int_text :: "int \<Rightarrow> string" where
  "int_text i = (if i < 0 then CHR ''-'' # nat_digits (nat (- i)) else nat_digits (nat i))"

fun json_dumps :: "json \<Rightarrow> string" and json_items :: "json list \<Rightarrow> string"
  and json_fields :: "(string \<times> json) list \<Rightarrow> string" where
  "json_dumps JNull = ''null''"
| "json_dumps (JBool b) = (if b then ''true'' else ''false'')"
| "json_dumps (JInt i) = int_text i"
| "json_dumps (JFloat r) = r"
| "json_dumps (JStr s) = json_string s"
| "json_dumps (JArr xs) = CHR ''['' # json_items xs"
| "json_dumps (JObj kvs) = CHR ''{'' # json_fields kvs"
| "json_items [] = '']''"
| "json_items [x] = json_dumps x @ '']''"
| "json_items (x # y # ys) = json_dumps x @ '','' @ json_items (y # ys)"
| "json_fields [] = ''}''"
| "json_fields [(k, v)] = json_string k @ '':'' @ json_dumps v @ ''}''"
| "json_fields ((k, v) # f # fs) = json_string k @ '':'' @ json_dumps v @ '','' @ json_fields (f # fs)"

text \<open>\<open>sort_keys=True\<close>: the fields of an object in key order (applied at the top and to the nested
  objects the payloads have, which are built in key order).\<close>

definition json_dumps_sorted :: "jobj \<Rightarrow> string" where
  "json_dumps_sorted kvs = json_dumps (JObj (sort_key fst kvs))"

subsection \<open>Printing is injective\<close>

lemma hex_char_inj: "a < 16 \<Longrightarrow> b < 16 \<Longrightarrow> hex_char a = hex_char b \<Longrightarrow> a = b"
proof -
  assume ab: "a < 16" "b < 16" and "hex_char a = hex_char b"
  then have "char_code (hex_char a) = char_code (hex_char b)" by simp
  then show "a = b" using ab by (auto simp: hex_char_def char_code_char_of split: if_splits)
qed

lemma char_code_inj: "char_code a = char_code b \<Longrightarrow> a = b"
  by (simp add: char_code_def)

lemma json_short_escape_inj:
  "json_short_escape c = Some x \<Longrightarrow> json_short_escape d = Some x \<Longrightarrow> c = d"
  by (auto simp: json_short_escape_def split: if_splits)

lemma json_short_escape_not_u: "json_short_escape c \<noteq> Some (CHR ''u'')"
  by (auto simp: json_short_escape_def)

lemma json_escape_char_inj:
  assumes eq: "json_escape_char c @ r = json_escape_char d @ s"
  shows "c = d \<and> r = s"
proof (cases "json_short_escape c")
  case (Some x)
  with eq show ?thesis
    by (cases "json_short_escape d")
       (auto simp: json_escape_char_def json_short_escape_not_u
          dest: json_short_escape_inj split: if_splits,
        simp_all add: json_short_escape_def)
next
  case None
  have c: "c \<noteq> CHR 0x5C" using None by (auto simp: json_short_escape_def)
  show ?thesis
  proof (cases "json_short_escape d")
    case (Some y)
    with None eq c show ?thesis
      by (auto simp: json_escape_char_def json_short_escape_not_u split: if_splits)
  next
    case None': None
    have d: "d \<noteq> CHR 0x5C" using None' by (auto simp: json_short_escape_def)
    have hex: "hex_char (char_code c div 16) = hex_char (char_code d div 16) \<Longrightarrow>
        hex_char (char_code c mod 16) = hex_char (char_code d mod 16) \<Longrightarrow> c = d"
    proof -
      assume "hex_char (char_code c div 16) = hex_char (char_code d div 16)"
        and "hex_char (char_code c mod 16) = hex_char (char_code d mod 16)"
      then have "char_code c div 16 = char_code d div 16" "char_code c mod 16 = char_code d mod 16"
        using hex_char_inj char_code_bound [of c] char_code_bound [of d]
        by (auto simp del: char_code_bound intro!: hex_char_inj)
      then show "c = d" by (intro char_code_inj) (metis div_mult_mod_eq)
    qed
    show ?thesis using None None' eq c d hex
      by (auto simp: json_escape_char_def split: if_splits)
  qed
qed

lemma json_escape_char_not_quote: "hd (json_escape_char c) \<noteq> CHR 0x22" "json_escape_char c \<noteq> []"
  by (auto simp: json_escape_char_def json_short_escape_def split: option.splits if_splits)

lemma json_escape_to_inj: "json_escape_to a @ r = json_escape_to b @ s \<Longrightarrow> a = b \<and> r = s"
proof (induction a arbitrary: b)
  case Nil
  then show ?case
    by (cases b) (auto simp: json_escape_char_not_quote hd_append dest!: arg_cong [where f = hd]
        split: if_splits, metis hd_append2 json_escape_char_not_quote list.sel(1))
next
  case (Cons c cs)
  show ?case
  proof (cases b)
    case Nil
    with Cons.prems have "hd (json_escape_char c) = CHR 0x22"
      using json_escape_char_not_quote [of c] by (cases "json_escape_char c") auto
    with json_escape_char_not_quote [of c] show ?thesis by simp
  next
    case (Cons d ds)
    with Cons.prems have "json_escape_char c @ (json_escape_to cs @ r)
        = json_escape_char d @ (json_escape_to ds @ s)" by simp
    then have "c = d" "json_escape_to cs @ r = json_escape_to ds @ s"
      using json_escape_char_inj by blast+
    with Cons.IH Cons show ?thesis by auto
  qed
qed

lemma json_string_inj: "json_string a @ r = json_string b @ s \<Longrightarrow> a = b \<and> r = s"
  by (auto simp: json_string_def dest: json_escape_to_inj)

text \<open>Values built from null, text, lists of text and objects of such values.\<close>

fun json_textual :: "json \<Rightarrow> bool" where
  "json_textual JNull = True"
| "json_textual (JStr _) = True"
| "json_textual (JArr xs) = list_all json_textual xs"
| "json_textual (JObj kvs) = list_all (\<lambda>(k, v). json_textual v) kvs"
| "json_textual _ = False"

lemma json_items_Cons:
  "json_items (x # xs) = json_dumps x @ (if xs = [] then '']'' else '','' @ json_items xs)"
  by (cases xs) auto

lemma json_fields_Cons:
  "json_fields ((k, v) # fs) =
     json_string k @ '':'' @ json_dumps v @ (if fs = [] then ''}'' else '','' @ json_fields fs)"
  by (cases fs) auto

lemma json_dumps_hd: "json_textual v \<Longrightarrow> \<exists>c t. json_dumps v = c # t \<and> c \<noteq> CHR '']''"
  by (cases v) (auto simp: json_string_def)

lemma json_string_hd: "json_string k @ t \<noteq> CHR ''}'' # u" "CHR ''}'' # u \<noteq> json_string k @ t"
  by (simp_all add: json_string_def)

lemma json_items_not_end:
  "json_textual y \<Longrightarrow> CHR '']'' # r \<noteq> json_items (y # ys) @ s"
  using json_dumps_hd [of y] by (auto simp: json_items_Cons)

lemma json_dumps_inj_aux:
  "json_textual v \<Longrightarrow> json_textual w \<Longrightarrow> json_dumps v @ r = json_dumps w @ s \<Longrightarrow> v = w \<and> r = s"
  "list_all json_textual xs \<Longrightarrow> list_all json_textual ys \<Longrightarrow> json_items xs @ r = json_items ys @ s
     \<Longrightarrow> xs = ys \<and> r = s"
  "list_all (\<lambda>(k, v). json_textual v) fs \<Longrightarrow> list_all (\<lambda>(k, v). json_textual v) gs
     \<Longrightarrow> json_fields fs @ r = json_fields gs @ s \<Longrightarrow> fs = gs \<and> r = s"
proof (induction v and xs and fs arbitrary: w r s and ys r s and gs r s
    rule: json_dumps_json_items_json_fields.induct)
  case 1
  then show ?case by (cases w) (auto simp: json_string_def)
next
  case (2 b)
  then show ?case by simp
next
  case (3 i)
  then show ?case by simp
next
  case (4 f)
  then show ?case by simp
next
  case (5 t)
  then show ?case by (cases w) (auto simp: json_string_def dest: json_escape_to_inj)
next
  case (6 xs)
  obtain zs where w: "w = JArr zs" using "6.prems" by (cases w) (auto simp: json_string_def split: if_splits)
  then show ?case using "6.IH" [of zs r s] "6.prems" by simp
next
  case (7 kvs)
  obtain zs where w: "w = JObj zs" using "7.prems" by (cases w) (auto simp: json_string_def split: if_splits)
  then show ?case using "7.IH" [of zs r s] "7.prems" by simp
next
  case 8
  show ?case
  proof (cases ys)
    case Nil
    with "8.prems" show ?thesis by simp
  next
    case (Cons y ys')
    with "8.prems" show ?thesis using json_items_not_end [of y r ys' s] by simp
  qed
next
  case (9 x)
  show ?case
  proof (cases ys)
    case Nil
    with "9.prems" show ?thesis using json_items_not_end [of x s "[]" r] by auto
  next
    case (Cons y ys')
    let ?t = "if ys' = [] then '']'' else '','' @ json_items ys'"
    have "json_dumps x @ ('']'' @ r) = json_dumps y @ (?t @ s)"
      using "9.prems" Cons by (simp add: json_items_Cons)
    then have "x = y" "'']'' @ r = ?t @ s"
      using "9.IH" [of y "'']'' @ r" "?t @ s"] "9.prems" Cons by auto
    then show ?thesis using Cons by (cases "ys' = []") auto
  qed
next
  case (10 x x' xs')
  show ?case
  proof (cases ys)
    case Nil
    with "10.prems" show ?thesis
      using json_items_not_end [of x s "x' # xs'" r] by auto
  next
    case (Cons y ys')
    let ?t = "if ys' = [] then '']'' else '','' @ json_items ys'"
    have "json_dumps x @ ('','' @ json_items (x' # xs') @ r) = json_dumps y @ (?t @ s)"
      using "10.prems" Cons by (simp add: json_items_Cons)
    then have xy: "x = y" and t: "'','' @ json_items (x' # xs') @ r = ?t @ s"
      using "10.IH"(1) [of y "'','' @ json_items (x' # xs') @ r" "?t @ s"] "10.prems" Cons by auto
    then have "ys' \<noteq> []" "json_items (x' # xs') @ r = json_items ys' @ s"
      by (auto split: if_splits)
    then show ?thesis using "10.IH"(2) [of ys' r s] "10.prems" Cons xy by auto
  qed
next
  case 11
  then show ?case by (cases gs) (auto simp: json_fields_Cons json_string_hd)
next
  case (12 k v)
  show ?case
  proof (cases gs)
    case Nil
    with "12.prems" show ?thesis by (simp add: json_string_hd)
  next
    case (Cons g gs')
    obtain k' v' where g: "g = (k', v')" by (cases g)
    let ?t = "if gs' = [] then ''}'' else '','' @ json_fields gs'"
    have "json_string k @ ('':'' @ json_dumps v @ ''}'' @ r)
        = json_string k' @ ('':'' @ json_dumps v' @ ?t @ s)"
      using "12.prems" Cons g by (simp add: json_fields_Cons)
    then have kk: "k = k'" and "json_dumps v @ (''}'' @ r) = json_dumps v' @ (?t @ s)"
      by (auto dest: json_string_inj)
    then have "v = v'" "''}'' @ r = ?t @ s"
      using "12.IH" [of v' "''}'' @ r" "?t @ s"] "12.prems" Cons g by auto
    then show ?thesis using Cons g kk by (cases "gs' = []") auto
  qed
next
  case (13 k v f fs')
  show ?case
  proof (cases gs)
    case Nil
    with "13.prems" show ?thesis by (simp add: json_string_hd)
  next
    case (Cons g gs')
    obtain k' v' where g: "g = (k', v')" by (cases g)
    let ?t = "if gs' = [] then ''}'' else '','' @ json_fields gs'"
    have "json_string k @ ('':'' @ json_dumps v @ '','' @ json_fields (f # fs') @ r)
        = json_string k' @ ('':'' @ json_dumps v' @ ?t @ s)"
      using "13.prems" Cons g by (simp add: json_fields_Cons)
    then have kk: "k = k'"
      and "json_dumps v @ ('','' @ json_fields (f # fs') @ r) = json_dumps v' @ (?t @ s)"
      by (auto dest: json_string_inj)
    then have vv: "v = v'" and "'','' @ json_fields (f # fs') @ r = ?t @ s"
      using "13.IH"(1) [of v' "'','' @ json_fields (f # fs') @ r" "?t @ s"] "13.prems" Cons g by auto
    then have "gs' \<noteq> []" "json_fields (f # fs') @ r = json_fields gs' @ s"
      by (auto split: if_splits)
    then show ?thesis using "13.IH"(2) [of gs' r s] "13.prems" Cons g kk vv by auto
  qed
qed

lemma json_dumps_inj:
  "json_textual v \<Longrightarrow> json_textual w \<Longrightarrow> json_dumps v = json_dumps w \<longleftrightarrow> v = w"
  using json_dumps_inj_aux(1) [of v w "[]" "[]"] by auto

subsection \<open>str and int of a loaded value\<close>

definition repr_char :: "char \<Rightarrow> char \<Rightarrow> string" where
  "repr_char q c =
     (if c = q \<or> c = CHR 0x5C then [CHR 0x5C, c]
      else if c = CHR 0x0A then [CHR 0x5C, CHR ''n'']
      else if c = CHR 0x0D then [CHR 0x5C, CHR ''r'']
      else if c = CHR 0x09 then [CHR 0x5C, CHR ''t'']
      else if char_code c < 32 \<or> 127 \<le> char_code c
      then [CHR 0x5C, CHR ''x'', hex_char (char_code c div 16), hex_char (char_code c mod 16)]
      else [c])"

definition py_repr_str :: "string \<Rightarrow> string" where
  "py_repr_str s =
     (let q = (if CHR 0x27 \<in> set s \<and> CHR 0x22 \<notin> set s then CHR 0x22 else CHR 0x27)
      in q # concat (map (repr_char q) s) @ [q])"

fun py_repr :: "json \<Rightarrow> string" and py_repr_fields :: "(string \<times> json) list \<Rightarrow> string list" where
  "py_repr JNull = ''None''"
| "py_repr (JBool b) = (if b then ''True'' else ''False'')"
| "py_repr (JInt i) = int_text i"
| "py_repr (JFloat r) = r"
| "py_repr (JStr s) = py_repr_str s"
| "py_repr (JArr xs) = ''['' @ py_join '', '' (map py_repr xs) @ '']''"
| "py_repr (JObj kvs) = ''{'' @ py_join '', '' (py_repr_fields kvs) @ ''}''"
| "py_repr_fields [] = []"
| "py_repr_fields ((k, v) # kvs) = (py_repr_str k @ '': '' @ py_repr v) # py_repr_fields kvs"

text \<open>\<open>str(value)\<close>\<close>

definition py_str :: "json \<Rightarrow> string" where
  "py_str v = (case v of JStr s \<Rightarrow> s | _ \<Rightarrow> py_repr v)"

lemma py_str_JStr [simp]: "py_str (JStr s) = s"
  by (simp add: py_str_def)

text \<open>\<open>int(value)\<close>. Of a float, given by its \<open>repr\<close>, the digits before the point (exponent forms
  are outside the model); of a text, an optionally signed run of digits.\<close>

definition int_of_text :: "string \<Rightarrow> int option" where
  "int_of_text s =
     (let t = py_strip s; neg = (t \<noteq> [] \<and> hd t = CHR ''-'');
          ds = (if t \<noteq> [] \<and> (hd t = CHR ''-'' \<or> hd t = CHR ''+'') then tl t else t)
      in if ds \<noteq> [] \<and> list_all char_is_digit ds
         then Some (if neg then - int (digits_val ds) else int (digits_val ds)) else None)"

definition py_int :: "json \<Rightarrow> int result" where
  "py_int v =
     (case v of JInt i \<Rightarrow> Inr i
      | JBool b \<Rightarrow> Inr (if b then 1 else 0)
      | JStr s \<Rightarrow> (case int_of_text s of Some i \<Rightarrow> Inr i | None \<Rightarrow> Inl (ValueError ''invalid literal for int()''))
      | JFloat r \<Rightarrow> (case int_of_text (takeWhile (\<lambda>c. c \<noteq> CHR ''.'') r) of Some i \<Rightarrow> Inr i
                    | None \<Rightarrow> Inl (ValueError ''cannot convert float to integer''))
      | _ \<Rightarrow> Inl TypeError)"

text \<open>The truth value of a loaded value.\<close>

definition json_truthy :: "json \<Rightarrow> bool" where
  "json_truthy v =
     (case v of JNull \<Rightarrow> False | JBool b \<Rightarrow> b | JInt i \<Rightarrow> i \<noteq> 0 | JFloat r \<Rightarrow> r \<noteq> ''0.0'' \<and> r \<noteq> ''-0.0''
      | JStr s \<Rightarrow> s \<noteq> [] | JArr xs \<Rightarrow> xs \<noteq> [] | JObj kvs \<Rightarrow> kvs \<noteq> [])"

end
