(* ===== verification/Domain.thy ===== *)
theory Domain
  imports PyJson
begin

text \<open>
  \<open>src/cfdi_vault/domain.py\<close>: the enumerations with their stored values, the request query with its
  validation and its \<open>criteria_hash\<close>, the queue message envelope and its JSON form, and the metadata
  row. An enumeration \<open>E\<close> has \<open>E_value\<close> (the attribute \<open>.value\<close>) and, where the code builds a member
  from text, \<open>E_of\<close>, which raises ValueError for a text that is no value.
\<close>

subsection \<open>Enumerations\<close>

datatype RequestType = RT_METADATA | RT_CFDI

fun RequestType_value :: "RequestType \<Rightarrow> string" where
  "RequestType_value RT_METADATA = ''metadata''"
| "RequestType_value RT_CFDI = ''cfdi''"

definition RequestType_of :: "string \<Rightarrow> RequestType result" where
  "RequestType_of s =
     (if s = ''metadata'' then Inr RT_METADATA else if s = ''cfdi'' then Inr RT_CFDI
      else Inl (ValueError s))"

datatype DownloadDirection = ISSUED | RECEIVED | FOLIO

fun DownloadDirection_value :: "DownloadDirection \<Rightarrow> string" where
  "DownloadDirection_value ISSUED = ''issued''"
| "DownloadDirection_value RECEIVED = ''received''"
| "DownloadDirection_value FOLIO = ''folio''"

definition DownloadDirection_of :: "string \<Rightarrow> DownloadDirection result" where
  "DownloadDirection_of s =
     (if s = ''issued'' then Inr ISSUED else if s = ''received'' then Inr RECEIVED
      else if s = ''folio'' then Inr FOLIO else Inl (ValueError s))"

datatype QueueName =
    SAT_REQUEST | SAT_VERIFY | SAT_DOWNLOAD | CFDI_PARSE_METADATA | CFDI_PARSE_XML
  | CFDI_RECONCILE | CFDI_EXPORT | DEAD_LETTER

fun QueueName_value :: "QueueName \<Rightarrow> string" where
  "QueueName_value SAT_REQUEST = ''sat.request''"
| "QueueName_value SAT_VERIFY = ''sat.verify''"
| "QueueName_value SAT_DOWNLOAD = ''sat.download''"
| "QueueName_value CFDI_PARSE_METADATA = ''cfdi.parse.metadata''"
| "QueueName_value CFDI_PARSE_XML = ''cfdi.parse.xml''"
| "QueueName_value CFDI_RECONCILE = ''cfdi.reconcile''"
| "QueueName_value CFDI_EXPORT = ''cfdi.export''"
| "QueueName_value DEAD_LETTER = ''dead.letter''"

definition all_queues :: "QueueName list" where
  "all_queues = [SAT_REQUEST, SAT_VERIFY, SAT_DOWNLOAD, CFDI_PARSE_METADATA, CFDI_PARSE_XML,
     CFDI_RECONCILE, CFDI_EXPORT, DEAD_LETTER]"

definition QueueName_of :: "string \<Rightarrow> QueueName result" where
  "QueueName_of s =
     (case find (\<lambda>q. QueueName_value q = s) all_queues of Some q \<Rightarrow> Inr q | None \<Rightarrow> Inl (ValueError s))"

datatype JobStatus = JS_PENDING | JS_RUNNING | JS_SUCCEEDED | JS_FAILED | JS_RETRY_SCHEDULED | JS_MANUAL_REVIEW

fun JobStatus_value :: "JobStatus \<Rightarrow> string" where
  "JobStatus_value JS_PENDING = ''pending''"
| "JobStatus_value JS_RUNNING = ''running''"
| "JobStatus_value JS_SUCCEEDED = ''succeeded''"
| "JobStatus_value JS_FAILED = ''failed''"
| "JobStatus_value JS_RETRY_SCHEDULED = ''retry_scheduled''"
| "JobStatus_value JS_MANUAL_REVIEW = ''manual_review''"

datatype SatRequestState = RS_ACCEPTED | RS_IN_PROCESS | RS_FINISHED | RS_ERROR | RS_REJECTED | RS_EXPIRED

fun SatRequestState_value :: "SatRequestState \<Rightarrow> string" where
  "SatRequestState_value RS_ACCEPTED = ''accepted''"
| "SatRequestState_value RS_IN_PROCESS = ''in_process''"
| "SatRequestState_value RS_FINISHED = ''finished''"
| "SatRequestState_value RS_ERROR = ''error''"
| "SatRequestState_value RS_REJECTED = ''rejected''"
| "SatRequestState_value RS_EXPIRED = ''expired''"

definition all_request_states :: "SatRequestState list" where
  "all_request_states = [RS_ACCEPTED, RS_IN_PROCESS, RS_FINISHED, RS_ERROR, RS_REJECTED, RS_EXPIRED]"

definition SatRequestState_of :: "string \<Rightarrow> SatRequestState result" where
  "SatRequestState_of s =
     (case find (\<lambda>q. SatRequestState_value q = s) all_request_states of
        Some q \<Rightarrow> Inr q | None \<Rightarrow> Inl (ValueError s))"

datatype ReconciliationState =
    DISCOVERED_IN_METADATA | XML_PENDING | XML_REQUESTED | XML_DOWNLOADED | XML_NOT_AVAILABLE
  | CANCELLED_METADATA | CANCELLED_CONFIRMED | STATE_CHECK_PENDING | STATE_CHECKED
  | RETRY_SCHEDULED | FAILED_PERMANENT

fun ReconciliationState_value :: "ReconciliationState \<Rightarrow> string" where
  "ReconciliationState_value DISCOVERED_IN_METADATA = ''DISCOVERED_IN_METADATA''"
| "ReconciliationState_value XML_PENDING = ''XML_PENDING''"
| "ReconciliationState_value XML_REQUESTED = ''XML_REQUESTED''"
| "ReconciliationState_value XML_DOWNLOADED = ''XML_DOWNLOADED''"
| "ReconciliationState_value XML_NOT_AVAILABLE = ''XML_NOT_AVAILABLE''"
| "ReconciliationState_value CANCELLED_METADATA = ''CANCELLED_METADATA''"
| "ReconciliationState_value CANCELLED_CONFIRMED = ''CANCELLED_CONFIRMED''"
| "ReconciliationState_value STATE_CHECK_PENDING = ''STATE_CHECK_PENDING''"
| "ReconciliationState_value STATE_CHECKED = ''STATE_CHECKED''"
| "ReconciliationState_value RETRY_SCHEDULED = ''RETRY_SCHEDULED''"
| "ReconciliationState_value FAILED_PERMANENT = ''FAILED_PERMANENT''"

datatype CfdiStatusOutcome =
    CS_ACTIVE | CS_CANCELLED | CS_NOT_FOUND | CS_UNAUTHORIZED | CS_RETRYABLE | CS_PERMANENT | CS_UNKNOWN

lemma RequestType_value_inj [simp]: "RequestType_value a = RequestType_value b \<longleftrightarrow> a = b"
  by (cases a; cases b; simp)

lemma DownloadDirection_value_inj [simp]:
  "DownloadDirection_value a = DownloadDirection_value b \<longleftrightarrow> a = b"
  by (cases a; cases b; simp)

lemma ReconciliationState_value_inj [simp]:
  "ReconciliationState_value a = ReconciliationState_value b \<longleftrightarrow> a = b"
  by (cases a; cases b; simp)

lemma RequestType_roundtrip [simp]: "RequestType_of (RequestType_value a) = Inr a"
  by (cases a) (simp_all add: RequestType_of_def)

lemma DownloadDirection_roundtrip [simp]: "DownloadDirection_of (DownloadDirection_value a) = Inr a"
  by (cases a) (simp_all add: DownloadDirection_of_def)

lemma SatRequestState_roundtrip [simp]: "SatRequestState_of (SatRequestState_value a) = Inr a"
  by (cases a) (simp_all add: SatRequestState_of_def all_request_states_def)

lemma QueueName_roundtrip [simp]: "QueueName_of (QueueName_value a) = Inr a"
  by (cases a) (simp_all add: QueueName_of_def all_queues_def)

subsection \<open>Periods and queries\<close>

text \<open>Comparing a naive with an aware value raises TypeError.\<close>

definition pydt_lt :: "pydt \<Rightarrow> pydt \<Rightarrow> bool result" where
  "pydt_lt a b =
     (case (a, b) of (Naive x, Naive y) \<Rightarrow> Inr (x < y)
      | (Aware x o1, Aware y o2) \<Rightarrow> Inr (x - o1 < y - o2)
      | _ \<Rightarrow> Inl TypeError)"

record DateTimePeriod =
  p_start :: pydt
  p_end :: pydt

definition mk_period :: "pydt \<Rightarrow> pydt \<Rightarrow> DateTimePeriod result" where
  "mk_period s e =
     bindR (pydt_lt e s) (\<lambda>b.
     bindR (raise_if b (ValueError ''period end must be greater than or equal to start'')) (\<lambda>_.
     Inr \<lparr>p_start = s, p_end = e\<rparr>))"

definition period_as_dict :: "DateTimePeriod \<Rightarrow> json" where
  "period_as_dict p = JObj [(''end'', JStr (isoformat (p_end p))), (''start'', JStr (isoformat (p_start p)))]"

record DownloadQuery =
  q_tenant_id :: string
  q_requester_rfc :: string
  q_direction :: DownloadDirection
  q_request_type :: RequestType
  q_period :: "DateTimePeriod option"
  q_issuer_rfc :: "string option"
  q_receiver_rfcs :: "string list"
  q_uuid :: "string option"
  q_document_status :: "string option"
  q_document_type :: "string option"
  q_complement :: "string option"
  q_rfc_on_behalf :: "string option"
  q_recovery_variant_reason :: "string option"

definition err_if :: "bool \<Rightarrow> string \<Rightarrow> string list" where
  "err_if c m = (if c then [m] else [])"

definition query_validate :: "DownloadQuery \<Rightarrow> string list" where
  "query_validate q =
     err_if (q_tenant_id q = []) ''tenant_id is required''
     @ err_if (q_requester_rfc q = []) ''requester_rfc is required''
     @ (if q_direction q = FOLIO
        then err_if (\<not> opt_truthy (q_uuid q)) ''uuid is required for folio requests''
        else err_if (q_period q = None) ''period is required for issued or received requests'')
     @ err_if (5 < length (q_receiver_rfcs q)) ''receiver_rfcs accepts at most 5 RFC values''"

definition json_opt :: "string option \<Rightarrow> json" where
  "json_opt v = (case v of None \<Rightarrow> JNull | Some s \<Rightarrow> JStr s)"

text \<open>\<open>x.upper() if x else None\<close>\<close>

definition upper_or_none :: "string option \<Rightarrow> string option" where
  "upper_or_none v = (if opt_truthy v then Some (py_upper (opt_str v)) else None)"

definition criteria_payload :: "DownloadQuery \<Rightarrow> jobj" where
  "criteria_payload q =
     [(''tenant_id'', JStr (q_tenant_id q)),
      (''requester_rfc'', JStr (py_upper (q_requester_rfc q))),
      (''direction'', JStr (DownloadDirection_value (q_direction q))),
      (''request_type'', JStr (RequestType_value (q_request_type q))),
      (''period'', (case q_period q of None \<Rightarrow> JNull | Some p \<Rightarrow> period_as_dict p)),
      (''issuer_rfc'', json_opt (upper_or_none (q_issuer_rfc q))),
      (''receiver_rfcs'', JArr (map JStr (sort (map py_upper (q_receiver_rfcs q))))),
      (''uuid'', json_opt (upper_or_none (q_uuid q))),
      (''document_status'', json_opt (q_document_status q)),
      (''document_type'', json_opt (q_document_type q)),
      (''complement'', json_opt (q_complement q)),
      (''rfc_on_behalf'', json_opt (upper_or_none (q_rfc_on_behalf q))),
      (''recovery_variant_reason'', json_opt (q_recovery_variant_reason q))]"

definition criteria_text :: "DownloadQuery \<Rightarrow> string" where
  "criteria_text q = json_dumps_sorted (criteria_payload q)"

definition criteria_hash :: "DownloadQuery \<Rightarrow> string" where
  "criteria_hash q = sha256_hex (criteria_text q)"

definition criteria_keys :: "string list" where
  "criteria_keys = [''tenant_id'', ''requester_rfc'', ''direction'', ''request_type'', ''period'',
     ''issuer_rfc'', ''receiver_rfcs'', ''uuid'', ''document_status'', ''document_type'',
     ''complement'', ''rfc_on_behalf'', ''recovery_variant_reason'']"

lemma map_fst_payload: "map fst (criteria_payload q) = criteria_keys"
  by (simp add: criteria_payload_def criteria_keys_def)

lemma distinct_criteria_keys: "distinct criteria_keys"
  by (simp add: criteria_keys_def)

lemma sort_key_fst_inj:
  assumes d: "distinct (map fst xs)" "map fst ys = map fst xs"
    and eq: "sort_key fst xs = sort_key fst ys"
  shows "xs = ys"
proof -
  have "set xs = set ys" using eq by (metis set_sort)
  then have m: "map_of xs = map_of ys" using d by (intro map_of_inject_set [THEN iffD2]) auto
  show ?thesis
  proof (rule nth_equalityI)
    show "length xs = length ys" using d(2) by (metis length_map)
    fix i assume i: "i < length xs"
    then have i': "i < length ys" using \<open>length xs = length ys\<close> by simp
    have k: "fst (xs ! i) = fst (ys ! i)" using d(2) i i' by (metis nth_map)
    have "map_of xs (fst (xs ! i)) = Some (snd (xs ! i))" "map_of ys (fst (ys ! i)) = Some (snd (ys ! i))"
      using d i i' by (auto intro!: map_of_is_SomeI)
    then show "xs ! i = ys ! i" using m k by (metis option.inject prod.collapse)
  qed
qed

lemma textual_json_opt [simp]: "json_textual (json_opt v)"
  by (cases v) (simp_all add: json_opt_def)

lemma textual_JArr_JStr [simp]: "json_textual (JArr (map JStr xs))"
  by (induction xs) auto

lemma textual_period [simp]: "json_textual (case p of None \<Rightarrow> JNull | Some p \<Rightarrow> period_as_dict p)"
  by (cases p) (simp_all add: period_as_dict_def)

lemma textual_payload: "json_textual (JObj (sort_key fst (criteria_payload q)))"
proof -
  have "\<forall>x \<in> set (criteria_payload q). json_textual (snd x)"
    unfolding criteria_payload_def
    by (simp del: json_textual.simps(3) add: textual_JArr_JStr)
  then have "\<forall>x \<in> set (sort_key fst (criteria_payload q)). case x of (k, v) \<Rightarrow> json_textual v"
    by (simp add: case_prod_beta)
  then show ?thesis by (simp only: json_textual.simps list_all_iff)
qed

lemma json_opt_inj [simp]: "json_opt a = json_opt b \<longleftrightarrow> a = b"
  by (auto simp: json_opt_def split: option.splits)

lemma criteria_text_eq_iff: "criteria_text q = criteria_text r \<longleftrightarrow> criteria_payload q = criteria_payload r"
proof
  assume "criteria_text q = criteria_text r"
  then have "sort_key fst (criteria_payload q) = sort_key fst (criteria_payload r)"
    unfolding criteria_text_def json_dumps_sorted_def
    using json_dumps_inj [OF textual_payload textual_payload] by blast
  then show "criteria_payload q = criteria_payload r"
    by (rule sort_key_fst_inj [rotated 2]) (simp_all add: map_fst_payload distinct_criteria_keys)
qed (simp add: criteria_text_def)

text \<open>What the criteria text depends on: RFCs and the UUID in upper case, the receivers as a
  multiset, empty optional RFCs as absent, and the printed bounds of the period.\<close>

definition period_text :: "DateTimePeriod option \<Rightarrow> (string \<times> string) option" where
  "period_text p = (case p of None \<Rightarrow> None | Some p \<Rightarrow> Some (isoformat (p_start p), isoformat (p_end p)))"

definition criteria_key where
  "criteria_key q =
     ((q_tenant_id q, py_upper (q_requester_rfc q), q_direction q, q_request_type q),
      (period_text (q_period q), upper_or_none (q_issuer_rfc q), sort (map py_upper (q_receiver_rfcs q))),
      (upper_or_none (q_uuid q), q_document_status q, q_document_type q, q_complement q),
      upper_or_none (q_rfc_on_behalf q), q_recovery_variant_reason q)"

lemma inj_JStr: "inj JStr"
  by (rule injI) simp

lemma period_json_eq:
  "(case p of None \<Rightarrow> JNull | Some p \<Rightarrow> period_as_dict p)
     = (case p' of None \<Rightarrow> JNull | Some p \<Rightarrow> period_as_dict p) \<longleftrightarrow> period_text p = period_text p'"
  by (auto simp: period_text_def period_as_dict_def split: option.splits)

lemma criteria_payload_eq_iff:
  "criteria_payload q = criteria_payload r \<longleftrightarrow> criteria_key q = criteria_key r"
  unfolding criteria_payload_def criteria_key_def
  by (simp add: inj_map_eq_map [OF inj_JStr] period_json_eq)

subsection \<open>Queue messages\<close>

record QueueMessage =
  m_queue :: QueueName
  m_tenant_id :: string
  m_rfc :: string
  m_payload :: jobj
  m_job_id :: string
  m_correlation_id :: string
  m_attempt :: int
  m_created_at :: pydt

definition message_as_dict :: "QueueMessage \<Rightarrow> jobj" where
  "message_as_dict m =
     [(''queue'', JStr (QueueName_value (m_queue m))),
      (''job_id'', JStr (m_job_id m)),
      (''tenant_id'', JStr (m_tenant_id m)),
      (''rfc'', JStr (m_rfc m)),
      (''correlation_id'', JStr (m_correlation_id m)),
      (''attempt'', JInt (m_attempt m)),
      (''payload'', JObj (m_payload m)),
      (''created_at'', JStr (isoformat (m_created_at m)))]"

text \<open>\<open>data[key]\<close>\<close>

definition jitem :: "jobj \<Rightarrow> string \<Rightarrow> json result" where
  "jitem d k = (case map_of d k of None \<Rightarrow> Inl (KeyError k) | Some v \<Rightarrow> Inr v)"

text \<open>\<open>dict(data.get("payload") or {})\<close>: an array or text that is no sequence of pairs raises.\<close>

definition payload_dict :: "json \<Rightarrow> jobj result" where
  "payload_dict v = (if json_truthy v then (case v of JObj d \<Rightarrow> Inr d | _ \<Rightarrow> Inl TypeError) else Inr [])"

definition message_from_dict :: "instant \<Rightarrow> jobj \<Rightarrow> QueueMessage result" where
  "message_from_dict now d =
     bindR (case jget d ''created_at'' of
              JStr s \<Rightarrow> (case fromisoformat s of Some v \<Rightarrow> Inr v | None \<Rightarrow> Inl (ValueError s))
            | _ \<Rightarrow> Inr (Aware now 0)) (\<lambda>created.
     bindR (jitem d ''queue'') (\<lambda>qv. bindR (QueueName_of (py_str qv)) (\<lambda>queue.
     bindR (jitem d ''job_id'') (\<lambda>job.
     bindR (jitem d ''tenant_id'') (\<lambda>tenant.
     bindR (jitem d ''rfc'') (\<lambda>rfc.
     bindR (jitem d ''correlation_id'') (\<lambda>corr.
     bindR (case map_of d ''attempt'' of None \<Rightarrow> Inr 0 | Some v \<Rightarrow> py_int v) (\<lambda>attempt.
     bindR (payload_dict (jget d ''payload'')) (\<lambda>payload.
       Inr \<lparr>m_queue = queue, m_tenant_id = py_str tenant, m_rfc = py_str rfc, m_payload = payload,
            m_job_id = py_str job, m_correlation_id = py_str corr, m_attempt = attempt,
            m_created_at = created\<rparr>)))))))))"

lemma message_roundtrip_utc:
  assumes "m_created_at m = Aware t 0" "dt_ok t"
  shows "message_from_dict now (message_as_dict m) = Inr m"
  using assms
  by (cases m) (simp add: message_from_dict_def message_as_dict_def jitem_def isoformat_Aware_0
      isoformat_utc_def fromisoformat_iso_wall py_int_def payload_dict_def json_truthy_def)

subsection \<open>Properties of the criteria and of the envelope\<close>

text \<open>C12: two queries have the same criteria text, the text that is hashed to recognise a request that was
  made before, exactly when they ask for the same: the same tenant, direction, type, period as printed,
  status, document type, complement and variant, the same RFCs and UUID up to case with an empty one as
  an absent one, and the same receivers in any order. Such queries have the same criteria hash.\<close>

theorem criteria_text_is_canonical:
  "(criteria_text q = criteria_text r \<longleftrightarrow> criteria_key q = criteria_key r)
   \<and> (criteria_key q = criteria_key r \<longrightarrow> criteria_hash q = criteria_hash r)"
proof (intro conjI impI)
  show same: "criteria_text q = criteria_text r \<longleftrightarrow> criteria_key q = criteria_key r"
    by (simp add: criteria_text_eq_iff criteria_payload_eq_iff)
  assume "criteria_key q = criteria_key r"
  then show "criteria_hash q = criteria_hash r" by (simp add: criteria_hash_def flip: same)
qed

definition example_query :: "string \<Rightarrow> string list \<Rightarrow> string option \<Rightarrow> DownloadQuery" where
  "example_query rfc receivers issuer =
     \<lparr>q_tenant_id = ''t'', q_requester_rfc = rfc, q_direction = RECEIVED, q_request_type = RT_CFDI,
      q_period = None, q_issuer_rfc = issuer, q_receiver_rfcs = receivers, q_uuid = None,
      q_document_status = None, q_document_type = None, q_complement = None, q_rfc_on_behalf = None,
      q_recovery_variant_reason = None\<rparr>"

lemma example_keys:
  "criteria_key (example_query ''aaa'' [''x'', ''b''] (Some [])) = criteria_key (example_query ''AAA'' [''B'', ''X''] None)"
  by code_simp

theorem criteria_text_is_canonical_witness:
  "criteria_hash (example_query ''aaa'' [''x'', ''b''] (Some [])) = criteria_hash (example_query ''AAA'' [''B'', ''X''] None)"
  using criteria_text_is_canonical [of "example_query ''aaa'' [''x'', ''b''] (Some [])" "example_query ''AAA'' [''B'', ''X''] None"]
    example_keys by simp

lemma message_missing_entry:
  assumes "k \<in> {''queue'', ''job_id'', ''tenant_id'', ''rfc'', ''correlation_id''}" "map_of d k = None"
  shows "\<exists>e. message_from_dict now d = Inl e"
proof (cases "message_from_dict now d")
  case (Inr m)
  then show ?thesis using assms unfolding message_from_dict_def
    by (elim bindR_InrE) (auto simp: jitem_def)
qed simp

text \<open>C35: the envelope of a queue message survives its dictionary form: a message created at a UTC instant
  is read back as it was, whatever its queue, payload and attempt; without a readable queue name or one of
  the required entries reading raises.\<close>

theorem message_envelope_roundtrip:
  assumes "m_created_at m = Aware t 0" "dt_ok t"
  shows "message_from_dict now (message_as_dict m) = Inr m
    \<and> (\<forall>d. \<forall>k \<in> {''queue'', ''job_id'', ''tenant_id'', ''rfc'', ''correlation_id''}.
          map_of d k = None \<longrightarrow> (\<exists>e. message_from_dict now d = Inl e))"
  using message_roundtrip_utc [OF assms] message_missing_entry by blast

definition example_message :: QueueMessage where
  "example_message = \<lparr>m_queue = SAT_REQUEST, m_tenant_id = ''t'', m_rfc = ''R'', m_payload = [(''k'', JNull)],
     m_job_id = ''j'', m_correlation_id = ''c'', m_attempt = 2, m_created_at = Aware 0 0\<rparr>"

theorem message_envelope_roundtrip_witness:
  "message_from_dict 0 (message_as_dict example_message) = Inr example_message"
  using message_envelope_roundtrip [of example_message 0 0]
  by (simp add: example_message_def dt_ok_def max_ordinal_def us_day_def)

end
