(* ===== verification/SatContract.thy ===== *)
theory SatContract
  imports Domain
begin

text \<open>
  \<open>src/cfdi_vault/sat_contract.py\<close>: the normalised results of the SAT operations and the two
  classifiers, which map a SAT code and a state to the next internal action. The free-form
  \<open>raw_response\<close> dictionaries of the results, which no decision reads, are left out of the records.
\<close>

datatype SatOperation = OP_AUTHENTICATE | OP_REQUEST | OP_VERIFY | OP_DOWNLOAD | OP_STATUS

datatype SatOutcomeAction =
    ACT_ACCEPTED | ACT_IN_PROGRESS | ACT_FINISHED | ACT_RETRY | ACT_PERMANENT_FAILURE | ACT_EXPIRED
  | ACT_UNAUTHORIZED | ACT_DUPLICATE | ACT_DOWNLOADS_EXHAUSTED

fun SatOutcomeAction_value :: "SatOutcomeAction \<Rightarrow> string" where
  "SatOutcomeAction_value ACT_ACCEPTED = ''accepted''"
| "SatOutcomeAction_value ACT_IN_PROGRESS = ''in_progress''"
| "SatOutcomeAction_value ACT_FINISHED = ''finished''"
| "SatOutcomeAction_value ACT_RETRY = ''retry''"
| "SatOutcomeAction_value ACT_PERMANENT_FAILURE = ''permanent_failure''"
| "SatOutcomeAction_value ACT_EXPIRED = ''expired''"
| "SatOutcomeAction_value ACT_UNAUTHORIZED = ''unauthorized''"
| "SatOutcomeAction_value ACT_DUPLICATE = ''duplicate''"
| "SatOutcomeAction_value ACT_DOWNLOADS_EXHAUSTED = ''downloads_exhausted''"

record SatOutcomeClassification =
  oc_action :: SatOutcomeAction
  oc_reason :: string
  oc_retryable :: bool

record CfdiStatusClassification =
  cc_outcome :: CfdiStatusOutcome
  cc_reason :: string
  cc_retryable :: bool

record SatAuthResult =
  ar_authorization :: string
  ar_expires_at :: "pydt option"

record SatRequestResult =
  rr_request_id :: string
  rr_sat_code :: string
  rr_message :: string
  rr_action :: SatOutcomeAction

record SatVerificationResult =
  vr_request_id :: string
  vr_state :: SatRequestState
  vr_sat_code :: string
  vr_message :: string
  vr_package_ids :: "string list"
  vr_action :: SatOutcomeAction

record SatDownloadResult =
  dr_package_id :: string
  dr_sat_code :: string
  dr_message :: string
  dr_action :: SatOutcomeAction
  dr_content :: "string option"

subsection \<open>Normalisation\<close>

datatype sat_code = CodeText string | CodeInt int

definition normalize_code :: "sat_code option \<Rightarrow> string" where
  "normalize_code c =
     (case c of None \<Rightarrow> [] | Some (CodeText s) \<Rightarrow> py_strip s | Some (CodeInt i) \<Rightarrow> py_strip (int_text i))"

datatype state_arg = StateMember SatRequestState | StateText string

definition normalize_state :: "state_arg option \<Rightarrow> SatRequestState option" where
  "normalize_state st =
     (case st of None \<Rightarrow> None
      | Some (StateMember s) \<Rightarrow> Some s
      | Some (StateText t) \<Rightarrow> (case SatRequestState_of t of Inr s \<Rightarrow> Some s | Inl _ \<Rightarrow> None))"

definition normalize_status_text :: "string option \<Rightarrow> string" where
  "normalize_status_text s =
     (case s of None \<Rightarrow> [] | Some t \<Rightarrow> py_join ''_'' (py_split (py_lower (py_strip t))))"

subsection \<open>CFDI status consultation\<close>

definition active_status_values :: "string list" where
  "active_status_values = [''vigente'', ''active'']"
definition cancelled_status_values :: "string list" where
  "cancelled_status_values = [''cancelado'', ''cancelada'', ''cancelled'', ''canceled'']"
definition not_found_status_values :: "string list" where
  "not_found_status_values = [''no_encontrado'', ''no_disponible'', ''not_available'', ''not_found'']"
definition unauthorized_status_codes :: "string list" where
  "unauthorized_status_codes =
     [''300'', ''303'', ''304'', ''305'', ''5001'', ''access_denied'', ''unauthorized'']"
definition not_found_status_codes :: "string list" where
  "not_found_status_codes = [''404_cfdi'', ''not_found'', ''no_available'', ''no_disponible'']"
definition retryable_status_codes :: "string list" where
  "retryable_status_codes =
     [''404'', ''408'', ''429'', ''500'', ''502'', ''503'', ''504'', ''rate_limited'', ''retryable'',
      ''temporary_unavailable'', ''timeout'']"
definition permanent_status_codes :: "string list" where
  "permanent_status_codes =
     [''301'', ''302'', ''5003'', ''5004'', ''invalid_request'', ''permanent'', ''rejected'']"

lemmas status_tables =
  active_status_values_def cancelled_status_values_def not_found_status_values_def
  unauthorized_status_codes_def not_found_status_codes_def retryable_status_codes_def
  permanent_status_codes_def

definition cls_status :: "CfdiStatusOutcome \<Rightarrow> string \<Rightarrow> bool \<Rightarrow> CfdiStatusClassification" where
  "cls_status c m r = \<lparr>cc_outcome = c, cc_reason = m, cc_retryable = r\<rparr>"

definition classify_cfdi_status_outcome ::
  "string option \<Rightarrow> sat_code option \<Rightarrow> CfdiStatusClassification" where
  "classify_cfdi_status_outcome status code =
     (let s = normalize_status_text status; c = py_lower (normalize_code code) in
      if s \<in> set active_status_values then cls_status CS_ACTIVE ''CFDI is active'' False
      else if s \<in> set cancelled_status_values then cls_status CS_CANCELLED ''CFDI is cancelled'' False
      else if s \<in> set not_found_status_values \<or> c \<in> set not_found_status_codes
        then cls_status CS_NOT_FOUND ''CFDI is not available in SAT consultation'' False
      else if c \<in> set unauthorized_status_codes
        then cls_status CS_UNAUTHORIZED ''requester is not authorized to consult this CFDI'' False
      else if c \<in> set retryable_status_codes
        then cls_status CS_RETRYABLE ''SAT status consultation returned a transient outcome'' True
      else if c \<in> set permanent_status_codes
        then cls_status CS_PERMANENT ''SAT status consultation returned a permanent failure'' False
      else cls_status CS_UNKNOWN ''unknown CFDI status consultation outcome'' False)"

subsection \<open>Mass-download outcomes\<close>

definition cls :: "SatOutcomeAction \<Rightarrow> string \<Rightarrow> bool \<Rightarrow> SatOutcomeClassification" where
  "cls a m r = \<lparr>oc_action = a, oc_reason = m, oc_retryable = r\<rparr>"

fun classify_state :: "SatRequestState \<Rightarrow> SatOutcomeClassification option" where
  "classify_state RS_ACCEPTED = Some (cls ACT_ACCEPTED ''SAT request is accepted'' False)"
| "classify_state RS_IN_PROCESS = Some (cls ACT_IN_PROGRESS ''SAT request is still being processed'' True)"
| "classify_state RS_FINISHED =
     Some (cls ACT_FINISHED ''SAT request finished and package ids can be downloaded'' False)"
| "classify_state RS_EXPIRED = Some (cls ACT_EXPIRED ''SAT request expired'' False)"
| "classify_state RS_ERROR = Some (cls ACT_PERMANENT_FAILURE ''SAT request ended in a terminal state'' False)"
| "classify_state RS_REJECTED = Some (cls ACT_PERMANENT_FAILURE ''SAT request ended in a terminal state'' False)"

definition classify_code :: "SatOperation \<Rightarrow> string \<Rightarrow> SatOutcomeClassification" where
  "classify_code op c =
     (if c \<in> {''300'', ''303'', ''304'', ''305'', ''5001''}
        then cls ACT_UNAUTHORIZED ''requester is not authorized for this SAT operation'' False
      else if c \<in> {''301'', ''302'', ''5003'', ''5004''}
        then cls ACT_PERMANENT_FAILURE ''SAT returned a terminal validation or empty-result condition'' False
      else if c \<in> {''5002'', ''5005''}
        then cls ACT_DUPLICATE ''SAT reports a duplicate or still-active equivalent request'' False
      else if c = ''5007'' then cls ACT_EXPIRED ''SAT package or request window is expired'' False
      else if c \<in> {''5008'', ''5011''}
        then cls ACT_DOWNLOADS_EXHAUSTED ''SAT download or daily limit is exhausted'' False
      else if c = ''404'' then cls ACT_RETRY ''SAT returned a transient or uncontrolled error'' True
      else if c = ''5000''
        then (if op = OP_DOWNLOAD then cls ACT_FINISHED ''SAT package download succeeded'' False
              else cls ACT_ACCEPTED ''SAT accepted the operation'' False)
      else cls ACT_RETRY ''unknown SAT code; retry once before escalation'' True)"

definition classify_sat_outcome ::
  "SatOperation \<Rightarrow> sat_code option \<Rightarrow> state_arg option \<Rightarrow> SatOutcomeClassification" where
  "classify_sat_outcome op code st =
     (let c = normalize_code code in
      case normalize_state st of
        Some s \<Rightarrow> (case classify_state s of Some r \<Rightarrow> r | None \<Rightarrow> classify_code op c)
      | None \<Rightarrow> classify_code op c)"

lemma classify_state_Some [simp]: "\<exists>r. classify_state s = Some r"
  by (cases s) auto

lemma oc_cls [simp]: "oc_action (cls a m r) = a" "oc_retryable (cls a m r) = r" "oc_reason (cls a m r) = m"
  by (simp_all add: cls_def)

text \<open>A recognised state alone decides the action; the code decides only without one.\<close>

lemma classify_sat_outcome_state [simp]:
  "normalize_state st = Some s \<Longrightarrow> classify_sat_outcome op code st = the (classify_state s)"
  by (cases s) (simp_all add: classify_sat_outcome_def)

lemma classify_sat_outcome_code [simp]:
  "normalize_state st = None \<Longrightarrow> classify_sat_outcome op code st = classify_code op (normalize_code code)"
  by (simp add: classify_sat_outcome_def)

lemma classify_code_retryable:
  "oc_retryable (classify_code op c) \<longleftrightarrow> oc_action (classify_code op c) = ACT_RETRY"
  unfolding classify_code_def by (simp split: if_split)

lemma classify_code_finished:
  "oc_action (classify_code op c) = ACT_FINISHED \<longleftrightarrow> op = OP_DOWNLOAD \<and> c = ''5000''"
  unfolding classify_code_def by (simp split: if_split)

lemma classify_code_accepted:
  "oc_action (classify_code op c) = ACT_ACCEPTED \<longleftrightarrow> op \<noteq> OP_DOWNLOAD \<and> c = ''5000''"
  unfolding classify_code_def by (simp split: if_split)

lemma classify_state_retryable:
  "oc_retryable (the (classify_state s)) \<longleftrightarrow> oc_action (the (classify_state s)) = ACT_IN_PROGRESS"
  by (cases s) simp_all

lemma classify_state_finished: "oc_action (the (classify_state s)) = ACT_FINISHED \<longleftrightarrow> s = RS_FINISHED"
  by (cases s) simp_all

lemma classify_state_not_retry: "oc_action (the (classify_state s)) \<noteq> ACT_RETRY"
  by (cases s) simp_all

lemma classify_code_not_in_progress: "oc_action (classify_code op c) \<noteq> ACT_IN_PROGRESS"
  unfolding classify_code_def by (simp split: if_split)

end
