(* ===== verification/LiveRequestState.thy ===== *)
theory LiveRequestState
  imports SatContract
begin

text \<open>
  \<open>src/cfdi_vault/sat_live_request_state.py\<close>: the local JSON file of live metadata requests. A
  record is one accepted request and its verification progress; the file is read in full and
  rewritten in full by every update.

  The file is \<open>state_file\<close>: absent, unreadable (OSError), not JSON, or the document it parses to. A
  \<open>store\<close> is the file and the outcomes of the coming writes (\<open>st_faults\<close>, True for an OSError; no
  more faults once the list is used up). The write goes to a temporary file that replaces the old one
  (\<open>os.replace\<close>), so a failed write leaves the file as it was. An operation that writes returns its
  result and the new store.
\<close>

subsection \<open>Statuses\<close>

definition REQUEST_ACCEPTED :: string where "REQUEST_ACCEPTED = ''REQUEST_ACCEPTED''"
definition VERIFY_SCHEDULED :: string where "VERIFY_SCHEDULED = ''VERIFY_SCHEDULED''"
definition VERIFY_IN_PROGRESS :: string where "VERIFY_IN_PROGRESS = ''VERIFY_IN_PROGRESS''"
definition VERIFY_IN_PROGRESS_SAT :: string where "VERIFY_IN_PROGRESS_SAT = ''VERIFY_IN_PROGRESS_SAT''"
definition VERIFY_FINISHED :: string where "VERIFY_FINISHED = ''VERIFY_FINISHED''"
definition VERIFY_NO_DATA :: string where "VERIFY_NO_DATA = ''VERIFY_NO_DATA''"
definition VERIFY_REJECTED :: string where "VERIFY_REJECTED = ''VERIFY_REJECTED''"
definition VERIFY_EXPIRED :: string where "VERIFY_EXPIRED = ''VERIFY_EXPIRED''"
definition VERIFY_FAILED_RETRYABLE :: string where "VERIFY_FAILED_RETRYABLE = ''VERIFY_FAILED_RETRYABLE''"
definition VERIFY_FAILED_PERMANENT :: string where "VERIFY_FAILED_PERMANENT = ''VERIFY_FAILED_PERMANENT''"
definition PACKAGE_READY :: string where "PACKAGE_READY = ''PACKAGE_READY''"
definition PACKAGE_DOWNLOAD_SCHEDULED :: string where
  "PACKAGE_DOWNLOAD_SCHEDULED = ''PACKAGE_DOWNLOAD_SCHEDULED''"
definition PACKAGE_DOWNLOADED :: string where "PACKAGE_DOWNLOADED = ''PACKAGE_DOWNLOADED''"

definition LEGACY_PENDING_VERIFY_STATUSES :: "string list" where
  "LEGACY_PENDING_VERIFY_STATUSES = [''accepted'', ''submitted'']"

definition PENDING_VERIFY_STATUSES :: "string list" where
  "PENDING_VERIFY_STATUSES =
     [REQUEST_ACCEPTED, VERIFY_SCHEDULED, VERIFY_IN_PROGRESS_SAT, VERIFY_FAILED_RETRYABLE]
     @ LEGACY_PENDING_VERIFY_STATUSES"

definition TERMINAL_VERIFY_STATUSES :: "string list" where
  "TERMINAL_VERIFY_STATUSES =
     [VERIFY_FINISHED, VERIFY_NO_DATA, VERIFY_REJECTED, VERIFY_EXPIRED, VERIFY_FAILED_PERMANENT,
      PACKAGE_READY, PACKAGE_DOWNLOAD_SCHEDULED, PACKAGE_DOWNLOADED]"

lemmas status_names [py_eval] =
  REQUEST_ACCEPTED_def VERIFY_SCHEDULED_def VERIFY_IN_PROGRESS_def VERIFY_IN_PROGRESS_SAT_def
  VERIFY_FINISHED_def VERIFY_NO_DATA_def VERIFY_REJECTED_def VERIFY_EXPIRED_def
  VERIFY_FAILED_RETRYABLE_def VERIFY_FAILED_PERMANENT_def PACKAGE_READY_def
  PACKAGE_DOWNLOAD_SCHEDULED_def PACKAGE_DOWNLOADED_def

lemmas status_tables_live [py_eval] =
  LEGACY_PENDING_VERIFY_STATUSES_def PENDING_VERIFY_STATUSES_def TERMINAL_VERIFY_STATUSES_def

definition is_pending :: "string \<Rightarrow> bool" where
  "is_pending s \<longleftrightarrow> s \<in> set PENDING_VERIFY_STATUSES"

definition is_terminal :: "string \<Rightarrow> bool" where
  "is_terminal s \<longleftrightarrow> s \<in> set TERMINAL_VERIFY_STATUSES"

lemma pending_members [simp]:
  "is_pending VERIFY_SCHEDULED" "is_pending VERIFY_IN_PROGRESS_SAT"
  "is_pending VERIFY_FAILED_RETRYABLE" "\<not> is_pending VERIFY_IN_PROGRESS"
  "\<not> is_pending VERIFY_NO_DATA" "\<not> is_pending VERIFY_REJECTED" "\<not> is_pending VERIFY_EXPIRED"
  "\<not> is_pending VERIFY_FAILED_PERMANENT" "\<not> is_pending PACKAGE_READY"
  by (simp_all add: is_pending_def status_tables_live status_names)

lemma terminal_members [simp]:
  "is_terminal VERIFY_NO_DATA" "is_terminal VERIFY_REJECTED" "is_terminal VERIFY_EXPIRED"
  "is_terminal VERIFY_FAILED_PERMANENT" "is_terminal PACKAGE_READY"
  "\<not> is_terminal VERIFY_SCHEDULED" "\<not> is_terminal VERIFY_IN_PROGRESS"
  "\<not> is_terminal VERIFY_IN_PROGRESS_SAT" "\<not> is_terminal VERIFY_FAILED_RETRYABLE"
  by (simp_all add: is_terminal_def status_tables_live status_names)

lemma terminal_not_pending: "is_terminal s \<Longrightarrow> \<not> is_pending s"
  by (auto simp: is_terminal_def is_pending_def status_tables_live status_names)

definition DEFAULT_VERIFY_INITIAL_DELAY :: int where
  "DEFAULT_VERIFY_INITIAL_DELAY = 5 * us_minute"
definition DEFAULT_VERIFY_MAX_AGE :: int where
  "DEFAULT_VERIFY_MAX_AGE = 72 * us_hour"

subsection \<open>Records\<close>

record LiveRecord =
  lr_request_ref :: string
  lr_profile_id :: string
  lr_direction :: string
  lr_kind :: string
  lr_operation :: string
  lr_fecha_inicial :: string
  lr_fecha_final :: string
  lr_criteria_hash :: string
  lr_id_solicitud :: string
  lr_id_solicitud_redacted :: string
  lr_sat_code :: string
  lr_sat_message :: string
  lr_created_at :: string
  lr_live :: bool
  lr_source_command :: string
  lr_permit_id_hash :: string
  lr_status :: string
  lr_attempt_count :: int
  lr_next_check_at :: string
  lr_last_checked_at :: string
  lr_last_error_kind :: string
  lr_last_http_status :: "int option"
  lr_sat_estado_solicitud :: string
  lr_sat_codigo_estado :: string
  lr_numero_cfdis :: int
  lr_package_ids :: "string list"
  lr_package_refs_redacted :: "string list"
  lr_updated_at :: string
  lr_expires_at :: string

definition terminal_state :: "LiveRecord \<Rightarrow> bool" where
  "terminal_state r = is_terminal (lr_status r)"

definition to_document :: "LiveRecord \<Rightarrow> jobj" where
  "to_document r =
     [(''requestRef'', JStr (lr_request_ref r)), (''profileId'', JStr (lr_profile_id r)),
      (''direction'', JStr (lr_direction r)), (''kind'', JStr (lr_kind r)),
      (''operation'', JStr (lr_operation r)), (''fechaInicial'', JStr (lr_fecha_inicial r)),
      (''fechaFinal'', JStr (lr_fecha_final r)), (''criteriaHash'', JStr (lr_criteria_hash r)),
      (''idSolicitud'', JStr (lr_id_solicitud r)),
      (''idSolicitudRedacted'', JStr (lr_id_solicitud_redacted r)),
      (''satCode'', JStr (lr_sat_code r)), (''satMessage'', JStr (lr_sat_message r)),
      (''createdAt'', JStr (lr_created_at r)), (''live'', JBool (lr_live r)),
      (''sourceCommand'', JStr (lr_source_command r)),
      (''permitIdHash'', JStr (lr_permit_id_hash r)), (''status'', JStr (lr_status r)),
      (''attemptCount'', JInt (lr_attempt_count r)), (''nextCheckAt'', JStr (lr_next_check_at r)),
      (''lastCheckedAt'', JStr (lr_last_checked_at r)),
      (''lastErrorKind'', JStr (lr_last_error_kind r)),
      (''lastHttpStatus'', (case lr_last_http_status r of None \<Rightarrow> JNull | Some i \<Rightarrow> JInt i)),
      (''satEstadoSolicitud'', JStr (lr_sat_estado_solicitud r)),
      (''satCodigoEstado'', JStr (lr_sat_codigo_estado r)),
      (''numeroCfdis'', JInt (lr_numero_cfdis r)),
      (''packageIds'', JArr (map JStr (lr_package_ids r))),
      (''packageRefsRedacted'', JArr (map JStr (lr_package_refs_redacted r))),
      (''updatedAt'', JStr (lr_updated_at r)), (''expiresAt'', JStr (lr_expires_at r))]"

abbreviation state_invalid :: exc where
  "state_invalid \<equiv> LiveRequestStateError ''request-state-invalid''"

definition required_str :: "jobj \<Rightarrow> string \<Rightarrow> string result" where
  "required_str d k = (case jget d k of JStr s \<Rightarrow> Inr s | _ \<Rightarrow> Inl state_invalid)"

definition required_bool :: "jobj \<Rightarrow> string \<Rightarrow> bool result" where
  "required_bool d k = (case jget d k of JBool b \<Rightarrow> Inr b | _ \<Rightarrow> Inl state_invalid)"

definition optional_str :: "jobj \<Rightarrow> string \<Rightarrow> string result" where
  "optional_str d k = (case jget d k of JNull \<Rightarrow> Inr [] | JStr s \<Rightarrow> Inr s | _ \<Rightarrow> Inl state_invalid)"

text \<open>\<open>isinstance(True, int)\<close> holds, so a boolean passes for an integer.\<close>

definition optional_int_or_none :: "jobj \<Rightarrow> string \<Rightarrow> int option result" where
  "optional_int_or_none d k =
     (case jget d k of JNull \<Rightarrow> Inr None | JInt i \<Rightarrow> Inr (Some i)
      | JBool b \<Rightarrow> Inr (Some (if b then 1 else 0)) | _ \<Rightarrow> Inl state_invalid)"

definition optional_int :: "jobj \<Rightarrow> string \<Rightarrow> int \<Rightarrow> int result" where
  "optional_int d k dflt =
     bindR (optional_int_or_none d k) (\<lambda>v. Inr (case v of None \<Rightarrow> dflt | Some i \<Rightarrow> i))"

definition optional_str_tuple :: "jobj \<Rightarrow> string \<Rightarrow> string list result" where
  "optional_str_tuple d k =
     (case jget d k of JNull \<Rightarrow> Inr []
      | JArr xs \<Rightarrow> (if list_all is_jstr xs then Inr (map jstr_val xs) else Inl state_invalid)
      | _ \<Rightarrow> Inl state_invalid)"

lemmas document_readers =
  required_str_def required_bool_def optional_str_def optional_int_or_none_def optional_int_def
  optional_str_tuple_def

subsection \<open>Timestamps and statuses as text\<close>

definition format_state_datetime :: "instant \<Rightarrow> string" where
  "format_state_datetime t = replace_sub ''+00:00'' ''Z'' (isoformat_utc t)"

definition parse_state_datetime :: "string \<Rightarrow> instant result" where
  "parse_state_datetime s =
     (if s = [] then Inl state_invalid
      else case fromisoformat (replace_char (CHR ''Z'') ''+00:00'' s) of
             None \<Rightarrow> Inl state_invalid | Some v \<Rightarrow> to_utc v)"

lemma format_state_datetime_eq: "format_state_datetime t = iso_wall t @ ''Z''"
  by (simp add: format_state_datetime_def isoformat_utc_z)

lemma format_nonempty [simp]: "format_state_datetime t \<noteq> []"
  by (simp add: format_state_datetime_eq)

lemma parse_format [simp]: "dt_ok t \<Longrightarrow> parse_state_datetime (format_state_datetime t) = Inr t"
proof -
  have "replace_char (CHR ''Z'') ''+00:00'' (iso_wall t @ ''Z'') = iso_wall t @ ''+00:00''"
    using iso_wall_not_in(1) by (simp add: replace_char_append replace_char_absent)
       (simp add: replace_char_def)
  then show "dt_ok t \<Longrightarrow> ?thesis"
    by (simp add: parse_state_datetime_def format_state_datetime_eq fromisoformat_iso_wall to_utc_def)
qed

lemma parse_state_ok: "parse_state_datetime s = Inr t \<Longrightarrow> dt_ok t"
  by (auto simp: parse_state_datetime_def to_utc_def result_simps split: if_splits option.splits pydt.splits)

definition normalize_status :: "string \<Rightarrow> string" where
  "normalize_status v =
     (let s = py_strip v in
      if py_lower s \<in> set LEGACY_PENDING_VERIFY_STATUSES \<or> s = REQUEST_ACCEPTED then VERIFY_SCHEDULED
      else str_or s VERIFY_SCHEDULED)"

lemma normalize_status_fixed:
  assumes "s \<noteq> []" and "hd s \<in> {CHR ''V'', CHR ''P''}" and "\<not> char_is_space (last s)"
  shows "normalize_status s = s"
proof -
  have chars: "char_lower (CHR ''V'') = CHR ''v''" "char_lower (CHR ''P'') = CHR ''p''"
    "\<not> char_is_space (CHR ''V'')" "\<not> char_is_space (CHR ''P'')"
    by code_simp+
  have "char_lower (hd s) \<in> {CHR ''v'', CHR ''p''}" "\<not> char_is_space (hd s)"
    using assms(2) chars by auto
  moreover from this have "hd (py_lower s) \<in> {CHR ''v'', CHR ''p''}"
    using assms(1) by (simp add: py_lower_def hd_map)
  ultimately show ?thesis
    using assms py_strip_fixed [of s]
    by (auto simp: normalize_status_def Let_def str_or_def status_tables_live REQUEST_ACCEPTED_def)
qed

lemma normalize_status_known [simp]:
  "normalize_status VERIFY_SCHEDULED = VERIFY_SCHEDULED"
  "normalize_status VERIFY_IN_PROGRESS = VERIFY_IN_PROGRESS"
  "normalize_status VERIFY_IN_PROGRESS_SAT = VERIFY_IN_PROGRESS_SAT"
  "normalize_status VERIFY_NO_DATA = VERIFY_NO_DATA"
  "normalize_status VERIFY_REJECTED = VERIFY_REJECTED"
  "normalize_status VERIFY_EXPIRED = VERIFY_EXPIRED"
  "normalize_status VERIFY_FAILED_RETRYABLE = VERIFY_FAILED_RETRYABLE"
  "normalize_status VERIFY_FAILED_PERMANENT = VERIFY_FAILED_PERMANENT"
  "normalize_status PACKAGE_READY = PACKAGE_READY"
  by (rule normalize_status_fixed; simp add: status_names char_is_space_def char_code_def)+

lemma normalize_status_idem [simp]: "normalize_status (normalize_status v) = normalize_status v"
  by (auto simp: normalize_status_def [of v] Let_def str_or_def)
     (simp add: normalize_status_def str_or_def)

text \<open>The computed fields of \<open>from_document\<close>: creation time, status, update time, expiry, next check.\<close>

definition document_expires :: "jobj \<Rightarrow> string \<Rightarrow> string result" where
  "document_expires d created_at =
     bindR (optional_str d ''expiresAt'') (\<lambda>e.
       if e \<noteq> [] then Inr e
       else bindR (parse_state_datetime created_at) (\<lambda>t.
            bindR (dt_add t DEFAULT_VERIFY_MAX_AGE) (\<lambda>u. Inr (format_state_datetime u))))"

definition document_next_check :: "jobj \<Rightarrow> string \<Rightarrow> string \<Rightarrow> string result" where
  "document_next_check d created_at status =
     bindR (optional_str d ''nextCheckAt'') (\<lambda>n.
       if n = [] \<and> is_pending status
       then bindR (parse_state_datetime created_at) (\<lambda>t.
            bindR (dt_add t DEFAULT_VERIFY_INITIAL_DELAY) (\<lambda>u. Inr (format_state_datetime u)))
       else Inr n)"

definition document_times :: "jobj \<Rightarrow> (string \<times> string \<times> string \<times> string \<times> string) result" where
  "document_times d =
     bindR (required_str d ''createdAt'') (\<lambda>created_at.
     bindR (required_str d ''status'') (\<lambda>raw_status.
     bindR (optional_str d ''updatedAt'') (\<lambda>updated_at.
     bindR (document_expires d created_at) (\<lambda>expires_at.
     bindR (document_next_check d created_at (normalize_status raw_status)) (\<lambda>next_check_at.
       Inr (created_at, normalize_status raw_status, str_or updated_at created_at, expires_at,
            next_check_at))))))"

definition document_record ::
  "jobj \<Rightarrow> string \<times> string \<times> string \<times> string \<times> string \<Rightarrow> LiveRecord result" where
  "document_record d = (\<lambda>(created_at, status, updated_at, expires_at, next_check_at).
     bindR (required_str d ''requestRef'') (\<lambda>request_ref.
     bindR (required_str d ''profileId'') (\<lambda>profile_id.
     bindR (required_str d ''direction'') (\<lambda>direction.
     bindR (required_str d ''kind'') (\<lambda>kind.
     bindR (required_str d ''operation'') (\<lambda>operation.
     bindR (required_str d ''fechaInicial'') (\<lambda>fecha_inicial.
     bindR (required_str d ''fechaFinal'') (\<lambda>fecha_final.
     bindR (required_str d ''criteriaHash'') (\<lambda>crit.
     bindR (required_str d ''idSolicitud'') (\<lambda>id_solicitud.
     bindR (required_str d ''idSolicitudRedacted'') (\<lambda>id_red.
     bindR (required_str d ''satCode'') (\<lambda>sat_code.
     bindR (required_str d ''satMessage'') (\<lambda>sat_message.
     bindR (required_bool d ''live'') (\<lambda>live.
     bindR (required_str d ''sourceCommand'') (\<lambda>source_command.
     bindR (required_str d ''permitIdHash'') (\<lambda>permit_id_hash.
     bindR (optional_int d ''attemptCount'' 0) (\<lambda>attempt_count.
     bindR (optional_str d ''lastCheckedAt'') (\<lambda>last_checked_at.
     bindR (optional_str d ''lastErrorKind'') (\<lambda>last_error_kind.
     bindR (optional_int_or_none d ''lastHttpStatus'') (\<lambda>last_http_status.
     bindR (optional_str d ''satEstadoSolicitud'') (\<lambda>sat_estado.
     bindR (optional_str d ''satCodigoEstado'') (\<lambda>sat_codigo.
     bindR (optional_int d ''numeroCfdis'' 0) (\<lambda>numero_cfdis.
     bindR (optional_str_tuple d ''packageIds'') (\<lambda>package_ids.
     bindR (optional_str_tuple d ''packageRefsRedacted'') (\<lambda>package_refs.
       Inr \<lparr>lr_request_ref = request_ref, lr_profile_id = profile_id, lr_direction = direction,
         lr_kind = kind, lr_operation = operation, lr_fecha_inicial = fecha_inicial,
         lr_fecha_final = fecha_final, lr_criteria_hash = crit, lr_id_solicitud = id_solicitud,
         lr_id_solicitud_redacted = id_red, lr_sat_code = sat_code, lr_sat_message = sat_message,
         lr_created_at = created_at, lr_live = live, lr_source_command = source_command,
         lr_permit_id_hash = permit_id_hash, lr_status = status, lr_attempt_count = attempt_count,
         lr_next_check_at = next_check_at, lr_last_checked_at = last_checked_at,
         lr_last_error_kind = last_error_kind, lr_last_http_status = last_http_status,
         lr_sat_estado_solicitud = sat_estado, lr_sat_codigo_estado = sat_codigo,
         lr_numero_cfdis = numero_cfdis, lr_package_ids = package_ids,
         lr_package_refs_redacted = package_refs, lr_updated_at = updated_at,
         lr_expires_at = expires_at\<rparr>)))))))))))))))))))))))))"

definition from_document :: "jobj \<Rightarrow> LiveRecord result" where
  "from_document d = bindR (document_times d) (document_record d)"

text \<open>The records that reading a document can give, and that reading back leaves unchanged.\<close>

definition record_stable :: "LiveRecord \<Rightarrow> bool" where
  "record_stable r \<longleftrightarrow>
     normalize_status (lr_status r) = lr_status r
     \<and> (lr_updated_at r = [] \<longrightarrow> lr_created_at r = [])
     \<and> lr_expires_at r \<noteq> []
     \<and> (is_pending (lr_status r) \<longrightarrow> lr_next_check_at r \<noteq> [])"

lemma is_jstr_map [simp]: "list_all is_jstr (map JStr xs)" "map jstr_val (map JStr xs) = xs"
  by (induction xs) auto

lemma map_jstr_val [simp]: "map (jstr_val \<circ> JStr) xs = xs"
  by (induction xs) auto

lemma document_times_to_document:
  assumes "record_stable r"
  shows "document_times (to_document r)
    = Inr (lr_created_at r, lr_status r, lr_updated_at r, lr_expires_at r, lr_next_check_at r)"
proof -
  have "str_or (lr_updated_at r) (lr_created_at r) = lr_updated_at r"
    and "\<not> (lr_next_check_at r = [] \<and> is_pending (lr_status r))"
    and "normalize_status (lr_status r) = lr_status r" and "lr_expires_at r \<noteq> []"
    using assms by (auto simp: record_stable_def str_or_def)
  then show ?thesis
    unfolding document_times_def document_expires_def document_next_check_def to_document_def
      document_readers
    by (simp add: Let_def del: de_Morgan_conj)
qed

lemma from_to_document:
  assumes "record_stable r"
  shows "from_document (to_document r) = Inr r"
  unfolding from_document_def document_times_to_document [OF assms]
  unfolding document_record_def to_document_def document_readers
  by (cases "lr_last_http_status r") simp_all

lemma document_record_fields:
  "document_record d (c, s, u, e, n) = Inr r \<Longrightarrow>
     lr_created_at r = c \<and> lr_status r = s \<and> lr_updated_at r = u \<and> lr_expires_at r = e
     \<and> lr_next_check_at r = n"
proof (erule postR_D [rotated])
  show "postR (\<lambda>r. lr_created_at r = c \<and> lr_status r = s \<and> lr_updated_at r = u \<and> lr_expires_at r = e
     \<and> lr_next_check_at r = n) (document_record d (c, s, u, e, n))"
    unfolding document_record_def prod.case
    apply (rule postR_bind)+
    apply (simp only: postR_simps LiveRecord.select_convs simp_thms)
    done
qed

lemma document_expires_nonempty: "document_expires d c = Inr e \<Longrightarrow> e \<noteq> []"
  unfolding document_expires_def by (auto elim!: bindR_InrE split: if_splits)

lemma document_next_check_nonempty:
  "document_next_check d c s = Inr n \<Longrightarrow> is_pending s \<Longrightarrow> n \<noteq> []"
  unfolding document_next_check_def by (auto elim!: bindR_InrE split: if_splits)

lemma document_times_stable:
  "document_times d = Inr (c, s, u, e, n) \<Longrightarrow>
     normalize_status s = s \<and> (u = [] \<longrightarrow> c = []) \<and> e \<noteq> [] \<and> (is_pending s \<longrightarrow> n \<noteq> [])"
  unfolding document_times_def
  by (elim bindR_InrE)
     (auto simp: str_or_def dest: document_expires_nonempty document_next_check_nonempty split: if_splits)

lemma from_document_stable:
  assumes "from_document d = Inr r"
  shows "record_stable r"
proof -
  obtain t where t: "document_times d = Inr t" "document_record d t = Inr r"
    using assms unfolding from_document_def by (elim bindR_InrE)
  obtain c s u e n where split: "t = (c, s, u, e, n)" by (cases t) auto
  show ?thesis
    using document_times_stable [OF t(1) [unfolded split]]
      document_record_fields [OF t(2) [unfolded split]]
    by (simp add: record_stable_def)
qed


subsection \<open>The state file\<close>

datatype state_file = FMissing | FIoError | FInvalidJson | FDoc json

record store =
  st_file :: state_file
  st_faults :: "bool list"

definition empty_store :: store where
  "empty_store = \<lparr>st_file = FMissing, st_faults = []\<rparr>"

definition read_state :: "state_file \<Rightarrow> json list result" where
  "read_state f =
     (case f of
        FMissing \<Rightarrow> Inr []
      | FIoError \<Rightarrow> Inl (LiveRequestStateError ''request-state-io-error'')
      | FInvalidJson \<Rightarrow> Inl (LiveRequestStateError ''request-state-invalid-json'')
      | FDoc (JObj d) \<Rightarrow>
          (if \<not> json_is_one (jget d ''schemaVersion'')
           then Inl (LiveRequestStateError ''request-state-unsupported-version'')
           else case jget d ''requests'' of JArr xs \<Rightarrow> Inr xs | _ \<Rightarrow> Inl state_invalid)
      | FDoc _ \<Rightarrow> Inl state_invalid)"

definition state_document :: "LiveRecord list \<Rightarrow> json" where
  "state_document rs =
     JObj [(''schemaVersion'', JInt 1), (''requests'', JArr (map (JObj \<circ> to_document) rs))]"

definition next_fault :: "store \<Rightarrow> bool" where
  "next_fault st \<longleftrightarrow> st_faults st \<noteq> [] \<and> hd (st_faults st)"

definition write_state :: "store \<Rightarrow> LiveRecord list \<Rightarrow> unit result \<times> store" where
  "write_state st rs =
     (if next_fault st
      then (Inl (LiveRequestStateError ''request-state-io-error''), st\<lparr>st_faults := tl (st_faults st)\<rparr>)
      else (Inr (), \<lparr>st_file = FDoc (state_document rs), st_faults = tl (st_faults st)\<rparr>))"

text \<open>\<open>list_live_metadata_requests\<close>: items that are not objects are skipped.\<close>

definition load_records :: "store \<Rightarrow> LiveRecord list result" where
  "load_records st =
     bindR (read_state (st_file st)) (\<lambda>items. traverse from_document (map jobj_items (filter is_jobj items)))"

definition list_requests :: "store \<Rightarrow> bool \<Rightarrow> LiveRecord list result" where
  "list_requests st pending_only =
     bindR (load_records st) (\<lambda>rs.
       Inr (if pending_only then filter (\<lambda>r. is_pending (lr_status r)) rs else rs))"

definition upsert_records :: "LiveRecord \<Rightarrow> LiveRecord list \<Rightarrow> LiveRecord list" where
  "upsert_records r rs =
     sort_desc lr_created_at (filter (\<lambda>x. lr_request_ref x \<noteq> lr_request_ref r) rs @ [r])"

definition upsert_request :: "LiveRecord \<Rightarrow> store \<Rightarrow> unit result \<times> store" where
  "upsert_request r st =
     (case load_records st of
        Inl e \<Rightarrow> (Inl e, st)
      | Inr rs \<Rightarrow> write_state st (upsert_records r rs))"

definition load_request :: "store \<Rightarrow> string \<Rightarrow> LiveRecord result" where
  "load_request st request_ref =
     (let requested = py_strip request_ref in
      if requested = [] then Inl (LiveRequestStateError ''request-ref-required'')
      else bindR (list_requests st False) (\<lambda>rs.
        case find (\<lambda>r. lr_request_ref r = requested) rs of
          Some r \<Rightarrow> Inr r
        | None \<Rightarrow> Inl (LiveRequestStateError ''request-state-not-found'')))"

lemma load_records_stable: "load_records st = Inr rs \<Longrightarrow> r \<in> set rs \<Longrightarrow> record_stable r"
  unfolding load_records_def by (elim bindR_InrE) (auto dest: traverse_Inr_set from_document_stable)

lemma load_state_document:
  assumes "\<And>r. r \<in> set rs \<Longrightarrow> record_stable r"
  shows "load_records \<lparr>st_file = FDoc (state_document rs), st_faults = fs\<rparr> = Inr rs"
proof -
  have "filter is_jobj (map (JObj \<circ> to_document) rs) = map (JObj \<circ> to_document) rs"
    by (induction rs) auto
  moreover have "map jobj_items (map (JObj \<circ> to_document) rs) = map to_document rs"
    by simp
  ultimately have "load_records \<lparr>st_file = FDoc (state_document rs), st_faults = fs\<rparr>
      = traverse (\<lambda>r. from_document (to_document r)) rs"
    by (simp add: load_records_def read_state_def state_document_def json_is_one_def traverse_map comp_def)
  also have "\<dots> = Inr (map id rs)"
    by (rule traverse_Inr) (simp add: from_to_document assms)
  finally show ?thesis by simp
qed

lemma set_upsert_records:
  "set (upsert_records r rs) = insert r {x \<in> set rs. lr_request_ref x \<noteq> lr_request_ref r}"
  by (auto simp: upsert_records_def)

lemma upsert_records_once:
  "filter (\<lambda>x. lr_request_ref x = lr_request_ref r) (upsert_records r rs) = [r]"
proof -
  have "filter (\<lambda>x. lr_request_ref x = lr_request_ref r)
      (filter (\<lambda>x. lr_request_ref x \<noteq> lr_request_ref r) rs @ [r]) = [r]"
    by (induction rs) auto
  then show ?thesis by (simp add: upsert_records_def filter_sort_desc) (simp add: sort_desc_def)
qed

lemma upsert_records_distinct:
  "distinct (map lr_request_ref rs) \<Longrightarrow> distinct (map lr_request_ref (upsert_records r rs))"
  by (auto simp: upsert_records_def distinct_map_filter)

lemma upsert_records_sorted:
  "sorted_wrt (\<lambda>a b. lr_created_at b \<le> lr_created_at a) (upsert_records r rs)"
  unfolding upsert_records_def by (rule sorted_sort_desc)


subsection \<open>A store of records by key\<close>

text \<open>
  What the scheduler relies on: a store whose records are found by a key, in which a successful save
  is the update of one key and a failed save changes nothing.
\<close>

locale keyed_store =
  fixes lookup :: "'s \<Rightarrow> 'k \<Rightarrow> 'r option"
    and save :: "'r \<Rightarrow> 's \<Rightarrow> unit result \<times> 's"
    and key :: "'r \<Rightarrow> 'k"
    and valid :: "'r \<Rightarrow> bool"
    and ok :: "'s \<Rightarrow> bool"
  assumes save_ok: "\<lbrakk>ok s; valid r; save r s = (Inr u, s')\<rbrakk>
      \<Longrightarrow> ok s' \<and> lookup s' = (lookup s)(key r \<mapsto> r)"
    and save_fail: "\<lbrakk>ok s; save r s = (Inl e, s')\<rbrakk> \<Longrightarrow> ok s' \<and> lookup s' = lookup s"
begin

lemma save_keeps_ok: "\<lbrakk>ok s; valid r; save r s = (x, s')\<rbrakk> \<Longrightarrow> ok s'"
  by (cases x) (auto dest: save_ok save_fail)

lemma save_frame:
  "\<lbrakk>ok s; valid r; save r s = (x, s'); k \<noteq> key r\<rbrakk> \<Longrightarrow> lookup s' k = lookup s k"
  by (cases x) (auto dest: save_ok save_fail)

lemma save_lookup:
  "\<lbrakk>ok s; valid r; save r s = (Inr u, s')\<rbrakk> \<Longrightarrow> lookup s' (key r) = Some r"
  by (auto dest: save_ok)

lemma save_preserves:
  assumes "ok s" "valid r" "save r s = (x, s')" and "\<And>k y. lookup s k = Some y \<Longrightarrow> P y" and "P r"
  shows "lookup s' k = Some y \<Longrightarrow> P y"
proof (cases x)
  case (Inl e)
  then have "lookup s' = lookup s" using assms(1,3) save_fail by blast
  then show "lookup s' k = Some y \<Longrightarrow> P y" using assms(4) by simp
next
  case (Inr u)
  then have "lookup s' = (lookup s)(key r \<mapsto> r)" using assms(1-3) save_ok by blast
  then show "lookup s' k = Some y \<Longrightarrow> P y" using assms(4,5) by (auto split: if_splits)
qed

end

definition store_ok :: "store \<Rightarrow> bool" where
  "store_ok st \<longleftrightarrow>
     (case load_records st of Inl e \<Rightarrow> False | Inr rs \<Rightarrow> distinct (map lr_request_ref rs))"

definition lookup_request :: "store \<Rightarrow> string \<Rightarrow> LiveRecord option" where
  "lookup_request st k =
     (case load_records st of Inl e \<Rightarrow> None | Inr rs \<Rightarrow> find (\<lambda>r. lr_request_ref r = k) rs)"

lemma find_filter_hd: "find P xs = (case filter P xs of [] \<Rightarrow> None | y # ys \<Rightarrow> Some y)"
  by (induction xs) auto

lemma filter_key_distinct:
  "distinct (map f xs) \<Longrightarrow> filter (\<lambda>x. f x = k) xs = (case find (\<lambda>x. f x = k) xs of None \<Rightarrow> [] | Some y \<Rightarrow> [y])"
proof (induction xs)
  case (Cons x xs)
  have "f x = k \<Longrightarrow> filter (\<lambda>y. f y = k) xs = []"
    using Cons.prems by (auto simp: filter_empty_conv image_iff)
  then show ?case using Cons by auto
qed simp

lemma find_upsert:
  assumes "distinct (map lr_request_ref rs)"
  shows "find (\<lambda>x. lr_request_ref x = k) (upsert_records r rs)
    = (if k = lr_request_ref r then Some r else find (\<lambda>x. lr_request_ref x = k) rs)"
proof (cases "k = lr_request_ref r")
  case True
  then show ?thesis using upsert_records_once [of r rs] by (simp add: find_filter_hd)
next
  case False
  have "filter (\<lambda>x. lr_request_ref x = k) (filter (\<lambda>x. lr_request_ref x \<noteq> lr_request_ref r) rs @ [r])
      = filter (\<lambda>x. lr_request_ref x = k) rs"
    using False by (auto intro: filter_cong)
  then have "filter (\<lambda>x. lr_request_ref x = k) (upsert_records r rs)
      = sort_desc lr_created_at (filter (\<lambda>x. lr_request_ref x = k) rs)"
    by (simp add: upsert_records_def filter_sort_desc)
  also have "\<dots> = filter (\<lambda>x. lr_request_ref x = k) rs"
    unfolding filter_key_distinct [OF assms, of k]
    by (simp add: sort_desc_def split: option.split)
  finally show ?thesis using False by (simp add: find_filter_hd)
qed

lemma upsert_request_cases:
  assumes "load_records st = Inr rs"
  obtains (fault) "upsert_request r st
      = (Inl (LiveRequestStateError ''request-state-io-error''), st\<lparr>st_faults := tl (st_faults st)\<rparr>)"
    and "next_fault st"
  | (written) "upsert_request r st
      = (Inr (), \<lparr>st_file = FDoc (state_document (upsert_records r rs)), st_faults = tl (st_faults st)\<rparr>)"
    and "\<not> next_fault st"
  using assms by (cases "next_fault st") (simp_all add: upsert_request_def write_state_def)

lemma load_upsert_records:
  assumes "load_records st = Inr rs" "record_stable r"
  shows "load_records \<lparr>st_file = FDoc (state_document (upsert_records r rs)), st_faults = fs\<rparr>
    = Inr (upsert_records r rs)"
  by (rule load_state_document) (use assms load_records_stable in \<open>auto simp: set_upsert_records\<close>)

interpretation live_store: keyed_store lookup_request upsert_request lr_request_ref record_stable store_ok
proof
  fix s r u s'
  assume a: "store_ok s" "record_stable r" "upsert_request r s = (Inr u, s')"
  then obtain rs where rs: "load_records s = Inr rs" "distinct (map lr_request_ref rs)"
    by (auto simp: store_ok_def split: sum.splits)
  have "load_records s' = Inr (upsert_records r rs)"
    using rs(1) a(3) by (cases rule: upsert_request_cases [where r = r])
      (auto simp: load_upsert_records [OF rs(1) a(2)])
  then show "store_ok s' \<and> lookup_request s' = (lookup_request s)(lr_request_ref r \<mapsto> r)"
    using rs by (auto simp: store_ok_def lookup_request_def upsert_records_distinct find_upsert)
next
  fix s r e s'
  assume a: "store_ok s" "upsert_request r s = (Inl e, s')"
  then obtain rs where rs: "load_records s = Inr rs" "distinct (map lr_request_ref rs)"
    by (auto simp: store_ok_def split: sum.splits)
  have "st_file s' = st_file s"
    using rs(1) a(2) by (cases rule: upsert_request_cases [where r = r]) auto
  then show "store_ok s' \<and> lookup_request s' = lookup_request s"
    using a(1) by (simp add: store_ok_def lookup_request_def load_records_def fun_eq_iff)
qed


text \<open>The store as a map: what a sequence of saves does, when a write fails for each fault that is due.\<close>

fun upserts :: "LiveRecord list \<Rightarrow> store \<Rightarrow> store" where
  "upserts [] st = st"
| "upserts (r # rs) st = upserts rs (snd (upsert_request r st))"

fun map_upserts :: "bool list \<Rightarrow> LiveRecord list \<Rightarrow> (string \<rightharpoonup> LiveRecord) \<Rightarrow> (string \<rightharpoonup> LiveRecord)" where
  "map_upserts fs [] m = m"
| "map_upserts fs (r # rs) m =
     map_upserts (tl fs) rs (if fs \<noteq> [] \<and> hd fs then m else m(lr_request_ref r \<mapsto> r))"

lemma upsert_request_map:
  assumes "store_ok st" "record_stable r"
  shows "store_ok (snd (upsert_request r st))
    \<and> lookup_request (snd (upsert_request r st))
        = (if next_fault st then lookup_request st else (lookup_request st)(lr_request_ref r \<mapsto> r))
    \<and> st_faults (snd (upsert_request r st)) = tl (st_faults st)"
proof -
  obtain rs where rs: "load_records st = Inr rs" using assms(1) by (auto simp: store_ok_def split: sum.splits)
  from rs show ?thesis
  proof (cases rule: upsert_request_cases [where r = r])
    case fault
    then show ?thesis using live_store.save_fail [OF assms(1) fault(1)] by simp
  next
    case written
    then show ?thesis using live_store.save_ok [OF assms written(1)] by simp
  qed
qed

lemma upserts_map:
  assumes "store_ok st" "list_all record_stable rs"
  shows "store_ok (upserts rs st) \<and> lookup_request (upserts rs st) = map_upserts (st_faults st) rs (lookup_request st)"
  using assms
proof (induction rs arbitrary: st)
  case (Cons r rs)
  then show ?case using upsert_request_map [of st r] by (auto simp: next_fault_def)
qed simp

lemma store_lists_its_map:
  assumes "store_ok st"
  shows "\<exists>xs. list_requests st False = Inr xs \<and> distinct (map lr_request_ref xs)
    \<and> (\<forall>x. x \<in> set xs \<longleftrightarrow> lookup_request st (lr_request_ref x) = Some x)
    \<and> list_requests st True = Inr (filter (\<lambda>x. is_pending (lr_status x)) xs)"
proof -
  obtain xs where xs: "load_records st = Inr xs" "distinct (map lr_request_ref xs)"
    using assms by (auto simp: store_ok_def split: sum.splits)
  have "x \<in> set xs \<longleftrightarrow> find (\<lambda>r. lr_request_ref r = lr_request_ref x) xs = Some x" for x
    using xs(2) by (induction xs) (auto simp: image_iff)
  then show ?thesis using xs by (auto simp: list_requests_def lookup_request_def)
qed

lemma load_request_map:
  assumes "store_ok st" "py_strip ref \<noteq> []"
  shows "load_request st ref = (case lookup_request st (py_strip ref) of
      Some r \<Rightarrow> Inr r | None \<Rightarrow> Inl (LiveRequestStateError ''request-state-not-found''))"
  using assms by (auto simp: load_request_def list_requests_def lookup_request_def store_ok_def Let_def split: sum.splits)

text \<open>C13: the state file is a map from references to records: after any saves of records that were made by
  the program, some of which fail, looking up a reference gives the record of its last save that
  succeeded, or what was there before; the list holds exactly the records of the map, one for each
  reference, and the pending list those of them whose status is pending.\<close>

theorem request_store_is_a_map:
  assumes "store_ok st" "list_all record_stable rs"
  shows "lookup_request (upserts rs st) = map_upserts (st_faults st) rs (lookup_request st)
    \<and> (\<forall>ref. py_strip ref \<noteq> [] \<longrightarrow> load_request (upserts rs st) ref =
          (case map_upserts (st_faults st) rs (lookup_request st) (py_strip ref) of
             Some r \<Rightarrow> Inr r | None \<Rightarrow> Inl (LiveRequestStateError ''request-state-not-found'')))
    \<and> (\<exists>xs. list_requests (upserts rs st) False = Inr xs \<and> distinct (map lr_request_ref xs)
         \<and> (\<forall>x. x \<in> set xs \<longleftrightarrow> map_upserts (st_faults st) rs (lookup_request st) (lr_request_ref x) = Some x)
         \<and> list_requests (upserts rs st) True = Inr (filter (\<lambda>x. is_pending (lr_status x)) xs))"
proof -
  have m: "store_ok (upserts rs st)" "lookup_request (upserts rs st) = map_upserts (st_faults st) rs (lookup_request st)"
    using upserts_map [OF assms] by simp_all
  show ?thesis using store_lists_its_map [OF m(1)] load_request_map [OF m(1)] unfolding m(2) by blast
qed

definition example_record :: LiveRecord where
  "example_record = \<lparr>lr_request_ref = ''req-1'', lr_profile_id = ''p'', lr_direction = ''received'',
     lr_kind = ''metadata'', lr_operation = ''SolicitaDescargaRecibidos'', lr_fecha_inicial = [],
     lr_fecha_final = [], lr_criteria_hash = ''h'', lr_id_solicitud = ''id-1'',
     lr_id_solicitud_redacted = ''<redacted>'', lr_sat_code = ''5000'', lr_sat_message = [],
     lr_created_at = ''2026-01-01T00:00:00Z'', lr_live = True, lr_source_command = [],
     lr_permit_id_hash = [], lr_status = VERIFY_SCHEDULED, lr_attempt_count = 0,
     lr_next_check_at = ''2026-01-01T00:05:00Z'', lr_last_checked_at = [], lr_last_error_kind = [],
     lr_last_http_status = None, lr_sat_estado_solicitud = [], lr_sat_codigo_estado = [],
     lr_numero_cfdis = 0, lr_package_ids = [], lr_package_refs_redacted = [],
     lr_updated_at = ''2026-01-01T00:00:00Z'', lr_expires_at = ''2026-01-04T00:00:00Z''\<rparr>"

lemma example_stable: "record_stable example_record"
  by (simp add: record_stable_def example_record_def)

lemma example_strip: "py_strip ''req-1'' = ''req-1''"
  by code_simp

theorem request_store_is_a_map_witness:
  "load_request (upserts [example_record, example_record\<lparr>lr_attempt_count := 7\<rparr>]
      \<lparr>st_file = FMissing, st_faults = [False, True]\<rparr>) ''req-1'' = Inr example_record"
proof -
  let ?st = "\<lparr>st_file = FMissing, st_faults = [False, True]\<rparr>"
  have stable: "list_all record_stable [example_record, example_record\<lparr>lr_attempt_count := 7\<rparr>]"
    using example_stable by (simp add: record_stable_def)
  have ok: "store_ok ?st" by (simp add: store_ok_def load_records_def read_state_def)
  show ?thesis
    using request_store_is_a_map [OF ok stable] by (simp add: example_strip example_record_def)
qed


subsection \<open>Redaction\<close>

definition redact_identifier :: "string \<Rightarrow> string" where
  "redact_identifier s =
     (if s = [] then [] else if length s \<le> 8 then ''<redacted>''
      else take 4 s @ ''...'' @ drop (length s - 4) s)"

definition redact_package_ref :: "string \<Rightarrow> string" where
  "redact_package_ref v =
     (let text = py_strip v in if text = [] then [] else ''pkg-'' @ take 12 (sha256_hex text))"

definition request_ref_of :: "string \<Rightarrow> string \<Rightarrow> string \<Rightarrow> string" where
  "request_ref_of profile_id chash id_solicitud =
     ''req-'' @ take 12 chash @ ''-''
     @ take 12 (sha256_hex (profile_id @ '':'' @ chash @ '':'' @ id_solicitud))"

definition hash_optional :: "string option \<Rightarrow> string" where
  "hash_optional v = (if opt_truthy v then take 16 (sha256_hex (opt_str v)) else [])"

text \<open>
  \<open>_IDENTIFIER_RE\<close>, \<open>(?i)\b[0-9a-f][0-9a-f-]{14,120}[0-9a-f]\b\<close>: the length of its match at the
  start of a text whose preceding character is no word character (the greedy repetition gives the
  longest one), and the substitution of every match from left to right.
\<close>

definition ident_match :: "string \<Rightarrow> nat option" where
  "ident_match s =
     (if s \<noteq> [] \<and> char_is_hex (hd s)
      then find (\<lambda>n. n \<le> length s
             \<and> list_all (\<lambda>c. char_is_hex c \<or> c = CHR ''-'') (take (n - 2) (tl s))
             \<and> char_is_hex (s ! (n - 1))
             \<and> (n = length s \<or> \<not> word_char (s ! n))) (rev [16..<123])
      else None)"

function ident_sub :: "bool \<Rightarrow> string \<Rightarrow> string" where
  "ident_sub after_word [] = []"
| "ident_sub after_word (c # cs) =
     (case (if after_word then None else ident_match (c # cs)) of
        Some n \<Rightarrow> redact_identifier (take n (c # cs)) @ ident_sub True (drop (n - 1) cs)
      | None \<Rightarrow> c # ident_sub (word_char c) cs)"
  by pat_completeness auto
termination by (relation "measure (\<lambda>(w, s). length s)") auto

definition safe_message :: "string \<Rightarrow> string" where
  "safe_message v =
     take 256 (ident_sub False (py_strip (replace_char (CHR 0x0A) '' '' (replace_char (CHR 0x0D) '' '' v))))"

lemma length_safe_message: "length (safe_message v) \<le> 256"
  by (simp add: safe_message_def)

text \<open>A redacted identifier shows at most eight of its characters.\<close>

lemma redact_identifier_length:
  "redact_identifier s = [] \<longleftrightarrow> s = []" "length (redact_identifier s) \<le> 11"
  by (auto simp: redact_identifier_def)

lemma redact_identifier_hides:
  assumes "9 \<le> length s" and "take 4 s = take 4 t" and "drop (length s - 4) s = drop (length t - 4) t"
    and "9 \<le> length t"
  shows "redact_identifier s = redact_identifier t"
  using assms by (auto simp: redact_identifier_def)

subsection \<open>Creating a record\<close>

definition persist_request ::
  "store \<Rightarrow> string \<Rightarrow> DownloadQuery \<Rightarrow> string \<Rightarrow> string \<Rightarrow> string \<Rightarrow> string \<Rightarrow> string
    \<Rightarrow> string option \<Rightarrow> string \<Rightarrow> instant \<Rightarrow> LiveRecord result \<times> store" where
  "persist_request st profile_id q operation id_solicitud sat_code sat_message source_command
     permit_ref status created =
    (let request_id = py_strip id_solicitud; chash = criteria_hash q in
     if request_id = [] then (Inl (LiveRequestStateError ''id-solicitud-required''), st)
     else case bindR (dt_add created DEFAULT_VERIFY_INITIAL_DELAY) (\<lambda>next_check.
               bindR (dt_add created DEFAULT_VERIFY_MAX_AGE) (\<lambda>expires.
               Inr \<lparr>lr_request_ref = request_ref_of profile_id chash request_id,
                 lr_profile_id = profile_id,
                 lr_direction = DownloadDirection_value (q_direction q),
                 lr_kind = RequestType_value (q_request_type q), lr_operation = operation,
                 lr_fecha_inicial = (case q_period q of None \<Rightarrow> [] | Some p \<Rightarrow> isoformat (p_start p)),
                 lr_fecha_final = (case q_period q of None \<Rightarrow> [] | Some p \<Rightarrow> isoformat (p_end p)),
                 lr_criteria_hash = chash, lr_id_solicitud = request_id,
                 lr_id_solicitud_redacted = redact_identifier request_id, lr_sat_code = sat_code,
                 lr_sat_message = safe_message sat_message,
                 lr_created_at = format_state_datetime created, lr_live = True,
                 lr_source_command = source_command, lr_permit_id_hash = hash_optional permit_ref,
                 lr_status = normalize_status status, lr_attempt_count = 0,
                 lr_next_check_at = format_state_datetime next_check, lr_last_checked_at = [],
                 lr_last_error_kind = [], lr_last_http_status = None, lr_sat_estado_solicitud = [],
                 lr_sat_codigo_estado = [], lr_numero_cfdis = 0, lr_package_ids = [],
                 lr_package_refs_redacted = [], lr_updated_at = format_state_datetime created,
                 lr_expires_at = format_state_datetime expires\<rparr>)) of
        Inl e \<Rightarrow> (Inl e, st)
      | Inr r \<Rightarrow> (case upsert_request r st of (Inl e, st') \<Rightarrow> (Inl e, st') | (Inr _, st') \<Rightarrow> (Inr r, st')))"

lemma persist_request_Inr:
  assumes "persist_request st profile_id q operation id_solicitud sat_code sat_message source_command
     permit_ref status created = (Inr r, st')"
  shows "record_stable r" and "upsert_request r st = (Inr (), st')"
    and "lr_request_ref r = request_ref_of profile_id (criteria_hash q) (py_strip id_solicitud)"
    and "lr_id_solicitud r = py_strip id_solicitud" and "py_strip id_solicitud \<noteq> []"
    and "lr_attempt_count r = 0"
    and "lr_next_check_at r = format_state_datetime (created + DEFAULT_VERIFY_INITIAL_DELAY)"
    and "lr_expires_at r = format_state_datetime (created + DEFAULT_VERIFY_MAX_AGE)"
  using assms unfolding persist_request_def Let_def
  by (auto simp: record_stable_def dt_add_Inr split: if_splits sum.splits prod.splits elim!: bindR_InrE)

subsection \<open>Summaries\<close>

record LiveSummary =
  sum_pending :: nat
  sum_due :: nat
  sum_next_due :: string
  sum_finished :: nat
  sum_failed :: nat
  sum_package_ready :: nat

definition is_due :: "LiveRecord \<Rightarrow> instant \<Rightarrow> bool result" where
  "is_due r now =
     (if lr_next_check_at r = [] then Inr False
      else bindR (parse_state_datetime (lr_next_check_at r)) (\<lambda>t. Inr (t \<le> now)))"

definition filterR :: "('a \<Rightarrow> bool result) \<Rightarrow> 'a list \<Rightarrow> 'a list result" where
  "filterR P xs = bindR (traverse P xs) (\<lambda>bs. Inr (map fst (filter snd (zip xs bs))))"

definition count_status :: "string list \<Rightarrow> LiveRecord list \<Rightarrow> nat" where
  "count_status ss rs = length (filter (\<lambda>r. lr_status r \<in> set ss) rs)"

definition summarize_requests :: "LiveRecord list \<Rightarrow> instant \<Rightarrow> LiveSummary result" where
  "summarize_requests rs now =
     (let pending = filter (\<lambda>r. is_pending (lr_status r)) rs;
          scheduled = sort (filter (\<lambda>s. s \<noteq> []) (map lr_next_check_at pending)) in
      bindR (filterR (\<lambda>r. is_due r now) pending) (\<lambda>due.
      Inr \<lparr>sum_pending = length pending, sum_due = length due,
           sum_next_due = (if scheduled = [] then [] else hd scheduled),
           sum_finished = count_status [VERIFY_FINISHED, PACKAGE_READY] rs,
           sum_failed = count_status [VERIFY_FAILED_PERMANENT, VERIFY_REJECTED, VERIFY_EXPIRED] rs,
           sum_package_ready = count_status [PACKAGE_READY] rs\<rparr>))"

lemma filterR_Inr: "(\<And>x. x \<in> set xs \<Longrightarrow> P x = Inr (Q x)) \<Longrightarrow> filterR P xs = Inr (filter Q xs)"
proof -
  assume "\<And>x. x \<in> set xs \<Longrightarrow> P x = Inr (Q x)"
  then have "traverse P xs = Inr (map Q xs)" by (rule traverse_Inr)
  moreover have "map fst (filter snd (zip xs (map Q xs))) = filter Q xs" by (induction xs) auto
  ultimately show ?thesis by (simp add: filterR_def)
qed

lemma filterR_InrD:
  assumes "filterR P xs = Inr ys"
  shows "x \<in> set ys \<Longrightarrow> x \<in> set xs \<and> P x = Inr True" and "length ys \<le> length xs"
proof -
  obtain bs where bs: "traverse P xs = Inr bs" and ys: "ys = map fst (filter snd (zip xs bs))"
    using assms by (auto simp: filterR_def elim!: bindR_InrE)
  have "(x, b) \<in> set (zip xs bs) \<Longrightarrow> P x = Inr b" for x b
    using bs by (induction xs arbitrary: bs) (auto simp: result_simps)
  then show "x \<in> set ys \<Longrightarrow> x \<in> set xs \<and> P x = Inr True"
    unfolding ys by (auto dest: set_zip_leftD)
  have "length (filter snd (zip xs bs)) \<le> length (zip xs bs)" by (rule length_filter_le)
  then show "length ys \<le> length xs" using traverse_Inr_length [OF bs] by (simp add: ys)
qed

end
