(* ===== verification/AsyncVerify.thy ===== *)
theory AsyncVerify
  imports LiveRequestState "HOL-Library.Product_Lexorder"
begin

text \<open>
  \<open>src/cfdi_vault/sat_async_verify.py\<close>: the one-shot verification scheduler.

  The verifier is the port \<open>SatVerificationPort\<close>, a parameter here: a function of the identifiers
  it was asked before and of the one asked now, so that its answers may depend on anything that
  happened. An answer is a result or an exception, of which the scheduler reads the attributes in
  \<open>exc_info\<close>. A \<open>world\<close> is the state store and the identifiers sent so far.
\<close>

subsection \<open>Backoff policy\<close>

record VerifyBackoffPolicy =
  max_attempts :: int
  max_age :: int
  initial_delay :: int
  second_delay :: int
  third_delay :: int
  fourth_delay :: int
  later_min_delay :: int
  later_max_delay :: int

definition default_policy :: VerifyBackoffPolicy where
  "default_policy = \<lparr>max_attempts = 12, max_age = 72 * us_hour, initial_delay = 5 * us_minute,
     second_delay = 15 * us_minute, third_delay = 30 * us_minute, fourth_delay = us_hour,
     later_min_delay = 2 * us_hour, later_max_delay = 4 * us_hour\<rparr>"

definition hex_digit_val :: "char \<Rightarrow> int" where
  "hex_digit_val c =
     (if char_is_digit c then int (char_code c) - 48
      else if char_code c < 97 then int (char_code c) - 55 else int (char_code c) - 87)"

definition hex_value :: "string \<Rightarrow> int" where
  "hex_value s = foldl (\<lambda>a c. 16 * a + hex_digit_val c) 0 s"

definition next_delay :: "VerifyBackoffPolicy \<Rightarrow> int \<Rightarrow> string \<Rightarrow> int" where
  "next_delay p completed request_ref =
     (if completed \<le> 0 then initial_delay p
      else if completed = 1 then second_delay p
      else if completed = 2 then third_delay p
      else if completed = 3 then fourth_delay p
      else let window = max ((later_max_delay p - later_min_delay p) div us_second) 0 in
           if window = 0 then later_min_delay p
           else later_min_delay p + us_second *
             (hex_value (take 8 (sha256_hex (request_ref @ '':'' @ int_text completed))) mod (window + 1)))"

lemma next_delay_jitter:
  assumes "4 \<le> n" and "later_min_delay p \<le> later_max_delay p"
  shows "later_min_delay p \<le> next_delay p n ref \<and> next_delay p n ref \<le> later_max_delay p"
proof -
  define w where "w = (later_max_delay p - later_min_delay p) div us_second"
  define h where "h = hex_value (take 8 (sha256_hex (ref @ '':'' @ int_text n)))"
  have w: "0 \<le> w" "us_second * w \<le> later_max_delay p - later_min_delay p"
    using assms(2) by (simp_all add: w_def us_second_def pos_imp_zdiv_nonneg_iff mult.commute div_times_less_eq_dividend)
  have "0 \<le> h mod (w + 1)" "h mod (w + 1) \<le> w"
    using w(1) pos_mod_bound [of "w + 1" h] by simp_all
  then have "us_second * (h mod (w + 1)) \<le> us_second * w" "0 \<le> us_second * (h mod (w + 1))"
    by (simp_all add: us_second_def)
  moreover have "next_delay p n ref = (if w = 0 then later_min_delay p
      else later_min_delay p + us_second * (h mod (w + 1)))"
    using assms(1) w(1) by (simp add: next_delay_def Let_def w_def h_def max_def)
  ultimately show ?thesis using w by (auto simp: assms(2))
qed

subsection \<open>The verifier port\<close>

record exc_info =
  xi_timeout :: bool
  xi_diagnostic_kind :: "string option"
  xi_error_kind :: "string option"
  xi_status_code :: "int option"
  xi_http_status :: "int option"
  xi_diagnostic_http :: "int option"

datatype verify_response = VResult SatVerificationResult | VRaised exc_info

type_synonym verifier = "string list \<Rightarrow> string \<Rightarrow> verify_response"

record world =
  w_store :: store
  w_calls :: "string list"

definition error_kind :: "exc_info \<Rightarrow> string" where
  "error_kind x =
     (if xi_timeout x then ''transport_timeout''
      else if opt_truthy (xi_diagnostic_kind x)
        then (if opt_str (xi_diagnostic_kind x) \<in> {''timeout'', ''verify_read_timeout'', ''transport_timeout''}
              then ''transport_timeout'' else opt_str (xi_diagnostic_kind x))
      else if opt_truthy (xi_error_kind x) then opt_str (xi_error_kind x)
      else ''transport_error'')"

text \<open>\<open>a or b or c\<close> over optional integers: zero counts as absent.\<close>

definition int_or :: "int option \<Rightarrow> int option \<Rightarrow> int option" where
  "int_or a b = (if a = None \<or> a = Some 0 then b else a)"

definition http_status :: "exc_info \<Rightarrow> int option" where
  "http_status x = int_or (int_or (xi_status_code x) (xi_http_status x)) (xi_diagnostic_http x)"

subsection \<open>One record\<close>

definition no_data_codes :: "string list" where
  "no_data_codes = [''301'', ''302'', ''5003'', ''5004'', ''no_data'']"

definition is_no_data :: "SatVerificationResult \<Rightarrow> bool" where
  "is_no_data res \<longleftrightarrow> py_lower (py_strip (vr_sat_code res)) \<in> set no_data_codes"

definition record_expiry :: "LiveRecord \<Rightarrow> VerifyBackoffPolicy \<Rightarrow> instant result" where
  "record_expiry r p =
     (if lr_expires_at r \<noteq> [] then parse_state_datetime (lr_expires_at r)
      else bindR (parse_state_datetime (lr_created_at r)) (\<lambda>t. dt_add t (max_age p)))"

definition is_expired :: "LiveRecord \<Rightarrow> instant \<Rightarrow> VerifyBackoffPolicy \<Rightarrow> bool result" where
  "is_expired r now p = bindR (record_expiry r p) (\<lambda>e. Inr (e \<le> now))"

definition next_check_at :: "LiveRecord \<Rightarrow> instant \<Rightarrow> VerifyBackoffPolicy \<Rightarrow> int \<Rightarrow> string result" where
  "next_check_at r now p attempts =
     bindR (dt_add now (next_delay p attempts (lr_request_ref r))) (\<lambda>next_at.
     bindR (record_expiry r p) (\<lambda>expires_at.
       Inr (format_state_datetime (if expires_at < next_at then expires_at else next_at))))"

definition result_common :: "LiveRecord \<Rightarrow> SatVerificationResult \<Rightarrow> instant \<Rightarrow> LiveRecord" where
  "result_common r res now = r\<lparr>
     lr_attempt_count := lr_attempt_count r + 1,
     lr_last_checked_at := format_state_datetime now,
     lr_last_error_kind := [],
     lr_last_http_status := None,
     lr_sat_estado_solicitud := SatRequestState_value (vr_state res),
     lr_sat_codigo_estado := vr_sat_code res,
     lr_numero_cfdis := int (length (vr_package_ids res)),
     lr_updated_at := format_state_datetime now\<rparr>"

definition close_record :: "LiveRecord \<Rightarrow> string \<Rightarrow> string \<Rightarrow> LiveRecord" where
  "close_record r status kind =
     r\<lparr>lr_status := status, lr_next_check_at := [], lr_last_error_kind := kind\<rparr>"

definition reschedule ::
  "LiveRecord \<Rightarrow> string \<Rightarrow> instant \<Rightarrow> VerifyBackoffPolicy \<Rightarrow> LiveRecord result" where
  "reschedule r status now p =
     bindR (next_check_at r now p (lr_attempt_count r)) (\<lambda>n.
       Inr (r\<lparr>lr_status := status, lr_next_check_at := n\<rparr>))"

definition record_result ::
  "LiveRecord \<Rightarrow> SatVerificationResult \<Rightarrow> instant \<Rightarrow> VerifyBackoffPolicy \<Rightarrow> LiveRecord result" where
  "record_result r res now p =
     (let common = result_common r res now in
      if vr_action res = ACT_FINISHED then
        Inr (common\<lparr>lr_status := PACKAGE_READY, lr_next_check_at := [],
               lr_package_ids := vr_package_ids res,
               lr_package_refs_redacted := map redact_package_ref (vr_package_ids res)\<rparr>)
      else if is_no_data res then Inr (common\<lparr>lr_status := VERIFY_NO_DATA, lr_next_check_at := []\<rparr>)
      else if vr_action res = ACT_EXPIRED \<or> vr_state res = RS_EXPIRED then
        Inr (close_record common VERIFY_EXPIRED ''expired_request'')
      else if vr_state res = RS_REJECTED then Inr (close_record common VERIFY_REJECTED ''rejected'')
      else if vr_action res = ACT_UNAUTHORIZED then
        Inr (close_record common VERIFY_FAILED_PERMANENT ''unauthorized'')
      else if vr_action res = ACT_PERMANENT_FAILURE then
        Inr (close_record common VERIFY_FAILED_PERMANENT ''permanent_failure'')
      else if vr_action res \<in> {ACT_ACCEPTED, ACT_IN_PROGRESS, ACT_RETRY, ACT_DUPLICATE} then
        (if max_attempts p \<le> lr_attempt_count common
         then Inr (close_record common VERIFY_FAILED_PERMANENT ''max_attempts_reached'')
         else reschedule common
                (if vr_action res \<in> {ACT_ACCEPTED, ACT_IN_PROGRESS} then VERIFY_IN_PROGRESS_SAT
                 else VERIFY_FAILED_RETRYABLE) now p)
      else reschedule common VERIFY_FAILED_RETRYABLE now p)"

definition retry_or_permanent ::
  "LiveRecord \<Rightarrow> exc_info \<Rightarrow> instant \<Rightarrow> VerifyBackoffPolicy \<Rightarrow> LiveRecord result" where
  "retry_or_permanent r x now p =
     (let attempts = lr_attempt_count r + 1;
          permanent = (max_attempts p \<le> attempts);
          kind = error_kind x in
      bindR (if permanent then Inr [] else next_check_at r now p attempts) (\<lambda>n.
      Inr (r\<lparr>lr_status := (if permanent then VERIFY_FAILED_PERMANENT else VERIFY_FAILED_RETRYABLE),
             lr_attempt_count := attempts,
             lr_next_check_at := n,
             lr_last_checked_at := format_state_datetime now,
             lr_last_error_kind :=
               (if permanent \<and> kind = ''transport_timeout'' then ''max_attempts_reached'' else kind),
             lr_last_http_status := http_status x,
             lr_updated_at := format_state_datetime now\<rparr>)))"

definition store_record :: "LiveRecord \<Rightarrow> world \<Rightarrow> LiveRecord result \<times> world" where
  "store_record r w =
     (case upsert_request r (w_store w) of
        (Inl e, st) \<Rightarrow> (Inl e, w\<lparr>w_store := st\<rparr>)
      | (Inr _, st) \<Rightarrow> (Inr r, w\<lparr>w_store := st\<rparr>))"

definition stamp :: "LiveRecord \<Rightarrow> instant \<Rightarrow> LiveRecord" where
  "stamp r now =
     r\<lparr>lr_last_checked_at := format_state_datetime now, lr_updated_at := format_state_datetime now\<rparr>"

definition in_progress :: "LiveRecord \<Rightarrow> instant \<Rightarrow> LiveRecord" where
  "in_progress r now = (stamp r now)\<lparr>lr_status := VERIFY_IN_PROGRESS\<rparr>"

definition verify_one ::
  "verifier \<Rightarrow> instant \<Rightarrow> VerifyBackoffPolicy \<Rightarrow> LiveRecord \<Rightarrow> world \<Rightarrow> LiveRecord result \<times> world" where
  "verify_one v now p r w =
     (case is_expired r now p of
        Inl e \<Rightarrow> (Inl e, w)
      | Inr True \<Rightarrow> store_record (close_record (stamp r now) VERIFY_EXPIRED ''expired_request'') w
      | Inr False \<Rightarrow>
        if max_attempts p \<le> lr_attempt_count r
        then store_record (close_record (stamp r now) VERIFY_FAILED_PERMANENT ''max_attempts_reached'') w
        else
          (case store_record (in_progress r now) w of
             (Inl e, w1) \<Rightarrow> (Inl e, w1)
           | (Inr r1, w1) \<Rightarrow>
               let w2 = w1\<lparr>w_calls := w_calls w1 @ [lr_id_solicitud r]\<rparr> in
               (case (case v (w_calls w1) (lr_id_solicitud r) of
                        VRaised x \<Rightarrow> retry_or_permanent r1 x now p
                      | VResult res \<Rightarrow> record_result r1 res now p) of
                  Inl e \<Rightarrow> (Inl e, w2)
                | Inr r2 \<Rightarrow> store_record r2 w2)))"

subsection \<open>One run\<close>

record VerifyDueItem =
  vi_request_ref :: string
  vi_status :: string
  vi_next_check_at :: string
  vi_attempt_count :: int
  vi_last_error_kind :: string
  vi_package_count :: int

record VerifyDueReport =
  vd_profile_id :: string
  vd_dry_run :: bool
  vd_due_count :: nat
  vd_selected_count :: nat
  vd_processed_count :: nat
  vd_pending_verify_count :: nat
  vd_next_due_verification :: string
  vd_package_ready_count :: nat
  vd_failed_requests :: nat
  vd_items :: "VerifyDueItem list"

definition item_from_record :: "LiveRecord \<Rightarrow> VerifyDueItem" where
  "item_from_record r =
     \<lparr>vi_request_ref = lr_request_ref r, vi_status = lr_status r, vi_next_check_at = lr_next_check_at r,
      vi_attempt_count = lr_attempt_count r, vi_last_error_kind = lr_last_error_kind r,
      vi_package_count = lr_numero_cfdis r\<rparr>"

definition due_records :: "LiveRecord list \<Rightarrow> instant \<Rightarrow> LiveRecord list result" where
  "due_records rs now =
     bindR (filterR (\<lambda>r.
        if is_pending (lr_status r) \<and> lr_next_check_at r \<noteq> []
        then bindR (parse_state_datetime (lr_next_check_at r)) (\<lambda>t. Inr (t \<le> now))
        else Inr False) rs) (\<lambda>due.
     Inr (sort_asc (\<lambda>r. (lr_next_check_at r, lr_created_at r, lr_request_ref r)) due))"

definition due_report ::
  "string \<Rightarrow> bool \<Rightarrow> nat \<Rightarrow> nat \<Rightarrow> nat \<Rightarrow> LiveSummary \<Rightarrow> VerifyDueItem list \<Rightarrow> VerifyDueReport" where
  "due_report profile dry due selected processed s items =
     \<lparr>vd_profile_id = profile, vd_dry_run = dry, vd_due_count = due, vd_selected_count = selected,
      vd_processed_count = processed, vd_pending_verify_count = sum_pending s,
      vd_next_due_verification = sum_next_due s, vd_package_ready_count = sum_package_ready s,
      vd_failed_requests = sum_failed s, vd_items = items\<rparr>"

fun verify_batch ::
  "verifier \<Rightarrow> instant \<Rightarrow> VerifyBackoffPolicy \<Rightarrow> LiveRecord list \<Rightarrow> world
    \<Rightarrow> VerifyDueItem list result \<times> world" where
  "verify_batch v now p [] w = (Inr [], w)"
| "verify_batch v now p (r # rs) w =
     (case verify_one v now p r w of
        (Inl e, w1) \<Rightarrow> (Inl e, w1)
      | (Inr r1, w1) \<Rightarrow>
          (case verify_batch v now p rs w1 of
             (Inl e, w2) \<Rightarrow> (Inl e, w2)
           | (Inr items, w2) \<Rightarrow> (Inr (item_from_record r1 # items), w2)))"

definition profile_records :: "store \<Rightarrow> string \<Rightarrow> LiveRecord list result" where
  "profile_records st profile =
     bindR (list_requests st False) (\<lambda>rs. Inr (filter (\<lambda>r. lr_profile_id r = profile) rs))"

definition run_verify_due ::
  "verifier \<Rightarrow> string \<Rightarrow> int \<Rightarrow> bool \<Rightarrow> string option \<Rightarrow> instant \<Rightarrow> VerifyBackoffPolicy \<Rightarrow> world
    \<Rightarrow> VerifyDueReport result \<times> world" where
  "run_verify_due v profile limit dry_run request_ref now p w =
     (case profile_records (w_store w) profile of
        Inl e \<Rightarrow> (Inl e, w)
      | Inr all_records \<Rightarrow>
        let records = (case request_ref of None \<Rightarrow> all_records
              | Some ref \<Rightarrow> filter (\<lambda>r. lr_request_ref r = py_strip ref) all_records) in
        (case due_records records now of
           Inl e \<Rightarrow> (Inl e, w)
         | Inr due \<Rightarrow>
           let selected = py_take limit due in
           if dry_run then
             (bindR (summarize_requests records now) (\<lambda>s.
                Inr (due_report profile True (length due) (length selected) 0 s
                       (map item_from_record selected))), w)
           else
             (case verify_batch v now p selected w of
                (Inl e, w1) \<Rightarrow> (Inl e, w1)
              | (Inr items, w1) \<Rightarrow>
                (bindR (profile_records (w_store w1) profile) (\<lambda>refreshed.
                 bindR (summarize_requests refreshed now) (\<lambda>s.
                   Inr (due_report profile False (length due) (length selected) (length items) s items))), w1))))"


subsection \<open>Updates of one record\<close>

lemma stamp_select [simp]:
  "lr_request_ref (stamp r now) = lr_request_ref r" "lr_profile_id (stamp r now) = lr_profile_id r"
  "lr_attempt_count (stamp r now) = lr_attempt_count r" "lr_expires_at (stamp r now) = lr_expires_at r"
  "lr_id_solicitud (stamp r now) = lr_id_solicitud r" "lr_created_at (stamp r now) = lr_created_at r"
  "lr_status (stamp r now) = lr_status r" "lr_next_check_at (stamp r now) = lr_next_check_at r"
  "lr_updated_at (stamp r now) = format_state_datetime now"
  by (simp_all add: stamp_def)

lemma in_progress_select [simp]:
  "lr_request_ref (in_progress r now) = lr_request_ref r" "lr_profile_id (in_progress r now) = lr_profile_id r"
  "lr_attempt_count (in_progress r now) = lr_attempt_count r" "lr_expires_at (in_progress r now) = lr_expires_at r"
  "lr_id_solicitud (in_progress r now) = lr_id_solicitud r" "lr_created_at (in_progress r now) = lr_created_at r"
  "lr_status (in_progress r now) = VERIFY_IN_PROGRESS" "lr_next_check_at (in_progress r now) = lr_next_check_at r"
  "lr_updated_at (in_progress r now) = format_state_datetime now"
  by (simp_all add: in_progress_def)

lemma result_common_select [simp]:
  "lr_request_ref (result_common r res now) = lr_request_ref r"
  "lr_profile_id (result_common r res now) = lr_profile_id r"
  "lr_attempt_count (result_common r res now) = lr_attempt_count r + 1"
  "lr_expires_at (result_common r res now) = lr_expires_at r"
  "lr_created_at (result_common r res now) = lr_created_at r"
  "lr_id_solicitud (result_common r res now) = lr_id_solicitud r"
  "lr_status (result_common r res now) = lr_status r"
  "lr_updated_at (result_common r res now) = format_state_datetime now"
  by (simp_all add: result_common_def)

lemma close_record_select [simp]:
  "lr_request_ref (close_record r s k) = lr_request_ref r" "lr_profile_id (close_record r s k) = lr_profile_id r"
  "lr_attempt_count (close_record r s k) = lr_attempt_count r" "lr_expires_at (close_record r s k) = lr_expires_at r"
  "lr_created_at (close_record r s k) = lr_created_at r" "lr_id_solicitud (close_record r s k) = lr_id_solicitud r"
  "lr_status (close_record r s k) = s" "lr_next_check_at (close_record r s k) = []"
  "lr_updated_at (close_record r s k) = lr_updated_at r"
  by (simp_all add: close_record_def)

lemma record_expiry_cong:
  "lr_expires_at r = lr_expires_at r' \<Longrightarrow> lr_created_at r = lr_created_at r'
    \<Longrightarrow> record_expiry r p = record_expiry r' p"
  by (simp add: record_expiry_def)

text \<open>What a completed verification may leave: the identity of the record is kept, its expiry too,
  the attempt is counted, and the record is either closed by a terminal status or due again, with a
  next check between now plus the delay and the expiry.\<close>

definition completed_update ::
  "LiveRecord \<Rightarrow> instant \<Rightarrow> VerifyBackoffPolicy \<Rightarrow> LiveRecord \<Rightarrow> bool" where
  "completed_update r now p r' \<longleftrightarrow>
     lr_request_ref r' = lr_request_ref r \<and> lr_profile_id r' = lr_profile_id r
     \<and> lr_id_solicitud r' = lr_id_solicitud r \<and> lr_created_at r' = lr_created_at r
     \<and> lr_expires_at r' = lr_expires_at r
     \<and> lr_attempt_count r' = lr_attempt_count r + 1
     \<and> lr_updated_at r' = format_state_datetime now
     \<and> (lr_status r' \<in> {PACKAGE_READY, VERIFY_NO_DATA, VERIFY_EXPIRED, VERIFY_REJECTED, VERIFY_FAILED_PERMANENT}
          \<and> lr_next_check_at r' = []
        \<or> lr_status r' \<in> {VERIFY_IN_PROGRESS_SAT, VERIFY_FAILED_RETRYABLE}
          \<and> next_check_at r now p (lr_attempt_count r + 1) = Inr (lr_next_check_at r'))"

lemma next_check_at_cong:
  "lr_expires_at r = lr_expires_at r' \<Longrightarrow> lr_created_at r = lr_created_at r'
    \<Longrightarrow> lr_request_ref r = lr_request_ref r' \<Longrightarrow> next_check_at r now p n = next_check_at r' now p n"
  by (simp add: next_check_at_def record_expiry_cong [of r r'])

lemma reschedule_update:
  assumes "reschedule (result_common r res now) st now p = Inr r'"
    and "st \<in> {VERIFY_IN_PROGRESS_SAT, VERIFY_FAILED_RETRYABLE}"
  shows "completed_update r now p r'"
proof -
  obtain n where n: "next_check_at (result_common r res now) now p (lr_attempt_count r + 1) = Inr n"
    and r': "r' = (result_common r res now)\<lparr>lr_status := st, lr_next_check_at := n\<rparr>"
    using assms(1) by (auto simp: reschedule_def elim!: bindR_InrE)
  have "next_check_at r now p (lr_attempt_count r + 1) = Inr n"
    using n next_check_at_cong [of "result_common r res now" r] by simp
  then show ?thesis using assms(2) by (simp add: completed_update_def r')
qed

lemma record_result_update:
  assumes "record_result r res now p = Inr r'"
  shows "completed_update r now p r'"
  using assms reschedule_update [of r res now _ p r'] unfolding record_result_def Let_def
  by (auto simp: completed_update_def split: if_splits)

lemma retry_or_permanent_update:
  assumes "retry_or_permanent r x now p = Inr r'"
  shows "completed_update r now p r'"
  using assms unfolding retry_or_permanent_def Let_def
  by (auto simp: completed_update_def split: if_splits elim!: bindR_InrE)

lemma next_check_at_nonempty: "next_check_at r now p n = Inr s \<Longrightarrow> s \<noteq> []"
  by (auto simp: next_check_at_def elim!: bindR_InrE)

lemma completed_update_stable:
  assumes "completed_update r now p r'" "record_stable r"
  shows "record_stable r'"
  using assms next_check_at_nonempty [of r now p "lr_attempt_count r + 1" "[]"]
  by (auto simp: completed_update_def record_stable_def)

lemma in_progress_stable: "record_stable r \<Longrightarrow> record_stable (in_progress r now)"
  by (simp add: record_stable_def)

lemma close_stable:
  "record_stable r \<Longrightarrow> s \<in> {VERIFY_EXPIRED, VERIFY_FAILED_PERMANENT}
    \<Longrightarrow> record_stable (close_record (stamp r now) s k)"
  by (auto simp: record_stable_def)

lemma completed_update_in_progress:
  "completed_update (in_progress r now) now p r' = completed_update r now p r'"
  using next_check_at_cong [of "in_progress r now" r] by (simp add: completed_update_def)

subsection \<open>Effect on the store\<close>

lemma store_record_effect:
  assumes "store_ok (w_store w)" "record_stable r" "store_record r w = (x, w')"
  shows "store_ok (w_store w')" and "w_calls w' = w_calls w"
    and "k \<noteq> lr_request_ref r \<Longrightarrow> lookup_request (w_store w') k = lookup_request (w_store w) k"
    and "x = Inr r' \<Longrightarrow> r' = r \<and> lookup_request (w_store w') (lr_request_ref r) = Some r"
    and "x = Inl e \<Longrightarrow> lookup_request (w_store w') = lookup_request (w_store w)"
proof -
  obtain y st where u: "upsert_request r (w_store w) = (y, st)" by fastforce
  have eqs: "w' = w\<lparr>w_store := st\<rparr>" "x = (case y of Inl e \<Rightarrow> Inl e | Inr _ \<Rightarrow> Inr r)"
    using assms(3) u by (cases y; simp add: store_record_def)+
  show "store_ok (w_store w')" "w_calls w' = w_calls w"
    using live_store.save_keeps_ok [OF assms(1,2) u] by (simp_all add: eqs)
  show "k \<noteq> lr_request_ref r \<Longrightarrow> lookup_request (w_store w') k = lookup_request (w_store w) k"
    using live_store.save_frame [OF assms(1,2) u] by (simp add: eqs)
  show "x = Inr r' \<Longrightarrow> r' = r \<and> lookup_request (w_store w') (lr_request_ref r) = Some r"
    using live_store.save_lookup [OF assms(1,2)] u by (cases y) (simp_all add: eqs)
  show "x = Inl e \<Longrightarrow> lookup_request (w_store w') = lookup_request (w_store w)"
    using live_store.save_fail [OF assms(1)] u by (cases y) (auto simp: eqs)
qed

text \<open>\<open>verify_one\<close> on every path: closed without a call, stopped by the first write, or the verifier
  called once with the record stored as in progress before the call.\<close>

lemma verify_one_cases:
  assumes "verify_one v now p r w = (x, w')"
  obtains (no_expiry) e where "is_expired r now p = Inl e" "x = Inl e" "w' = w"
  | (expired) "is_expired r now p = Inr True"
      "store_record (close_record (stamp r now) VERIFY_EXPIRED ''expired_request'') w = (x, w')"
  | (exhausted) "is_expired r now p = Inr False" "max_attempts p \<le> lr_attempt_count r"
      "store_record (close_record (stamp r now) VERIFY_FAILED_PERMANENT ''max_attempts_reached'') w = (x, w')"
  | (first_write) e where "lr_attempt_count r < max_attempts p" "x = Inl e"
      "store_record (in_progress r now) w = (Inl e, w')"
  | (update_fails) e w1 where "lr_attempt_count r < max_attempts p" "x = Inl e"
      "store_record (in_progress r now) w = (Inr (in_progress r now), w1)"
      "w' = w1\<lparr>w_calls := w_calls w1 @ [lr_id_solicitud r]\<rparr>"
  | (called) r2 w1 where "lr_attempt_count r < max_attempts p"
      "store_record (in_progress r now) w = (Inr (in_progress r now), w1)"
      "completed_update r now p r2"
      "store_record r2 (w1\<lparr>w_calls := w_calls w1 @ [lr_id_solicitud r]\<rparr>) = (x, w')"
proof (cases "is_expired r now p")
  case (Inl e)
  then show ?thesis using assms no_expiry by (simp add: verify_one_def)
next
  case (Inr late)
  consider (late) "late" | (over) "\<not> late" "max_attempts p \<le> lr_attempt_count r"
    | (go) "\<not> late" "lr_attempt_count r < max_attempts p" by fastforce
  then show ?thesis
  proof cases
    case late
    then show ?thesis using assms Inr expired by (simp add: verify_one_def)
  next
    case over
    then show ?thesis using assms Inr exhausted by (simp add: verify_one_def)
  next
    case go
    obtain y w1 where y: "store_record (in_progress r now) w = (y, w1)" by fastforce
    show ?thesis
    proof (cases y)
      case (Inl e)
      then have "x = Inl e" "w1 = w'"
        using assms \<open>is_expired r now p = Inr late\<close> go y by (simp_all add: verify_one_def)
      then show ?thesis using go y Inl first_write [of e] by simp
    next
      case (Inr r1)
      have r1: "r1 = in_progress r now"
        using y Inr by (auto simp: store_record_def split: prod.splits sum.splits)
      define z where "z = (case v (w_calls w1) (lr_id_solicitud r) of
          VRaised x \<Rightarrow> retry_or_permanent (in_progress r now) x now p
        | VResult res \<Rightarrow> record_result (in_progress r now) res now p)"
      have run: "(x, w') = (case z of
            Inl e \<Rightarrow> (Inl e, w1\<lparr>w_calls := w_calls w1 @ [lr_id_solicitud r]\<rparr>)
          | Inr r2 \<Rightarrow> store_record r2 (w1\<lparr>w_calls := w_calls w1 @ [lr_id_solicitud r]\<rparr>))"
        using assms \<open>is_expired r now p = Inr late\<close> go y Inr r1
        by (simp add: verify_one_def z_def Let_def)
      show ?thesis
      proof (cases z)
        case (Inl e)
        then show ?thesis using run go y \<open>y = Inr r1\<close> r1 update_fails by simp
      next
        case (Inr r2)
        have "completed_update (in_progress r now) now p r2"
          using Inr unfolding z_def
          by (auto split: verify_response.splits intro: record_result_update retry_or_permanent_update)
        then show ?thesis
          using run go y \<open>y = Inr r1\<close> r1 Inr called completed_update_in_progress by simp
      qed
    qed
  qed
qed


lemma verify_one_frame:
  assumes "store_ok (w_store w)" "record_stable r" "verify_one v now p r w = (x, w')"
  shows "store_ok (w_store w')"
    and "w_calls w' = w_calls w \<or> w_calls w' = w_calls w @ [lr_id_solicitud r]"
    and "k \<noteq> lr_request_ref r \<Longrightarrow> lookup_request (w_store w') k = lookup_request (w_store w) k"
    and "x = Inr r' \<Longrightarrow> lookup_request (w_store w') (lr_request_ref r) = Some r'
           \<and> lr_request_ref r' = lr_request_ref r"
proof -
  note ip = in_progress_stable [OF assms(2), of now]
  have "store_ok (w_store w')
      \<and> (w_calls w' = w_calls w \<or> w_calls w' = w_calls w @ [lr_id_solicitud r])
      \<and> (k \<noteq> lr_request_ref r \<longrightarrow> lookup_request (w_store w') k = lookup_request (w_store w) k)
      \<and> (x = Inr r' \<longrightarrow> lookup_request (w_store w') (lr_request_ref r) = Some r'
           \<and> lr_request_ref r' = lr_request_ref r)"
    using assms(3)
  proof (cases rule: verify_one_cases)
    case (no_expiry e) then show ?thesis using assms(1) by simp
  next
    case expired
    show ?thesis
      using store_record_effect [OF assms(1) close_stable [OF assms(2)] expired(2)] by auto
  next
    case exhausted
    show ?thesis
      using store_record_effect [OF assms(1) close_stable [OF assms(2)] exhausted(3)] by auto
  next
    case (first_write e)
    show ?thesis using store_record_effect [OF assms(1) ip first_write(3)] first_write(2) by auto
  next
    case (update_fails e w1)
    show ?thesis using store_record_effect [OF assms(1) ip update_fails(3)] update_fails(2,4) by auto
  next
    case (called r2 w1)
    note e1 = store_record_effect [OF assms(1) ip called(2)]
    have ok1: "store_ok (w_store (w1\<lparr>w_calls := w_calls w1 @ [lr_id_solicitud r]\<rparr>))" using e1(1) by simp
    have ref: "lr_request_ref r2 = lr_request_ref r" using called(3) by (simp add: completed_update_def)
    note e2 = store_record_effect [OF ok1 completed_update_stable [OF called(3) assms(2)] called(4)]
    show ?thesis using e1(2,3) e2 ref by auto
  qed
  then show "store_ok (w_store w')"
    and "w_calls w' = w_calls w \<or> w_calls w' = w_calls w @ [lr_id_solicitud r]"
    and "k \<noteq> lr_request_ref r \<Longrightarrow> lookup_request (w_store w') k = lookup_request (w_store w) k"
    and "x = Inr r' \<Longrightarrow> lookup_request (w_store w') (lr_request_ref r) = Some r'
           \<and> lr_request_ref r' = lr_request_ref r"
    by blast+
qed



subsection \<open>Runs\<close>

lemma find_key_iff:
  "distinct (map f xs) \<Longrightarrow> find (\<lambda>x. f x = k) xs = Some y \<longleftrightarrow> y \<in> set xs \<and> f y = k"
  by (induction xs) (auto simp: image_iff)

lemma lookup_Some:
  assumes "store_ok st" "load_records st = Inr rs"
  shows "lookup_request st k = Some r \<longleftrightarrow> r \<in> set rs \<and> lr_request_ref r = k"
  using assms by (simp add: store_ok_def lookup_request_def find_key_iff)

lemma lookup_stable: "lookup_request st k = Some r \<Longrightarrow> record_stable r"
  by (auto simp: lookup_request_def find_Some_iff split: sum.splits intro: load_records_stable)


lemma profile_records_mem:
  assumes "profile_records st profile = Inr rs" "store_ok st" "r \<in> set rs"
  shows "lookup_request st (lr_request_ref r) = Some r" and "lr_profile_id r = profile"
    and "record_stable r"
proof -
  obtain all_rs where a: "load_records st = Inr all_rs" and rs: "rs = filter (\<lambda>r. lr_profile_id r = profile) all_rs"
    using assms(1) by (auto simp: profile_records_def list_requests_def elim!: bindR_InrE)
  show l: "lookup_request st (lr_request_ref r) = Some r"
    using lookup_Some [OF assms(2) a] assms(3) rs by simp
  show "lr_profile_id r = profile" using assms(3) rs by simp
  show "record_stable r" using l by (rule lookup_stable)
qed

definition due_now :: "LiveRecord \<Rightarrow> instant \<Rightarrow> bool" where
  "due_now r now \<longleftrightarrow> is_pending (lr_status r) \<and> lr_next_check_at r \<noteq> []
     \<and> (\<exists>t. parse_state_datetime (lr_next_check_at r) = Inr t \<and> t \<le> now)"

lemma due_records_mem:
  assumes "due_records rs now = Inr due"
  shows "r \<in> set due \<Longrightarrow> r \<in> set rs \<and> due_now r now" and "length due \<le> length rs"
proof -
  obtain ds where ds: "filterR (\<lambda>r.
        if is_pending (lr_status r) \<and> lr_next_check_at r \<noteq> []
        then bindR (parse_state_datetime (lr_next_check_at r)) (\<lambda>t. Inr (t \<le> now))
        else Inr False) rs = Inr ds"
    and due: "due = sort_asc (\<lambda>r. (lr_next_check_at r, lr_created_at r, lr_request_ref r)) ds"
    using assms by (auto simp: due_records_def elim!: bindR_InrE)
  show "r \<in> set due \<Longrightarrow> r \<in> set rs \<and> due_now r now"
    using filterR_InrD(1) [OF ds, of r] unfolding due
    by (auto simp: due_now_def split: if_splits elim!: bindR_InrE)
  show "length due \<le> length rs" using filterR_InrD(2) [OF ds] by (simp add: due)
qed

lemma verify_batch_frame:
  assumes "store_ok (w_store w)" "\<And>r. r \<in> set rs \<Longrightarrow> record_stable r"
    "verify_batch v now p rs w = (x, w')"
  shows "store_ok (w_store w')
    \<and> (k \<notin> lr_request_ref ` set rs \<longrightarrow> lookup_request (w_store w') k = lookup_request (w_store w) k)
    \<and> (\<exists>ids. w_calls w' = w_calls w @ ids \<and> set ids \<subseteq> lr_id_solicitud ` set rs \<and> length ids \<le> length rs)
    \<and> (\<forall>items. x = Inr items \<longrightarrow> length items = length rs)"
  using assms
proof (induction rs arbitrary: w x)
  case (Cons r rs)
  obtain y w1 where one: "verify_one v now p r w = (y, w1)" by fastforce
  note f = verify_one_frame [OF Cons.prems(1) Cons.prems(2) one, simplified]
  show ?case
  proof (cases y)
    case (Inl e)
    then show ?thesis using f(1,2,3) Cons.prems(3) one by fastforce
  next
    case (Inr r1)
    obtain z w2 where rest: "verify_batch v now p rs w1 = (z, w2)" by fastforce
    have w': "w' = w2" and x: "\<forall>items. x = Inr items \<longrightarrow> (\<exists>zs. z = Inr zs \<and> length items = Suc (length zs))"
      using Cons.prems(3) one rest Inr by (auto split: sum.splits)
    have ih: "store_ok (w_store w2)
      \<and> (k \<notin> lr_request_ref ` set rs \<longrightarrow> lookup_request (w_store w2) k = lookup_request (w_store w1) k)
      \<and> (\<exists>ids. w_calls w2 = w_calls w1 @ ids \<and> set ids \<subseteq> lr_id_solicitud ` set rs \<and> length ids \<le> length rs)
      \<and> (\<forall>items. z = Inr items \<longrightarrow> length items = length rs)"
      using Cons.IH [of w1 z] f(1) rest Cons.prems(2) w' by simp
    then obtain ids where ids: "w_calls w2 = w_calls w1 @ ids" "set ids \<subseteq> lr_id_solicitud ` set rs"
      "length ids \<le> length rs" by blast
    obtain ids1 where ids1: "w_calls w1 = w_calls w @ ids1" "set ids1 \<subseteq> {lr_id_solicitud r}" "length ids1 \<le> 1"
      using f(2) by (metis append_Nil2 empty_subsetI le_numeral_extra(4) length_Cons list.set(1)
          list.set(2) list.size(3) One_nat_def le_0_eq nat_le_linear subset_refl)
    have "w_calls w' = w_calls w @ (ids1 @ ids)" "set (ids1 @ ids) \<subseteq> lr_id_solicitud ` set (r # rs)"
      "length (ids1 @ ids) \<le> length (r # rs)"
      using ids ids1 w' by auto
    then show ?thesis using ih f(3) x w' by auto
  qed
qed auto


text \<open>What a run may touch: the records of its profile (and reference) that are pending and due.\<close>

definition run_target ::
  "string \<Rightarrow> string option \<Rightarrow> instant \<Rightarrow> LiveRecord \<Rightarrow> bool" where
  "run_target profile request_ref now r \<longleftrightarrow>
     lr_profile_id r = profile \<and> due_now r now
     \<and> (\<forall>ref. request_ref = Some ref \<longrightarrow> lr_request_ref r = py_strip ref)"

lemma run_verify_due_cases:
  assumes "run_verify_due v profile limit dry ref now p w = (x, w')"
  obtains (idle) "w' = w" "\<And>rep. x = Inr rep \<Longrightarrow> dry"
  | (batch) records selected y where "\<not> dry"
      "profile_records (w_store w) profile = Inr records"
      "\<And>r. r \<in> set selected \<Longrightarrow> r \<in> set records \<and> run_target profile ref now r"
      "verify_batch v now p selected w = (y, w')"
      "0 \<le> limit \<Longrightarrow> int (length selected) \<le> limit"
      "\<And>rep. x = Inr rep \<Longrightarrow> \<exists>items. y = Inr items \<and> vd_selected_count rep = length selected
         \<and> vd_processed_count rep = length items"
proof (cases "profile_records (w_store w) profile")
  case (Inl e)
  then have "x = Inl e" "w' = w" using assms by (simp_all add: run_verify_due_def)
  then show ?thesis by (intro idle) simp_all
next
  case (Inr records)
  define recs where "recs = (case ref of None \<Rightarrow> records
      | Some k \<Rightarrow> filter (\<lambda>r. lr_request_ref r = py_strip k) records)"
  show ?thesis
  proof (cases "due_records recs now")
    case (Inl e)
    then have "x = Inl e" "w' = w"
      using assms \<open>profile_records _ _ = _\<close> by (simp_all add: run_verify_due_def recs_def Let_def)
    then show ?thesis by (intro idle) simp_all
  next
    case (Inr due)
    obtain y w1 where b: "verify_batch v now p (py_take limit due) w = (y, w1)" by fastforce
    have run: "(x, w') = (if dry then (bindR (summarize_requests recs now) (\<lambda>s.
           Inr (due_report profile True (length due) (length (py_take limit due)) 0 s
                  (map item_from_record (py_take limit due)))), w)
        else case y of Inl e \<Rightarrow> (Inl e, w1)
           | Inr items \<Rightarrow> (bindR (profile_records (w_store w1) profile) (\<lambda>refreshed.
                 bindR (summarize_requests refreshed now) (\<lambda>s.
                   Inr (due_report profile False (length due) (length (py_take limit due))
                     (length items) s items))), w1))"
      using assms \<open>profile_records _ _ = _\<close> Inr b
      by (cases dry; cases y) (simp_all add: run_verify_due_def recs_def Let_def)
    show ?thesis
    proof (cases dry)
      case True
      then show ?thesis using run idle by simp
    next
      case False
      have w1: "w' = w1" using run False by (cases y) auto
      have sel: "r \<in> set (py_take limit due) \<Longrightarrow> r \<in> set records \<and> run_target profile ref now r" for r
        using due_records_mem(1) [OF Inr, of r] set_py_take [of r limit due] \<open>profile_records _ _ = _\<close>
        by (cases ref) (auto simp: recs_def run_target_def profile_records_def elim!: bindR_InrE)
      have rep: "x = Inr rep \<Longrightarrow> \<exists>items. y = Inr items \<and> vd_selected_count rep = length (py_take limit due)
         \<and> vd_processed_count rep = length items" for rep
        using run False
        by (cases y) (auto simp: due_report_def elim!: bindR_InrE dest!: sym [of "Inr rep"])
      show ?thesis
        by (rule batch [OF False \<open>profile_records _ _ = _\<close> sel b [folded w1] _ rep])
           (auto dest: length_py_take)
    qed
  qed
qed

lemma run_frame:
  assumes "store_ok (w_store w)" "run_verify_due v profile limit dry ref now p w = (x, w')"
  shows "store_ok (w_store w')"
    and "lookup_request (w_store w') k = lookup_request (w_store w) k
      \<or> \<not> dry \<and> (\<exists>r. lookup_request (w_store w) k = Some r \<and> run_target profile ref now r)"
    and "\<exists>ids. w_calls w' = w_calls w @ ids \<and> (dry \<longrightarrow> ids = []) \<and> (0 \<le> limit \<longrightarrow> int (length ids) \<le> limit)
      \<and> (\<forall>i \<in> set ids. \<exists>k r. lookup_request (w_store w) k = Some r \<and> run_target profile ref now r
            \<and> lr_id_solicitud r = i)"
proof -
  have "store_ok (w_store w') \<and> (lookup_request (w_store w') k = lookup_request (w_store w) k
      \<or> \<not> dry \<and> (\<exists>r. lookup_request (w_store w) k = Some r \<and> run_target profile ref now r))
    \<and> (\<exists>ids. w_calls w' = w_calls w @ ids \<and> (dry \<longrightarrow> ids = []) \<and> (0 \<le> limit \<longrightarrow> int (length ids) \<le> limit)
      \<and> (\<forall>i \<in> set ids. \<exists>k r. lookup_request (w_store w) k = Some r \<and> run_target profile ref now r
            \<and> lr_id_solicitud r = i))"
    using assms(2)
  proof (cases rule: run_verify_due_cases)
    case idle
    then show ?thesis using assms(1) by auto
  next
    case (batch records selected y)
    have st: "\<And>r. r \<in> set selected \<Longrightarrow> record_stable r"
      using profile_records_mem(3) [OF batch(2) assms(1)] batch(3) by blast
    have lk: "\<And>r. r \<in> set selected \<Longrightarrow> lookup_request (w_store w) (lr_request_ref r) = Some r"
      using profile_records_mem(1) [OF batch(2) assms(1)] batch(3) by blast
    note f = verify_batch_frame [OF assms(1) st batch(4), of k, simplified]
    obtain ids where ids: "w_calls w' = w_calls w @ ids" "set ids \<subseteq> lr_id_solicitud ` set selected"
      "length ids \<le> length selected" using f by blast
    have "\<forall>i \<in> set ids. \<exists>k r. lookup_request (w_store w) k = Some r \<and> run_target profile ref now r
            \<and> lr_id_solicitud r = i"
      using ids(2) lk batch(3) by blast
    moreover have "lookup_request (w_store w') k = lookup_request (w_store w) k
      \<or> (\<exists>r. lookup_request (w_store w) k = Some r \<and> run_target profile ref now r)"
      using f lk batch(3) by (cases "k \<in> lr_request_ref ` set selected") auto
    ultimately show ?thesis using f ids batch(1,5) by (intro conjI exI [of _ ids]) auto
  qed
  then show "store_ok (w_store w')"
    and "lookup_request (w_store w') k = lookup_request (w_store w) k
      \<or> \<not> dry \<and> (\<exists>r. lookup_request (w_store w) k = Some r \<and> run_target profile ref now r)"
    and "\<exists>ids. w_calls w' = w_calls w @ ids \<and> (dry \<longrightarrow> ids = []) \<and> (0 \<le> limit \<longrightarrow> int (length ids) \<le> limit)
      \<and> (\<forall>i \<in> set ids. \<exists>k r. lookup_request (w_store w) k = Some r \<and> run_target profile ref now r
            \<and> lr_id_solicitud r = i)"
    by blast+
qed


subsection \<open>Schedules and attempts stay within their bounds\<close>

lemma record_expiry_ok: "record_expiry r p = Inr e \<Longrightarrow> dt_ok e"
  by (auto simp: record_expiry_def result_simps split: if_splits dest: parse_state_ok)

lemma next_check_at_bounds:
  assumes "next_check_at r now p n = Inr s"
  shows "\<exists>t e. parse_state_datetime s = Inr t \<and> record_expiry r p = Inr e \<and> t \<le> e
    \<and> t = min (now + next_delay p n (lr_request_ref r)) e"
proof -
  obtain t e where *: "dt_add now (next_delay p n (lr_request_ref r)) = Inr t" "record_expiry r p = Inr e"
    "s = format_state_datetime (if e < t then e else t)"
    using assms by (auto simp: next_check_at_def elim!: bindR_InrE)
  then show ?thesis using record_expiry_ok [OF *(2)] by (auto simp: dt_add_Inr min_def)
qed

definition schedule_ok :: "VerifyBackoffPolicy \<Rightarrow> LiveRecord \<Rightarrow> bool" where
  "schedule_ok p r \<longleftrightarrow>
     0 \<le> lr_attempt_count r \<and> lr_attempt_count r \<le> max_attempts p
     \<and> (\<exists>e. record_expiry r p = Inr e
          \<and> (is_pending (lr_status r) \<longrightarrow>
              (\<exists>t. parse_state_datetime (lr_next_check_at r) = Inr t \<and> t \<le> e)))"

definition schedule_inv :: "VerifyBackoffPolicy \<Rightarrow> store \<Rightarrow> bool" where
  "schedule_inv p st \<longleftrightarrow> store_ok st \<and> (\<forall>k r. lookup_request st k = Some r \<longrightarrow> schedule_ok p r)"


lemma completed_update_schedule:
  assumes "completed_update r now p r'" "schedule_ok p r" "lr_attempt_count r < max_attempts p"
  shows "schedule_ok p r'"
proof -
  have e: "record_expiry r' p = record_expiry r p"
    using assms(1) by (intro record_expiry_cong) (simp_all add: completed_update_def)
  have "is_pending (lr_status r') \<Longrightarrow>
      next_check_at r now p (lr_attempt_count r + 1) = Inr (lr_next_check_at r')"
    using assms(1) by (auto simp: completed_update_def)
  from next_check_at_bounds [OF this] show ?thesis
    using assms e by (fastforce simp: schedule_ok_def completed_update_def)
qed

lemma close_schedule:
  assumes "schedule_ok p r" "s \<in> {VERIFY_EXPIRED, VERIFY_FAILED_PERMANENT}"
  shows "schedule_ok p (close_record (stamp r now) s k)"
proof -
  have "record_expiry (close_record (stamp r now) s k) p = record_expiry r p"
    by (intro record_expiry_cong) simp_all
  then show ?thesis using assms by (auto simp: schedule_ok_def)
qed

lemma in_progress_schedule: "schedule_ok p r \<Longrightarrow> schedule_ok p (in_progress r now)"
  using record_expiry_cong [of "in_progress r now" r p] by (auto simp: schedule_ok_def)

lemma store_record_inv:
  assumes "schedule_inv p (w_store w)" "record_stable r" "schedule_ok p r" "store_record r w = (x, w')"
  shows "schedule_inv p (w_store w')"
proof -
  have so: "store_ok (w_store w)" using assms(1) by (simp add: schedule_inv_def)
  note e = store_record_effect [OF so assms(2,4)]
  have "lookup_request (w_store w') k = Some y \<Longrightarrow> schedule_ok p y" for k y
  proof (cases x)
    case (Inl a)
    then show "lookup_request (w_store w') k = Some y \<Longrightarrow> schedule_ok p y"
      using e(5) assms(1) by (auto simp: schedule_inv_def)
  next
    case (Inr a)
    then show "lookup_request (w_store w') k = Some y \<Longrightarrow> schedule_ok p y"
      using e(3) [of k] e(4) [of a] assms(1,3)
      by (cases "k = lr_request_ref r") (auto simp: schedule_inv_def)
  qed
  then show ?thesis using e(1) by (simp add: schedule_inv_def)
qed

lemma verify_one_inv:
  assumes "schedule_inv p (w_store w)" "record_stable r" "schedule_ok p r"
    "verify_one v now p r w = (x, w')"
  shows "schedule_inv p (w_store w')"
proof -
  note closed = store_record_inv [OF assms(1) close_stable [OF assms(2)] close_schedule [OF assms(3)]]
  note begun = store_record_inv [OF assms(1) in_progress_stable [OF assms(2)] in_progress_schedule [OF assms(3)]]
  from assms(4) show ?thesis
  proof (cases rule: verify_one_cases)
    case (no_expiry e) then show ?thesis using assms(1) by simp
  next
    case expired show ?thesis by (rule closed [OF _ _ expired(2)]) simp_all
  next
    case exhausted show ?thesis by (rule closed [OF _ _ exhausted(3)]) simp_all
  next
    case (first_write e) show ?thesis by (rule begun [OF first_write(3)])
  next
    case (update_fails e w1) show ?thesis using begun [OF update_fails(3)] update_fails(4) by simp
  next
    case (called r2 w1)
    have "schedule_inv p (w_store (w1\<lparr>w_calls := w_calls w1 @ [lr_id_solicitud r]\<rparr>))"
      using begun [OF called(2)] by simp
    then show ?thesis
      by (rule store_record_inv [OF _ completed_update_stable [OF called(3) assms(2)]
            completed_update_schedule [OF called(3) assms(3) called(1)] called(4)])
  qed
qed

lemma verify_batch_inv:
  assumes "schedule_inv p (w_store w)" "\<And>r. r \<in> set rs \<Longrightarrow> record_stable r \<and> schedule_ok p r"
    "verify_batch v now p rs w = (x, w')"
  shows "schedule_inv p (w_store w')"
  using assms
proof (induction rs arbitrary: w x)
  case (Cons r rs)
  obtain y w1 where one: "verify_one v now p r w = (y, w1)" by fastforce
  have i1: "schedule_inv p (w_store w1)"
    using verify_one_inv [OF Cons.prems(1) _ _ one] Cons.prems(2) by simp
  obtain z w2 where rest: "verify_batch v now p rs w1 = (z, w2)" by fastforce
  have "w' = (case y of Inl e \<Rightarrow> w1 | Inr _ \<Rightarrow> w2)"
    using Cons.prems(3) one rest by (auto split: sum.splits)
  then show ?case using i1 Cons.IH [of w1 z] rest Cons.prems(2) by (cases y) auto
qed simp

lemma run_inv:
  assumes "schedule_inv p (w_store w)" "run_verify_due v profile limit dry ref now p w = (x, w')"
  shows "schedule_inv p (w_store w')"
  using assms(2)
proof (cases rule: run_verify_due_cases)
  case idle then show ?thesis using assms(1) by simp
next
  case (batch records selected y)
  have so: "store_ok (w_store w)" using assms(1) by (simp add: schedule_inv_def)
  have "r \<in> set selected \<Longrightarrow> record_stable r \<and> schedule_ok p r" for r
    using profile_records_mem [OF batch(2) so, of r] batch(3) assms(1) by (auto simp: schedule_inv_def)
  then show ?thesis using verify_batch_inv [OF assms(1) _ batch(4)] by blast
qed

subsection \<open>A request does not stay pending\<close>









text \<open>Runs for one reference, at any times.\<close>

fun run_times ::
  "verifier \<Rightarrow> string \<Rightarrow> string \<Rightarrow> VerifyBackoffPolicy \<Rightarrow> instant list \<Rightarrow> world \<Rightarrow> world" where
  "run_times v profile k p [] w = w"
| "run_times v profile k p (t # ts) w =
     run_times v profile k p ts (snd (run_verify_due v profile 1 False (Some k) t p w))"

definition calls_left :: "VerifyBackoffPolicy \<Rightarrow> string \<Rightarrow> store \<Rightarrow> nat" where
  "calls_left p k st = (case lookup_request st k of None \<Rightarrow> 0
     | Some r \<Rightarrow> if is_pending (lr_status r) then nat (max_attempts p - lr_attempt_count r) else 0)"

lemma verify_one_calls_left:
  assumes "store_ok (w_store w)" "record_stable r" "lookup_request (w_store w) (lr_request_ref r) = Some r"
    "is_pending (lr_status r)" "verify_one v now p r w = (x, w')"
  shows "length (w_calls w') + calls_left p (lr_request_ref r) (w_store w')
    \<le> length (w_calls w) + calls_left p (lr_request_ref r) (w_store w)"
proof -
  note ip = in_progress_stable [OF assms(2), of now]
  have before: "calls_left p (lr_request_ref r) (w_store w) = nat (max_attempts p - lr_attempt_count r)"
    using assms(3,4) by (simp add: calls_left_def)
  from assms(5) show ?thesis
  proof (cases rule: verify_one_cases)
    case (no_expiry e) then show ?thesis by simp
  next
    case expired
    note e = store_record_effect [OF assms(1) close_stable [OF assms(2)] expired(2), simplified]
    show ?thesis using e(2,4,5) by (cases x) (auto simp: calls_left_def)
  next
    case exhausted
    note e = store_record_effect [OF assms(1) close_stable [OF assms(2)] exhausted(3), simplified]
    show ?thesis using e(2,4,5) by (cases x) (auto simp: calls_left_def)
  next
    case (first_write e)
    show ?thesis using store_record_effect(2,5) [OF assms(1) ip first_write(3)] by (simp add: calls_left_def)
  next
    case (update_fails e w1)
    note e = store_record_effect [OF assms(1) ip update_fails(3)]
    show ?thesis using e(2,4) update_fails(1,4) before by (simp add: calls_left_def)
  next
    case (called r2 w1)
    note e1 = store_record_effect [OF assms(1) ip called(2)]
    have ok1: "store_ok (w_store (w1\<lparr>w_calls := w_calls w1 @ [lr_id_solicitud r]\<rparr>))" using e1(1) by simp
    note e2 = store_record_effect [OF ok1 completed_update_stable [OF called(3) assms(2)] called(4)]
    have r2: "lr_request_ref r2 = lr_request_ref r" "lr_attempt_count r2 = lr_attempt_count r + 1"
      using called(3) by (simp_all add: completed_update_def)
    show ?thesis using e1(2,4) e2(2,4,5) r2 called(1) before
      by (cases x) (auto simp: calls_left_def)
  qed
qed

lemma run_calls_left:
  assumes "store_ok (w_store w)" "run_verify_due v profile 1 False (Some k) now p w = (x, w')"
  shows "length (w_calls w') + calls_left p (py_strip k) (w_store w')
    \<le> length (w_calls w) + calls_left p (py_strip k) (w_store w)"
  using assms(2)
proof (cases rule: run_verify_due_cases)
  case idle then show ?thesis by simp
next
  case (batch records selected y)
  have len: "length selected \<le> 1" using batch(5) by simp
  show ?thesis
  proof (cases selected)
    case Nil then show ?thesis using batch(4) by simp
  next
    case (Cons r rs)
    have rs: "rs = []" using len Cons by simp
    have r: "r \<in> set records" "run_target profile (Some k) now r" using batch(3) [of r] Cons by auto
    note m = profile_records_mem [OF batch(2) assms(1) r(1)]
    obtain z w1 where one: "verify_one v now p r w = (z, w1)" by fastforce
    have "w1 = w'" using batch(4) Cons rs one by (auto split: sum.splits)
    then show ?thesis
      using verify_one_calls_left [OF assms(1) m(3) m(1) _ one] r(2)
      by (simp add: run_target_def due_now_def)
  qed
qed

lemma run_times_calls:
  "store_ok (w_store w) \<Longrightarrow>
     length (w_calls (run_times v profile k p ts w)) + calls_left p (py_strip k) (w_store (run_times v profile k p ts w))
     \<le> length (w_calls w) + calls_left p (py_strip k) (w_store w)"
proof (induction ts arbitrary: w)
  case (Cons t ts)
  obtain x w1 where r: "run_verify_due v profile 1 False (Some k) t p w = (x, w1)" by fastforce
  show ?case
    using Cons.IH [OF run_frame(1) [OF Cons.prems r]] run_calls_left [OF Cons.prems r] r by simp
qed simp


subsection \<open>Properties of the scheduler\<close>

definition example_world :: "bool list \<Rightarrow> LiveRecord \<Rightarrow> world" where
  "example_world faults r =
     \<lparr>w_store = \<lparr>st_file = FDoc (state_document [r]), st_faults = faults\<rparr>, w_calls = []\<rparr>"

definition timeout_verifier :: verifier where
  "timeout_verifier calls i = VRaised \<lparr>xi_timeout = True, xi_diagnostic_kind = None, xi_error_kind = None,
     xi_status_code = None, xi_http_status = None, xi_diagnostic_http = None\<rparr>"

lemma example_times:
  "parse_state_datetime ''2026-01-01T00:05:00Z'' = Inr 63902822700000000"
  "parse_state_datetime ''2026-01-04T00:00:00Z'' = Inr 63903081600000000"
  by code_simp+

lemma example_load: "record_stable r \<Longrightarrow> load_records (w_store (example_world fs r)) = Inr [r]"
  unfolding example_world_def world.select_convs
  by (rule load_state_document) simp

lemma example_lookup:
  assumes "record_stable r"
  shows "store_ok (w_store (example_world fs r))"
    "lookup_request (w_store (example_world fs r)) k = (if k = lr_request_ref r then Some r else None)"
  using assms by (auto simp: store_ok_def lookup_request_def example_load)

lemma example_ref: "lr_request_ref example_record = ''req-1''" "lr_profile_id example_record = ''p''"
  "lr_status example_record = VERIFY_SCHEDULED" "lr_attempt_count example_record = 0"
  "lr_id_solicitud example_record = ''id-1''"
  by (simp_all add: example_record_def)

lemma example_expiry: "record_expiry example_record p = Inr 63903081600000000"
  by (simp add: record_expiry_def example_record_def example_times)

lemma example_inv: "schedule_inv default_policy (w_store (example_world fs example_record))"
proof -
  have "schedule_ok default_policy example_record"
    unfolding schedule_ok_def example_expiry
    by (simp add: example_record_def default_policy_def example_times)
  then show ?thesis
    using example_lookup [OF example_stable] by (simp add: schedule_inv_def split: if_splits)
qed

text \<open>C3: a run of the scheduler, whatever it returns, changes only records of its profile (and of the
  requested reference) that were pending and due; a dry run changes nothing. It asks the SAT at most
  \<open>limit\<close> times, only for such records, and the store stays readable.\<close>

theorem run_touches_only_due:
  assumes "store_ok (w_store w)"
    and "run_verify_due v profile limit dry ref now p w = (x, w')"
  shows "store_ok (w_store w')
    \<and> (lookup_request (w_store w') k = lookup_request (w_store w) k
       \<or> \<not> dry \<and> (\<exists>r. lookup_request (w_store w) k = Some r \<and> run_target profile ref now r))
    \<and> (\<exists>ids. w_calls w' = w_calls w @ ids \<and> (dry \<longrightarrow> ids = []) \<and> (0 \<le> limit \<longrightarrow> int (length ids) \<le> limit)
         \<and> (\<forall>i \<in> set ids. \<exists>k r. lookup_request (w_store w) k = Some r
              \<and> run_target profile ref now r \<and> lr_id_solicitud r = i))"
  using run_frame [OF assms] by blast

theorem run_touches_only_due_witness:
  "lookup_request (w_store (snd (run_verify_due timeout_verifier ''other'' 1 False None 0 default_policy
     (example_world [] example_record)))) ''req-1'' = Some example_record"
proof -
  obtain x w' where run: "run_verify_due timeout_verifier ''other'' 1 False None 0 default_policy
     (example_world [] example_record) = (x, w')" by fastforce
  show ?thesis
    using run_touches_only_due [OF example_lookup(1) [OF example_stable] run, of "''req-1''"]
    by (auto simp: run example_lookup(2) [OF example_stable] example_ref run_target_def)
qed





text \<open>C8: over any runs for one reference, the SAT is asked at most \<open>max_attempts\<close> times less the
  attempts already counted, whatever the SAT answers and whichever writes fail.\<close>

theorem calls_bounded:
  assumes "store_ok (w_store w)" and "lookup_request (w_store w) (py_strip k) = Some r"
  shows "length (w_calls (run_times v profile k p ts w))
    \<le> length (w_calls w) + nat (max_attempts p - lr_attempt_count r)"
  using run_times_calls [OF assms(1), of v profile k p ts] assms(2)
  by (auto simp: calls_left_def split: if_splits)

theorem calls_bounded_witness:
  "length (w_calls (run_times timeout_verifier ''p'' ''req-1'' default_policy [63902822700000000, 63902829900000000]
     (example_world [] example_record))) \<le> 12"
  using calls_bounded [of "example_world [] example_record" "''req-1''" example_record timeout_verifier "''p''"
      default_policy "[63902822700000000, 63902829900000000]"]
  by (simp add: example_lookup example_stable example_ref example_strip)
     (simp add: example_world_def default_policy_def)



text \<open>C9: the schedule invariant (attempts between 0 and the maximum, a readable expiry, the next check
  of a pending record no later than its expiry) is kept by every run, failed writes included.\<close>

theorem schedule_invariant:
  assumes "schedule_inv p (w_store w)" and "run_verify_due v profile limit dry ref now p w = (x, w')"
  shows "schedule_inv p (w_store w')"
  using assms by (rule run_inv)

theorem schedule_invariant_witness:
  "schedule_inv default_policy (w_store (snd (run_verify_due timeout_verifier ''p'' 1 False None
     63902822700000000 default_policy (example_world [False, True] example_record))))"
proof -
  obtain x w' where run: "run_verify_due timeout_verifier ''p'' 1 False None
     63902822700000000 default_policy (example_world [False, True] example_record) = (x, w')" by fastforce
  show ?thesis using schedule_invariant [OF example_inv run] by (simp add: run)
qed



end
