(* ===== verification/PyDecimal.thy ===== *)
theory PyDecimal
  imports PyDatetime
begin

text \<open>
  \<open>decimal.Decimal\<close> as far as the code uses it: the value \<open>Decimal(text)\<close> builds (a sign, a
  coefficient and an exponent, or one of the special values the constructor also accepts) and
  InvalidOperation as \<open>None\<close>. Underscores between digits and the payload of a NaN are read and
  dropped, as the constructor does.
\<close>

datatype decimal = DFin bool nat int | DInf bool | DNaN

definition dec_zero :: decimal where "dec_zero = DFin False 0 0"

definition dec_sign :: "string \<Rightarrow> bool \<times> string" where
  "dec_sign s = (case s of [] \<Rightarrow> (False, []) | c # r \<Rightarrow>
     if c = CHR ''-'' then (True, r) else if c = CHR ''+'' then (False, r) else (False, s))"

definition dec_exponent :: "string \<Rightarrow> int option" where
  "dec_exponent s = (case s of [] \<Rightarrow> Some 0 | c # r \<Rightarrow>
     if char_lower c = CHR ''e''
     then (case dec_sign r of (neg, ds) \<Rightarrow>
       if ds \<noteq> [] \<and> list_all char_is_digit ds
       then Some (if neg then - int (digits_val ds) else int (digits_val ds)) else None)
     else None)"

definition dec_number :: "bool \<Rightarrow> string \<Rightarrow> decimal option" where
  "dec_number neg s =
     (let ip = takeWhile char_is_digit s; r = dropWhile char_is_digit s;
          fp = (case r of c # r' \<Rightarrow> if c = CHR ''.'' then takeWhile char_is_digit r' else [] | [] \<Rightarrow> []);
          r2 = (case r of c # r' \<Rightarrow> if c = CHR ''.'' then dropWhile char_is_digit r' else r | [] \<Rightarrow> [])
      in if ip = [] \<and> fp = [] then None
         else map_option (\<lambda>e. DFin neg (digits_val (ip @ fp)) (e - int (length fp))) (dec_exponent r2))"

definition decimal_of :: "string \<Rightarrow> decimal option" where
  "decimal_of text =
     (case dec_sign (filter (\<lambda>c. c \<noteq> CHR ''_'') (py_strip text)) of (neg, s) \<Rightarrow>
        let l = py_lower s in
        if l = ''inf'' \<or> l = ''infinity'' then Some (DInf neg)
        else if py_startswith ''nan'' l \<and> list_all char_is_digit (drop 3 l) then Some DNaN
        else if py_startswith ''snan'' l \<and> list_all char_is_digit (drop 4 l) then Some DNaN
        else dec_number neg s)"

definition dec_finite :: "decimal \<Rightarrow> bool" where
  "dec_finite d = (case d of DFin _ _ _ \<Rightarrow> True | _ \<Rightarrow> False)"

lemmas decimal_defs [py_eval] =
  dec_zero_def dec_sign_def dec_exponent_def dec_number_def decimal_of_def dec_finite_def

end
