(* ===== verification/PyPath.thy ===== *)
theory PyPath
  imports PyBase
begin

text \<open>
  Paths and the small patterns of the program.

  \<^item> \<open>PurePosixPath\<close>: a root (empty, one slash, or two) and the parts between slashes; empty parts and
    single dots disappear, two dots stay. \<open>resolve_parts\<close> is \<open>resolve()\<close> in a directory tree without
    symbolic links: it removes the dots lexically.
  \<^item> A pattern is a list of character classes; \<open>dollar\<close> is \<open>re.match\<close> with a final dollar, which also
    accepts one newline at the end, where \<open>re.fullmatch\<close> does not.
  \<^item> \<open>safe_segment_text\<close>: every run of other characters becomes one dash, and dots, dashes and
    underscores are stripped from both ends. Storage keys and package keys are built from it.
\<close>

subsection \<open>Pure paths\<close>

record ppath =
  pp_root :: string
  pp_parts :: "string list"

definition path_root :: "string \<Rightarrow> string" where
  "path_root s =
     (if py_startswith ''//'' s \<and> \<not> py_startswith ''///'' s then ''//''
      else if py_startswith ''/'' s then ''/'' else [])"

definition path_parts :: "string \<Rightarrow> string list" where
  "path_parts s = filter (\<lambda>p. p \<noteq> [] \<and> p \<noteq> ''.'') (split_on (CHR ''/'') s)"

definition mk_path :: "string \<Rightarrow> ppath" where
  "mk_path s = \<lparr>pp_root = path_root s, pp_parts = path_parts s\<rparr>"

definition path_str :: "ppath \<Rightarrow> string" where
  "path_str p = str_or (pp_root p @ py_join ''/'' (pp_parts p)) ''.''"

text \<open>\<open>p / s\<close>: an absolute right side replaces the left one.\<close>

definition path_join :: "ppath \<Rightarrow> string \<Rightarrow> ppath" where
  "path_join p s =
     (if path_root s \<noteq> [] then mk_path s else p\<lparr>pp_parts := pp_parts p @ path_parts s\<rparr>)"

definition path_parent :: "ppath \<Rightarrow> ppath" where
  "path_parent p = p\<lparr>pp_parts := butlast (pp_parts p)\<rparr>"

text \<open>\<open>name.suffix\<close>: from the last dot, unless it is the first or the last character.\<close>

definition name_suffix :: "string \<Rightarrow> string" where
  "name_suffix name =
     (let tail = takeWhile (\<lambda>c. c \<noteq> CHR ''.'') (rev name) in
      if tail = [] \<or> length name \<le> length tail + 1 then []
      else CHR ''.'' # rev tail)"

definition path_suffix :: "ppath \<Rightarrow> string" where
  "path_suffix p = (if pp_parts p = [] then [] else name_suffix (last (pp_parts p)))"

fun resolve_parts :: "string list \<Rightarrow> string list \<Rightarrow> string list" where
  "resolve_parts acc [] = acc"
| "resolve_parts acc (p # ps) =
     (if p = ''..'' then resolve_parts (butlast acc) ps else resolve_parts (acc @ [p]) ps)"

definition path_resolve :: "ppath \<Rightarrow> ppath" where
  "path_resolve p = p\<lparr>pp_parts := resolve_parts [] (pp_parts p)\<rparr>"

definition is_relative_to :: "ppath \<Rightarrow> ppath \<Rightarrow> bool" where
  "is_relative_to p root \<longleftrightarrow>
     pp_root p = pp_root root \<and> take (length (pp_parts root)) (pp_parts p) = pp_parts root"

lemmas path_defs [py_eval] =
  path_root_def path_parts_def mk_path_def path_str_def path_join_def path_parent_def name_suffix_def
  path_suffix_def path_resolve_def is_relative_to_def

lemma split_on_aux_parts:
  "p \<in> set (split_on_aux d acc s) \<Longrightarrow> d \<notin> set acc \<Longrightarrow> d \<notin> set p"
  by (induction d acc s rule: split_on_aux.induct) (auto split: if_splits)

lemma path_parts_ok: "p \<in> set (path_parts s) \<Longrightarrow> p \<noteq> [] \<and> p \<noteq> ''.'' \<and> CHR ''/'' \<notin> set p"
  using split_on_aux_parts [of p "CHR ''/''" "[]" s] by (auto simp: path_parts_def split_on_def)

lemma split_on_aux_absent: "d \<notin> set s \<Longrightarrow> split_on_aux d acc s = [rev acc @ s]"
  by (induction d acc s rule: split_on_aux.induct) auto

lemma split_on_aux_append:
  "d \<notin> set a \<Longrightarrow> split_on_aux d acc (a @ d # s) = (rev acc @ a) # split_on_aux d [] s"
  by (induction a arbitrary: acc) auto

lemma split_join:
  "xs \<noteq> [] \<Longrightarrow> \<forall>x \<in> set xs. d \<notin> set x \<Longrightarrow> split_on d (py_join [d] xs) = xs"
  unfolding split_on_def
  by (induction "[d]" xs rule: py_join.induct) (auto simp: split_on_aux_absent split_on_aux_append)

text \<open>Printing the parts and reading them again gives the parts.\<close>

lemma path_parts_join:
  assumes "\<forall>p \<in> set ps. p \<noteq> [] \<and> p \<noteq> ''.'' \<and> CHR ''/'' \<notin> set p"
  shows "path_parts (py_join ''/'' ps) = ps"
proof (cases "ps = []")
  case True
  then show ?thesis by (simp add: path_parts_def split_on_def)
next
  case False
  have "filter (\<lambda>p. p \<noteq> [] \<and> p \<noteq> ''.'') ps = ps" using assms by (induction ps) auto
  then show ?thesis using split_join [OF False, of "CHR ''/''"] assms by (simp add: path_parts_def)
qed

definition path_ok :: "ppath \<Rightarrow> bool" where
  "path_ok p \<longleftrightarrow> pp_root p \<in> {[], ''/'', ''//''}
     \<and> (\<forall>x \<in> set (pp_parts p). x \<noteq> [] \<and> x \<noteq> ''.'' \<and> CHR ''/'' \<notin> set x)"

lemma path_ok_mk [simp]: "path_ok (mk_path s)"
  using path_parts_ok by (auto simp: path_ok_def mk_path_def path_root_def)

lemma path_parts_root:
  "r \<in> {''/'', ''//''} \<Longrightarrow> path_parts (r @ s) = path_parts s"
  by (auto simp: path_parts_def split_on_def)

lemma join_hd:
  assumes "ps \<noteq> []" "hd ps \<noteq> []"
  shows "\<exists>t. py_join sep ps = hd (hd ps) # t"
proof -
  obtain c cs qs where "ps = (c # cs) # qs" using assms by (metis list.collapse)
  then show ?thesis by (cases qs) simp_all
qed

lemma path_root_join:
  assumes "\<forall>x \<in> set ps. x \<noteq> [] \<and> x \<noteq> ''.'' \<and> CHR ''/'' \<notin> set x" and "r \<in> {[], ''/'', ''//''}"
  shows "path_root (r @ py_join ''/'' ps) = r"
proof (cases "ps = []")
  case True
  then show ?thesis using assms(2) by (auto simp: path_root_def py_startswith_def)
next
  case False
  then have "hd ps \<in> set ps" by simp
  then have h: "hd ps \<noteq> []" "CHR ''/'' \<notin> set (hd ps)" using assms(1) by auto
  then have "hd (hd ps) \<noteq> CHR ''/''" by (metis list.set_sel(1))
  moreover obtain t where "py_join ''/'' ps = hd (hd ps) # t" using join_hd [OF False h(1)] by blast
  ultimately show ?thesis using assms(2) by (auto simp: path_root_def py_startswith_def)
qed

text \<open>Reading a printed path gives the path.\<close>

lemma mk_path_str [simp]:
  assumes "path_ok p"
  shows "mk_path (path_str p) = p"
proof (cases "pp_root p = [] \<and> pp_parts p = []")
  case True
  have "path_root ''.'' = []" "path_parts ''.'' = []" by code_simp+
  then show ?thesis using True by (cases p) (simp add: path_str_def str_or_def mk_path_def)
next
  case False
  have parts: "path_parts (py_join ''/'' (pp_parts p)) = pp_parts p"
    using assms by (intro path_parts_join) (auto simp: path_ok_def)
  have "py_join ''/'' (pp_parts p) \<noteq> []" if "pp_parts p \<noteq> []"
  proof -
    have "hd (pp_parts p) \<noteq> []" using that assms by (simp add: path_ok_def)
    from join_hd [OF that this, of "''/''"] show ?thesis by auto
  qed
  then have "path_str p = pp_root p @ py_join ''/'' (pp_parts p)"
    using False by (auto simp: path_str_def str_or_def)
  moreover have "path_root (pp_root p @ py_join ''/'' (pp_parts p)) = pp_root p"
    using assms by (intro path_root_join) (auto simp: path_ok_def)
  moreover have "path_parts (pp_root p @ py_join ''/'' (pp_parts p)) = pp_parts p"
    using assms parts path_parts_root [of "pp_root p"] by (auto simp: path_ok_def)
  ultimately show ?thesis by (cases p) (simp add: mk_path_def)
qed

lemma resolve_parts_plain: "''..'' \<notin> set ps \<Longrightarrow> resolve_parts acc ps = acc @ ps"
  by (induction acc ps rule: resolve_parts.induct) auto

lemma resolve_parts_append: "resolve_parts acc (xs @ ys) = resolve_parts (resolve_parts acc xs) ys"
  by (induction acc xs rule: resolve_parts.induct) auto

subsection \<open>Patterns\<close>

definition dollar :: "(string \<Rightarrow> bool) \<Rightarrow> string \<Rightarrow> bool" where
  "dollar P s \<longleftrightarrow> P s \<or> s \<noteq> [] \<and> last s = CHR 0x0A \<and> P (butlast s)"

definition class_run :: "(char \<Rightarrow> bool) \<Rightarrow> nat \<Rightarrow> nat \<Rightarrow> string \<Rightarrow> bool" where
  "class_run c lo hi s \<longleftrightarrow> lo \<le> length s \<and> length s \<le> hi \<and> list_all c s"

definition char_is_alpha :: "char \<Rightarrow> bool" where
  "char_is_alpha c \<longleftrightarrow> char_is_upper c \<or> char_is_lower c"

subsection \<open>Safe segments\<close>

definition segment_char :: "char \<Rightarrow> bool" where
  "segment_char c \<longleftrightarrow> char_is_alnum c \<or> c \<in> {CHR ''_'', CHR ''.'', CHR ''='', CHR ''-''}"

fun dash_runs :: "bool \<Rightarrow> string \<Rightarrow> string" where
  "dash_runs in_run [] = []"
| "dash_runs in_run (c # cs) =
     (if segment_char c then c # dash_runs False cs
      else if in_run then dash_runs True cs else CHR ''-'' # dash_runs True cs)"

definition safe_segment_text :: "string \<Rightarrow> string" where
  "safe_segment_text v = strip_chars ''.-_'' (dash_runs False (py_strip v))"

lemma dash_runs_chars: "c \<in> set (dash_runs b s) \<Longrightarrow> segment_char c"
  by (induction b s rule: dash_runs.induct) (auto simp: segment_char_def split: if_splits)

lemma safe_segment_chars: "c \<in> set (safe_segment_text v) \<Longrightarrow> segment_char c"
  unfolding safe_segment_text_def using strip_chars_set dash_runs_chars by blast

lemma safe_segment_ends:
  assumes "safe_segment_text v \<noteq> []"
  shows "hd (safe_segment_text v) \<notin> set ''.-_''" "last (safe_segment_text v) \<notin> set ''.-_''"
  using strip_by_ends [of "safe_segment_text v" "\<lambda>c. c \<in> set ''.-_''" "dash_runs False (py_strip v)"] assms
  by (simp_all add: safe_segment_text_def strip_chars_def)

lemma segment_not_slash [simp]: "\<not> segment_char (CHR ''/'')"
  by (simp add: segment_char_def char_is_alnum_def char_is_digit_def char_is_upper_def char_is_lower_def
      char_code_def)

text \<open>A safe segment is one part of a path: it is not empty, has no slash and is not a dot or two.\<close>

lemma safe_segment_part:
  assumes "safe_segment_text v \<noteq> []"
  shows "path_parts (safe_segment_text v) = [safe_segment_text v]" "safe_segment_text v \<noteq> ''..''"
    "CHR ''/'' \<notin> set (safe_segment_text v)" "safe_segment_text v \<noteq> ''.''"
proof -
  show slash: "CHR ''/'' \<notin> set (safe_segment_text v)" using safe_segment_chars segment_not_slash by blast
  show "safe_segment_text v \<noteq> ''..''" and dot: "safe_segment_text v \<noteq> ''.''"
    using safe_segment_ends(1) [OF assms] by auto
  show "path_parts (safe_segment_text v) = [safe_segment_text v]"
    using assms dot split_on_aux_absent [OF slash, of "[]"] by (simp add: path_parts_def split_on_def)
qed

end
