(* ===== verification/PyUrl.thy ===== *)
theory PyUrl
  imports PyBase
begin

text \<open>
  \<open>urllib.parse.urlparse\<close> on ASCII text: leading control characters and spaces are dropped, tabs and
  line ends are removed, then scheme, network location, path, parameters, query and fragment are cut
  off in the order of the library. An unbalanced bracket in the network location raises ValueError;
  the library's further check of a bracketed host is left out.
\<close>

record url_parts =
  u_scheme :: string
  u_netloc :: string
  u_path :: string
  u_params :: string
  u_query :: string
  u_fragment :: string

definition scheme_char :: "char \<Rightarrow> bool" where
  "scheme_char c \<longleftrightarrow> char_is_alnum c \<or> c \<in> {CHR ''+'', CHR ''-'', CHR ''.''}"

definition url_clean :: "string \<Rightarrow> string" where
  "url_clean s =
     filter (\<lambda>c. c \<notin> {CHR 0x09, CHR 0x0A, CHR 0x0D}) (dropWhile (\<lambda>c. char_code c \<le> 32) s)"

definition cut_at :: "char \<Rightarrow> string \<Rightarrow> string \<times> string" where
  "cut_at c s = (takeWhile (\<lambda>x. x \<noteq> c) s, drop 1 (dropWhile (\<lambda>x. x \<noteq> c) s))"

definition split_scheme :: "string \<Rightarrow> string \<times> string" where
  "split_scheme s =
     (let pre = takeWhile (\<lambda>x. x \<noteq> CHR '':'') s in
      if pre \<noteq> [] \<and> length pre < length s \<and> (char_is_upper (hd pre) \<or> char_is_lower (hd pre))
         \<and> list_all scheme_char pre
      then (py_lower pre, drop (length pre + 1) s) else ([], s))"

definition split_netloc :: "string \<Rightarrow> string \<times> string" where
  "split_netloc s =
     (if py_startswith ''//'' s
      then (let r = drop 2 s; ok = (\<lambda>c. c \<notin> {CHR ''/'', CHR ''?'', CHR ''#''}) in
            (takeWhile ok r, dropWhile ok r))
      else ([], s))"

definition uses_params :: "string list" where
  "uses_params = [[], ''ftp'', ''hdl'', ''prospero'', ''http'', ''https'', ''shttp'', ''rtsp'', ''rtsps'',
     ''sip'', ''sips'', ''mms'', ''sftp'', ''tel'']"

text \<open>The parameters start at the first semicolon after the last slash.\<close>

definition split_params :: "string \<Rightarrow> string \<times> string" where
  "split_params p =
     (let tl_rev = takeWhile (\<lambda>c. c \<noteq> CHR ''/'') (rev p); head = take (length p - length tl_rev) p;
          (a, b) = cut_at (CHR '';'') (rev tl_rev)
      in (head @ a, b))"

definition urlparse :: "string \<Rightarrow> url_parts result" where
  "urlparse s =
     (let (scheme, r1) = split_scheme (url_clean s); (netloc, r2) = split_netloc r1 in
      if (CHR ''['' \<in> set netloc) \<noteq> (CHR '']'' \<in> set netloc)
      then Inl (ValueError ''Invalid IPv6 URL'')
      else let (r3, fragment) = cut_at (CHR ''#'') r2; (path, query) = cut_at (CHR ''?'') r3;
               (path2, params) = (if scheme \<in> set uses_params then split_params path else (path, []))
           in Inr \<lparr>u_scheme = scheme, u_netloc = netloc, u_path = path2, u_params = params,
                u_query = query, u_fragment = fragment\<rparr>)"

lemmas url_defs [py_eval] =
  scheme_char_def url_clean_def cut_at_def split_scheme_def split_netloc_def uses_params_def
  split_params_def urlparse_def

end
