(* ===== verification/Config.thy ===== *)
theory Config
  imports PyJson PyPath PyUrl
begin

text \<open>
  \<open>src/cfdi_vault/config.py\<close>: the validator of the profile configuration. The code appends messages to
  one list of errors and goes on; here every parser returns its value and the messages it adds, in
  order, and the document is accepted when the whole list is empty.
\<close>

subsection \<open>Patterns and tables\<close>

definition profile_id_shape :: "string \<Rightarrow> bool" where
  "profile_id_shape s \<longleftrightarrow>
     s \<noteq> [] \<and> char_is_alnum (hd s)
     \<and> class_run (\<lambda>c. char_is_alnum c \<or> c \<in> {CHR ''_'', CHR ''.'', CHR ''-''}) 1 63 (tl s)"

definition rfc_shape_at :: "nat \<Rightarrow> string \<Rightarrow> bool" where
  "rfc_shape_at n s \<longleftrightarrow>
     length s = n + 9 \<and> list_all (\<lambda>c. char_is_alpha c \<or> c = CHR ''&'') (take n s)
     \<and> list_all char_is_digit (take 6 (drop n s)) \<and> list_all char_is_alnum (drop (n + 6) s)"

definition rfc_shape :: "string \<Rightarrow> bool" where
  "rfc_shape s \<longleftrightarrow> rfc_shape_at 3 s \<or> rfc_shape_at 4 s"

definition fingerprint_shape :: "string \<Rightarrow> bool" where
  "fingerprint_shape s \<longleftrightarrow> length s = 64 \<and> list_all char_is_hex s"

definition time_shape :: "string \<Rightarrow> bool" where
  "time_shape s \<longleftrightarrow>
     length s = 5 \<and> s ! 2 = CHR '':''
     \<and> ((s ! 0 \<in> {CHR ''0'', CHR ''1''} \<and> char_is_digit (s ! 1))
        \<or> (s ! 0 = CHR ''2'' \<and> s ! 1 \<in> {CHR ''0'', CHR ''1'', CHR ''2'', CHR ''3''}))
     \<and> char_is_digit (s ! 3) \<and> char_code (s ! 3) \<le> 53 \<and> char_is_digit (s ! 4)"

definition ALLOWED_REFERENCE_SCHEMES :: "string list" where
  "ALLOWED_REFERENCE_SCHEMES = [''kms'', ''local-dev-dummy'', ''vault'', ''windows-credential-manager'']"
definition SENSITIVE_FIELD_MARKERS :: "string list" where
  "SENSITIVE_FIELD_MARKERS = [''password'', ''passphrase'', ''privatekey'', ''secret'', ''token'']"
definition SENSITIVE_PATH_MARKERS :: "string list" where
  "SENSITIVE_PATH_MARKERS =
     [''certificatepath'', ''certpath'', ''cerpath'', ''keypath'', ''efirmapath'', ''fielpath'', ''csdpath'']"
definition DANGEROUS_REFERENCE_SUFFIXES :: "string list" where
  "DANGEROUS_REFERENCE_SUFFIXES = [''.cer'', ''.key'', ''.pem'', ''.pfx'', ''.p12'']"

text \<open>The two patterns for key material: the header of a private key in any case, and a DER-like run
  that starts a word with \<open>MII\<close>.\<close>

definition private_key_header :: "string \<Rightarrow> bool" where
  "private_key_header s \<longleftrightarrow>
     (let u = py_upper s in list_ex (\<lambda>p. py_contains (''BEGIN '' @ p @ ''PRIVATE KEY'') u)
       [[], ''RSA '', ''DSA '', ''EC '', ''ENCRYPTED '', ''OPENSSH ''])"

definition b64_char :: "char \<Rightarrow> bool" where
  "b64_char c \<longleftrightarrow> char_is_alnum c \<or> c \<in> {CHR ''+'', CHR ''/''}"

definition word_end_at :: "nat \<Rightarrow> string \<Rightarrow> bool" where
  "word_end_at n s \<longleftrightarrow> word_char (s ! (n - 1)) \<noteq> (n < length s \<and> word_char (s ! n))"

definition der_at :: "string \<Rightarrow> bool" where
  "der_at s \<longleftrightarrow>
     py_startswith ''MII'' s
     \<and> (let t = drop 3 s in
        list_ex (\<lambda>k. list_ex (\<lambda>e. word_end_at (3 + k + e) s)
            [0..<Suc (min 2 (length (takeWhile (\<lambda>c. c = CHR ''='') (drop k t))))])
          [20..<Suc (length (takeWhile b64_char t))])"

fun der_search :: "bool \<Rightarrow> string \<Rightarrow> bool" where
  "der_search after_word [] = False"
| "der_search after_word (c # cs) =
     ((\<not> after_word \<and> der_at (c # cs)) \<or> der_search (word_char c) cs)"

definition sensitive_string :: "string \<Rightarrow> bool" where
  "sensitive_string s \<longleftrightarrow> private_key_header s \<or> der_search False s"

subsection \<open>Settings\<close>

record DownloadSettings =
  ds_issued :: bool
  ds_received :: bool
  ds_metadata_first :: bool

record InitialRange =
  ir_start_date :: int
  ir_end_date :: "int option"

record ScheduleSettings =
  ss_enabled :: bool
  ss_interval_minutes :: "int option"
  ss_daily_at :: "string option"
  ss_timezone :: string

record CredentialReferences =
  cr_certificate_ref :: string
  cr_private_key_ref :: string
  cr_phrase_ref :: string

record ProfileConfig =
  pc_profile_id :: string
  pc_rfc :: string
  pc_storage_root :: string
  pc_download :: DownloadSettings
  pc_max_concurrency :: int
  pc_schedule :: ScheduleSettings
  pc_certificate_fingerprint :: string
  pc_credential_refs :: CredentialReferences
  pc_initial_range :: "InitialRange option"
  pc_lookback_days :: "int option"

record AppConfig =
  ac_schema_version :: int
  ac_profiles :: "ProfileConfig list"

definition get_profile :: "AppConfig \<Rightarrow> string \<Rightarrow> ProfileConfig result" where
  "get_profile c i =
     (case find (\<lambda>p. pc_profile_id p = i) (ac_profiles c) of Some p \<Rightarrow> Inr p | None \<Rightarrow> Inl (KeyError i))"

subsection \<open>Readers\<close>

type_synonym 'a checked = "'a option \<times> string list"

definition note_if :: "bool \<Rightarrow> string \<Rightarrow> string list" where
  "note_if c m = (if c then [m] else [])"

definition unknown_keys :: "jobj \<Rightarrow> string \<Rightarrow> string list \<Rightarrow> string list" where
  "unknown_keys d path allowed =
     map (\<lambda>k. path @ ''.'' @ k @ '' is not allowed by the safe config schema'')
       (filter (\<lambda>k. k \<notin> set allowed) (map fst d))"

definition required_string :: "jobj \<Rightarrow> string \<Rightarrow> string \<Rightarrow> string checked" where
  "required_string d key path =
     (case jget d key of
        JStr s \<Rightarrow> (if py_strip s = [] then (None, [path @ ''.'' @ key @ '' must be a non-empty string''])
                   else (Some s, []))
      | _ \<Rightarrow> (None, [path @ ''.'' @ key @ '' must be a non-empty string'']))"

definition parse_date :: "json \<Rightarrow> string \<Rightarrow> bool \<Rightarrow> int checked" where
  "parse_date v path required =
     (case v of
        JNull \<Rightarrow> (None, note_if required (path @ '' is required''))
      | JStr s \<Rightarrow> (case date_fromisoformat s of Some d \<Rightarrow> (Some d, [])
                   | None \<Rightarrow> (None, [path @ '' must be an ISO date string'']))
      | _ \<Rightarrow> (None, [path @ '' must be an ISO date string'']))"

definition parse_positive_int :: "json \<Rightarrow> string \<Rightarrow> bool \<Rightarrow> int checked" where
  "parse_positive_int v path required =
     (case v of
        JNull \<Rightarrow> (None, note_if required (path @ '' is required''))
      | JInt i \<Rightarrow> (if i < 1 then (None, [path @ '' must be a positive integer'']) else (Some i, []))
      | _ \<Rightarrow> (None, [path @ '' must be a positive integer'']))"

definition normalize_key :: "string \<Rightarrow> string" where
  "normalize_key k = filter (\<lambda>c. char_is_lower c \<or> char_is_digit c) (py_lower k)"

definition looks_like_raw_credential_key :: "string \<Rightarrow> bool" where
  "looks_like_raw_credential_key k \<longleftrightarrow>
     (if py_endswith ''ref'' k \<or> py_endswith ''refs'' k then False
      else if k \<in> {''certificatefingerprint'', ''credentialrefs''} then False
      else if list_ex (\<lambda>m. py_contains m k) SENSITIVE_FIELD_MARKERS then True
      else k \<in> set SENSITIVE_PATH_MARKERS)"

fun raw_credential_fields :: "json \<Rightarrow> string \<Rightarrow> string list"
  and raw_credential_items :: "(string \<times> json) list \<Rightarrow> string \<Rightarrow> string list"
  and raw_credential_elems :: "json list \<Rightarrow> string \<Rightarrow> nat \<Rightarrow> string list" where
  "raw_credential_fields (JObj d) path = raw_credential_items d path"
| "raw_credential_fields (JArr xs) path = raw_credential_elems xs path 0"
| "raw_credential_fields (JStr s) path =
     note_if (sensitive_string s) (path @ '' contains private key or certificate-like material'')"
| "raw_credential_fields _ path = []"
| "raw_credential_items [] path = []"
| "raw_credential_items ((k, v) # d) path =
     note_if (looks_like_raw_credential_key (normalize_key k))
       (path @ ''.'' @ k @ '' must be a credential reference, not a raw credential field'')
     @ raw_credential_fields v (path @ ''.'' @ k) @ raw_credential_items d path"
| "raw_credential_elems [] path i = []"
| "raw_credential_elems (v # vs) path i =
     raw_credential_fields v (path @ ''['' @ int_text (int i) @ '']'') @ raw_credential_elems vs path (Suc i)"

definition reference_contains_credential_file_segment :: "string \<Rightarrow> bool result" where
  "reference_contains_credential_file_segment v =
     bindR (urlparse v) (\<lambda>u.
       Inr (list_ex (\<lambda>seg. let clean = py_lower (fst (cut_at (CHR ''#'') (fst (cut_at (CHR ''?'') seg)))) in
              list_ex (\<lambda>suf. py_endswith suf clean) DANGEROUS_REFERENCE_SUFFIXES)
            (u_netloc u # split_on (CHR ''/'') (replace_char (CHR 0x5C) ''/'' (u_path u)))))"

text \<open>\<open>urlparse\<close> may raise ValueError, which nothing catches.\<close>

definition required_reference :: "jobj \<Rightarrow> string \<Rightarrow> string \<Rightarrow> string checked result" where
  "required_reference d key path =
     (case required_string d key path of
        (None, es) \<Rightarrow> Inr (None, es)
      | (Some v, es) \<Rightarrow>
          bindR (urlparse v) (\<lambda>u.
          bindR (reference_contains_credential_file_segment v) (\<lambda>file.
          Inr (Some v,
             note_if (u_scheme u \<notin> set ALLOWED_REFERENCE_SCHEMES \<or> u_netloc u = [])
               (path @ ''.'' @ key @ '' must use one of these reference schemes: ''
                @ py_join '', '' ALLOWED_REFERENCE_SCHEMES)
             @ note_if file
               (path @ ''.'' @ key @ '' must be a credential reference, not a credential file path'')))))"

subsection \<open>Sections of a profile\<close>

definition as_bool :: "json \<Rightarrow> bool option" where
  "as_bool v = (case v of JBool b \<Rightarrow> Some b | _ \<Rightarrow> None)"

definition parse_download :: "json \<Rightarrow> string \<Rightarrow> DownloadSettings checked" where
  "parse_download v path =
     (case v of
        JObj d \<Rightarrow>
          (let i = as_bool (jget d ''issued''); r = as_bool (jget d ''received'');
               m = as_bool (jget d ''metadataFirst'');
               es = unknown_keys d path [''issued'', ''received'', ''metadataFirst'']
                 @ note_if (i = None) (path @ ''.issued must be true or false'')
                 @ note_if (r = None) (path @ ''.received must be true or false'')
                 @ note_if (m = None) (path @ ''.metadataFirst must be true or false'')
                 @ note_if (i = Some False \<and> r = Some False)
                     (path @ '' must enable issued or received downloads'')
           in (case (i, r, m) of
                 (Some i', Some r', Some m') \<Rightarrow>
                   (Some \<lparr>ds_issued = i', ds_received = r', ds_metadata_first = m'\<rparr>, es)
               | _ \<Rightarrow> (None, es)))
      | _ \<Rightarrow> (None, [path @ '' must be an object'']))"

definition parse_initial_range :: "json \<Rightarrow> string \<Rightarrow> InitialRange checked" where
  "parse_initial_range v path =
     (case v of
        JNull \<Rightarrow> (None, [])
      | JObj d \<Rightarrow>
          (let (s, e1) = parse_date (jget d ''startDate'') (path @ ''.startDate'') True;
               (e, e2) = parse_date (jget d ''endDate'') (path @ ''.endDate'') False;
               es = unknown_keys d path [''startDate'', ''endDate''] @ e1 @ e2
                 @ note_if (s \<noteq> None \<and> e \<noteq> None \<and> the e < the s)
                     (path @ ''.endDate must be greater than or equal to startDate'')
           in (case s of None \<Rightarrow> (None, es)
               | Some s' \<Rightarrow> (Some \<lparr>ir_start_date = s', ir_end_date = e\<rparr>, es)))
      | _ \<Rightarrow> (None, [path @ '' must be an object'']))"

definition daily_at_of :: "json \<Rightarrow> string \<Rightarrow> string checked" where
  "daily_at_of v path =
     (case v of
        JNull \<Rightarrow> (None, [])
      | JStr s \<Rightarrow> (if dollar time_shape s then (Some s, [])
                   else (None, [path @ ''.dailyAt must use HH:MM 24-hour format'']))
      | _ \<Rightarrow> (None, [path @ ''.dailyAt must use HH:MM 24-hour format'']))"

definition timezone_of :: "jobj \<Rightarrow> string \<Rightarrow> string \<times> string list" where
  "timezone_of d path =
     (case map_of d ''timezone'' of
        None \<Rightarrow> (''UTC'', [])
      | Some (JStr s) \<Rightarrow> (if py_strip s = [] then (''UTC'', [path @ ''.timezone must be a non-empty string''])
                          else (s, []))
      | Some _ \<Rightarrow> (''UTC'', [path @ ''.timezone must be a non-empty string'']))"

definition parse_schedule :: "json \<Rightarrow> string \<Rightarrow> ScheduleSettings checked" where
  "parse_schedule v path =
     (case v of
        JObj d \<Rightarrow>
          (let e0 = unknown_keys d path [''enabled'', ''intervalMinutes'', ''dailyAt'', ''timezone''] in
           case as_bool (jget d ''enabled'') of
             None \<Rightarrow> (None, e0 @ [path @ ''.enabled must be true or false''])
           | Some enabled \<Rightarrow>
               (let (interval, e1) = parse_positive_int (jget d ''intervalMinutes'') (path @ ''.intervalMinutes'') False;
                    (daily, e2) = daily_at_of (jget d ''dailyAt'') path;
                    (tz, e3) = timezone_of d path;
                    e4 = note_if (enabled \<and> interval = None \<and> daily = None)
                      (path @ '' must define intervalMinutes or dailyAt when enabled'')
                in (Some \<lparr>ss_enabled = enabled, ss_interval_minutes = interval, ss_daily_at = daily,
                       ss_timezone = tz\<rparr>, e0 @ e1 @ e2 @ e3 @ e4)))
      | _ \<Rightarrow> (None, [path @ '' must be an object'']))"

definition parse_credential_refs :: "json \<Rightarrow> string \<Rightarrow> CredentialReferences checked result" where
  "parse_credential_refs v path =
     (case v of
        JObj d \<Rightarrow>
          bindR (required_reference d ''certificateRef'' path) (\<lambda>(c, e1).
          bindR (required_reference d ''privateKeyRef'' path) (\<lambda>(k, e2).
          bindR (required_reference d ''passphraseRef'' path) (\<lambda>(p, e3).
            let es = unknown_keys d path [''certificateRef'', ''privateKeyRef'', ''passphraseRef'']
              @ e1 @ e2 @ e3 in
            Inr (case (c, k, p) of
                (Some c', Some k', Some p') \<Rightarrow>
                  (Some \<lparr>cr_certificate_ref = c', cr_private_key_ref = k', cr_phrase_ref = p'\<rparr>, es)
              | _ \<Rightarrow> (None, es)))))
      | _ \<Rightarrow> Inr (None, [path @ '' must be an object'']))"

subsection \<open>Profiles and documents\<close>

definition profile_keys :: "string list" where
  "profile_keys = [''profileId'', ''rfc'', ''storageRoot'', ''download'', ''initialRange'', ''lookbackDays'',
     ''maxConcurrency'', ''schedule'', ''certificateFingerprint'', ''credentialRefs'']"

definition parse_profile :: "jobj \<Rightarrow> string \<Rightarrow> ProfileConfig checked result" where
  "parse_profile d path =
    (let (pid, e1) = required_string d ''profileId'' path;
         (rfc, e2) = required_string d ''rfc'' path;
         (root, e3) = required_string d ''storageRoot'' path;
         (fp, e4) = required_string d ''certificateFingerprint'' path;
         e5 = note_if (pid \<noteq> None \<and> \<not> dollar profile_id_shape (the pid))
                (path @ ''.profileId must use 2-64 letters, numbers, dot, underscore, or dash'')
              @ note_if (rfc \<noteq> None \<and> \<not> dollar rfc_shape (the rfc)) (path @ ''.rfc must be an RFC-shaped value'')
              @ note_if (root \<noteq> None \<and> py_strip (the root) \<noteq> the root)
                  (path @ ''.storageRoot must not have leading or trailing whitespace'')
              @ note_if (fp \<noteq> None \<and> \<not> dollar fingerprint_shape (the fp))
                  (path @ ''.certificateFingerprint must be a 64-character SHA-256 hex fingerprint'');
         (download, e6) = parse_download (jget d ''download'') (path @ ''.download'');
         (range, e7) = parse_initial_range (jget d ''initialRange'') (path @ ''.initialRange'');
         (lookback, e8) = parse_positive_int (jget d ''lookbackDays'') (path @ ''.lookbackDays'') False;
         e9 = note_if (range = None \<and> lookback = None) (path @ '' must define initialRange or lookbackDays'')
              @ note_if (range \<noteq> None \<and> lookback \<noteq> None)
                  (path @ '' must not define both initialRange and lookbackDays'');
         (conc, e10) = parse_positive_int (jget d ''maxConcurrency'') (path @ ''.maxConcurrency'') True;
         e11 = note_if (conc \<noteq> None \<and> 10 < the conc) (path @ ''.maxConcurrency must be 10 or less'');
         (sched, e12) = parse_schedule (jget d ''schedule'') (path @ ''.schedule'')
     in bindR (parse_credential_refs (jget d ''credentialRefs'') (path @ ''.credentialRefs'')) (\<lambda>(refs, e13).
        let es = unknown_keys d path profile_keys @ e1 @ e2 @ e3 @ e4 @ e5 @ e6 @ e7 @ e8 @ e9 @ e10
              @ e11 @ e12 @ e13 in
        Inr (if pid = None \<or> rfc = None \<or> root = None \<or> download = None \<or> conc = None
                \<or> sched = None \<or> refs = None \<or> fp = None
             then (None, es)
             else (Some \<lparr>pc_profile_id = the pid, pc_rfc = py_upper (the rfc), pc_storage_root = the root,
                     pc_download = the download, pc_max_concurrency = the conc, pc_schedule = the sched,
                     pc_certificate_fingerprint = py_lower (the fp), pc_credential_refs = the refs,
                     pc_initial_range = range, pc_lookback_days = lookback\<rparr>, es))))"

text \<open>The loop over the profiles: the index, the ids seen, and the profiles and messages so far.\<close>

fun parse_profiles ::
  "json list \<Rightarrow> nat \<Rightarrow> string list \<Rightarrow> (ProfileConfig list \<times> string list) result" where
  "parse_profiles [] i seen = Inr ([], [])"
| "parse_profiles (v # vs) i seen =
     (let path = ''profiles['' @ int_text (int i) @ '']'' in
      case v of
        JObj d \<Rightarrow>
          bindR (parse_profile d path) (\<lambda>(p, es).
            case p of
              None \<Rightarrow> bindR (parse_profiles vs (Suc i) seen) (\<lambda>(ps, es'). Inr (ps, es @ es'))
            | Some pc \<Rightarrow>
                bindR (parse_profiles vs (Suc i) (pc_profile_id pc # seen)) (\<lambda>(ps, es').
                  Inr (pc # ps, es @ note_if (pc_profile_id pc \<in> set seen)
                         (path @ ''.profileId must be unique'') @ es')))
      | _ \<Rightarrow> bindR (parse_profiles vs (Suc i) seen) (\<lambda>(ps, es'). Inr (ps, (path @ '' must be an object'') # es')))"

definition validate_config :: "jobj \<Rightarrow> AppConfig result" where
  "validate_config d =
     (let e0 = raw_credential_fields (JObj d) ''config''
            @ unknown_keys d ''config'' [''schemaVersion'', ''profiles'']
            @ note_if (\<not> json_is_one (jget d ''schemaVersion'')) ''schemaVersion must be 1'' in
      bindR (case jget d ''profiles'' of
               JArr (v # vs) \<Rightarrow> parse_profiles (v # vs) 0 []
             | _ \<Rightarrow> Inr ([], [''profiles must be a non-empty array''])) (\<lambda>(ps, es).
        if e0 @ es \<noteq> [] then Inl (ConfigValidationError (e0 @ es))
        else Inr \<lparr>ac_schema_version = 1, ac_profiles = ps\<rparr>))"

datatype config_file = CfgInvalidJson string | CfgDoc json

definition load_config :: "config_file \<Rightarrow> AppConfig result" where
  "load_config f =
     (case f of
        CfgInvalidJson m \<Rightarrow> Inl (ConfigValidationError [''invalid JSON: '' @ m])
      | CfgDoc (JObj d) \<Rightarrow> validate_config d
      | CfgDoc _ \<Rightarrow> Inl (ConfigValidationError [''config root must be a JSON object'']))"


subsection \<open>What an accepted document satisfies\<close>

definition download_ok :: "DownloadSettings \<Rightarrow> bool" where
  "download_ok d \<longleftrightarrow> ds_issued d \<or> ds_received d"

definition range_ok :: "InitialRange \<Rightarrow> bool" where
  "range_ok r \<longleftrightarrow> (\<forall>e. ir_end_date r = Some e \<longrightarrow> ir_start_date r \<le> e)"

definition schedule_ok :: "ScheduleSettings \<Rightarrow> bool" where
  "schedule_ok s \<longleftrightarrow>
     (ss_enabled s \<longrightarrow> ss_interval_minutes s \<noteq> None \<or> ss_daily_at s \<noteq> None)
     \<and> (\<forall>i. ss_interval_minutes s = Some i \<longrightarrow> 1 \<le> i)
     \<and> (\<forall>t. ss_daily_at s = Some t \<longrightarrow> dollar time_shape t) \<and> py_strip (ss_timezone s) \<noteq> []"

definition reference_ok :: "string \<Rightarrow> bool" where
  "reference_ok v \<longleftrightarrow>
     (\<exists>u. urlparse v = Inr u \<and> u_scheme u \<in> set ALLOWED_REFERENCE_SCHEMES \<and> u_netloc u \<noteq> [])
     \<and> reference_contains_credential_file_segment v = Inr False"

definition credential_refs_ok :: "CredentialReferences \<Rightarrow> bool" where
  "credential_refs_ok c \<longleftrightarrow>
     reference_ok (cr_certificate_ref c) \<and> reference_ok (cr_private_key_ref c) \<and> reference_ok (cr_phrase_ref c)"

definition profile_ok :: "ProfileConfig \<Rightarrow> bool" where
  "profile_ok p \<longleftrightarrow>
     dollar profile_id_shape (pc_profile_id p)
     \<and> (\<exists>r. pc_rfc p = py_upper r \<and> dollar rfc_shape r)
     \<and> (\<exists>f. pc_certificate_fingerprint p = py_lower f \<and> dollar fingerprint_shape f)
     \<and> py_strip (pc_storage_root p) = pc_storage_root p \<and> pc_storage_root p \<noteq> []
     \<and> 1 \<le> pc_max_concurrency p \<and> pc_max_concurrency p \<le> 10
     \<and> (pc_initial_range p = None) \<noteq> (pc_lookback_days p = None)
     \<and> (\<forall>r. pc_initial_range p = Some r \<longrightarrow> range_ok r)
     \<and> (\<forall>n. pc_lookback_days p = Some n \<longrightarrow> 1 \<le> n)
     \<and> download_ok (pc_download p) \<and> schedule_ok (pc_schedule p)
     \<and> credential_refs_ok (pc_credential_refs p)"

lemma note_if_Nil [simp]: "note_if c m = [] \<longleftrightarrow> \<not> c"
  by (simp add: note_if_def)

lemma required_string_ok: "required_string d k path = (Some v, []) \<Longrightarrow> py_strip v \<noteq> []"
  by (auto simp: required_string_def split: json.splits if_splits)

lemma required_string_cases: "required_string d k path = (v, es) \<Longrightarrow> (v = None) = (es \<noteq> [])"
  by (auto simp: required_string_def split: json.splits if_splits)

lemma parse_positive_int_ok: "parse_positive_int v path req = (Some n, es) \<Longrightarrow> 1 \<le> n"
  by (auto simp: parse_positive_int_def split: json.splits if_splits)

lemma parse_download_ok: "parse_download v path = (Some d, []) \<Longrightarrow> download_ok d"
  by (auto simp: parse_download_def download_ok_def Let_def split: json.splits option.splits)

lemma parse_initial_range_ok: "parse_initial_range v path = (Some r, []) \<Longrightarrow> range_ok r"
  by (auto simp: parse_initial_range_def range_ok_def Let_def split: json.splits option.splits prod.splits)

lemma daily_at_ok: "daily_at_of v path = (Some t, es) \<Longrightarrow> dollar time_shape t"
  by (auto simp: daily_at_of_def split: json.splits if_splits)

lemma timezone_ok: "py_strip (fst (timezone_of d path)) \<noteq> []"
proof -
  have "py_strip ''UTC'' \<noteq> []" by code_simp
  then show ?thesis by (auto simp: timezone_of_def split: option.splits json.splits)
qed

lemma parse_schedule_ok:
  assumes "parse_schedule v path = (Some s, [])"
  shows "schedule_ok s"
proof -
  obtain d enabled where d: "v = JObj d" "as_bool (jget d ''enabled'') = Some enabled"
    using assms by (auto simp: parse_schedule_def Let_def split: json.splits option.splits)
  obtain interval e1 where i: "parse_positive_int (jget d ''intervalMinutes'') (path @ ''.intervalMinutes'') False = (interval, e1)"
    by fastforce
  obtain daily e2 where dl: "daily_at_of (jget d ''dailyAt'') path = (daily, e2)" by fastforce
  obtain tz e3 where tz: "timezone_of d path = (tz, e3)" by fastforce
  have "s = \<lparr>ss_enabled = enabled, ss_interval_minutes = interval, ss_daily_at = daily, ss_timezone = tz\<rparr>"
    "\<not> (enabled \<and> interval = None \<and> daily = None)"
    using assms d i dl tz by (auto simp: parse_schedule_def Let_def)
  then show ?thesis
    using parse_positive_int_ok [of "jget d ''intervalMinutes''" "path @ ''.intervalMinutes''" False] i
      daily_at_ok [of "jget d ''dailyAt''" path] dl timezone_ok [of d path] tz
    by (auto simp: schedule_ok_def)
qed

lemma required_reference_ok: "required_reference d k path = Inr (Some v, []) \<Longrightarrow> reference_ok v"
  by (auto simp: required_reference_def reference_ok_def split: prod.splits option.splits elim!: bindR_InrE)

lemma parse_credential_refs_ok:
  assumes "parse_credential_refs v path = Inr (Some c, [])"
  shows "credential_refs_ok c"
proof -
  obtain d c1 c2 c3 where "required_reference d ''certificateRef'' path = Inr (Some c1, [])"
    "required_reference d ''privateKeyRef'' path = Inr (Some c2, [])"
    "required_reference d ''passphraseRef'' path = Inr (Some c3, [])"
    "c = \<lparr>cr_certificate_ref = c1, cr_private_key_ref = c2, cr_phrase_ref = c3\<rparr>"
    using assms by (auto simp: parse_credential_refs_def Let_def
      split: json.splits option.splits elim!: bindR_InrE)
  then show ?thesis by (simp add: credential_refs_ok_def required_reference_ok)
qed

lemma parse_profile_ok:
  assumes "parse_profile d path = Inr (Some p, [])"
  shows "profile_ok p"
proof -
  obtain pid e1 where a1: "required_string d ''profileId'' path = (pid, e1)" by fastforce
  obtain rfc e2 where a2: "required_string d ''rfc'' path = (rfc, e2)" by fastforce
  obtain root e3 where a3: "required_string d ''storageRoot'' path = (root, e3)" by fastforce
  obtain fp e4 where a4: "required_string d ''certificateFingerprint'' path = (fp, e4)" by fastforce
  obtain dl e6 where a6: "parse_download (jget d ''download'') (path @ ''.download'') = (dl, e6)" by fastforce
  obtain rg e7 where a7: "parse_initial_range (jget d ''initialRange'') (path @ ''.initialRange'') = (rg, e7)"
    by fastforce
  obtain lb e8 where a8: "parse_positive_int (jget d ''lookbackDays'') (path @ ''.lookbackDays'') False = (lb, e8)"
    by fastforce
  obtain cn e10 where a10: "parse_positive_int (jget d ''maxConcurrency'') (path @ ''.maxConcurrency'') True = (cn, e10)"
    by fastforce
  obtain sc e12 where a12: "parse_schedule (jget d ''schedule'') (path @ ''.schedule'') = (sc, e12)" by fastforce
  note parts = a1 a2 a3 a4 a6 a7 a8 a10 a12
  obtain rf e13 where a13: "parse_credential_refs (jget d ''credentialRefs'') (path @ ''.credentialRefs'') = Inr (rf, e13)"
    using assms by (auto simp: parse_profile_def parts Let_def elim!: bindR_InrE)
  have all: "e1 = []" "e2 = []" "e3 = []" "e4 = []" "e6 = []" "e7 = []" "e8 = []" "e10 = []" "e12 = []" "e13 = []"
    and some: "pid \<noteq> None" "rfc \<noteq> None" "root \<noteq> None" "dl \<noteq> None" "cn \<noteq> None" "sc \<noteq> None" "rf \<noteq> None" "fp \<noteq> None"
    and checks: "dollar profile_id_shape (the pid)" "dollar rfc_shape (the rfc)" "py_strip (the root) = the root"
      "dollar fingerprint_shape (the fp)" "\<not> (rg = None \<and> lb = None)" "\<not> (rg \<noteq> None \<and> lb \<noteq> None)"
      "the cn \<le> 10"
    and p: "p = \<lparr>pc_profile_id = the pid, pc_rfc = py_upper (the rfc), pc_storage_root = the root,
       pc_download = the dl, pc_max_concurrency = the cn, pc_schedule = the sc,
       pc_certificate_fingerprint = py_lower (the fp), pc_credential_refs = the rf,
       pc_initial_range = rg, pc_lookback_days = lb\<rparr>"
    using assms by (auto simp: parse_profile_def parts a13 Let_def split: if_splits)
  have ok: "py_strip (the root) \<noteq> []" "download_ok (the dl)" "1 \<le> the cn" "schedule_ok (the sc)"
    "credential_refs_ok (the rf)" "rg = Some r \<Longrightarrow> range_ok r" "lb = Some n \<Longrightarrow> 1 \<le> n" for r n
    using a3 a6 a7 a8 a10 a12 a13 all some
    by (auto dest: required_string_ok parse_download_ok parse_positive_int_ok parse_schedule_ok
        parse_credential_refs_ok parse_initial_range_ok)
  then have "the root \<noteq> []" by auto
  then show ?thesis using ok checks by (auto simp: profile_ok_def p)
qed

lemma parse_none_errors:
  "parse_download v path = (None, es) \<Longrightarrow> es \<noteq> []"
  "parse_positive_int v path True = (None, es) \<Longrightarrow> es \<noteq> []"
  "parse_schedule v path = (None, es) \<Longrightarrow> es \<noteq> []"
  by (auto simp: parse_download_def parse_positive_int_def parse_schedule_def Let_def
      split: json.splits option.splits prod.splits if_splits)

lemma required_reference_none: "required_reference d k path = Inr (None, es) \<Longrightarrow> es \<noteq> []"
  by (auto simp: required_reference_def split: prod.splits option.splits elim!: bindR_InrE
      dest: required_string_cases)

lemma parse_credential_refs_none: "parse_credential_refs v path = Inr (None, es) \<Longrightarrow> es \<noteq> []"
  by (auto simp: parse_credential_refs_def Let_def split: json.splits option.splits elim!: bindR_InrE
      dest: required_reference_none)

lemma parse_profile_none:
  assumes "parse_profile d path = Inr (None, es)"
  shows "es \<noteq> []"
proof -
  obtain pid e1 where a1: "required_string d ''profileId'' path = (pid, e1)" by fastforce
  obtain rfc e2 where a2: "required_string d ''rfc'' path = (rfc, e2)" by fastforce
  obtain root e3 where a3: "required_string d ''storageRoot'' path = (root, e3)" by fastforce
  obtain fp e4 where a4: "required_string d ''certificateFingerprint'' path = (fp, e4)" by fastforce
  obtain dl e6 where a6: "parse_download (jget d ''download'') (path @ ''.download'') = (dl, e6)" by fastforce
  obtain rg e7 where a7: "parse_initial_range (jget d ''initialRange'') (path @ ''.initialRange'') = (rg, e7)"
    by fastforce
  obtain lb e8 where a8: "parse_positive_int (jget d ''lookbackDays'') (path @ ''.lookbackDays'') False = (lb, e8)"
    by fastforce
  obtain cn e10 where a10: "parse_positive_int (jget d ''maxConcurrency'') (path @ ''.maxConcurrency'') True = (cn, e10)"
    by fastforce
  obtain sc e12 where a12: "parse_schedule (jget d ''schedule'') (path @ ''.schedule'') = (sc, e12)" by fastforce
  note parts = a1 a2 a3 a4 a6 a7 a8 a10 a12
  obtain rf e13 where a13: "parse_credential_refs (jget d ''credentialRefs'') (path @ ''.credentialRefs'') = Inr (rf, e13)"
    using assms by (auto simp: parse_profile_def parts Let_def elim!: bindR_InrE)
  have "pid = None \<or> rfc = None \<or> root = None \<or> dl = None \<or> cn = None \<or> sc = None \<or> rf = None \<or> fp = None"
    using assms by (auto simp: parse_profile_def parts a13 Let_def split: if_splits)
  moreover have "set e1 \<union> set e2 \<union> set e3 \<union> set e4 \<union> set e6 \<union> set e10 \<union> set e12 \<union> set e13 \<subseteq> set es"
    using assms by (auto simp: parse_profile_def parts a13 Let_def split: if_splits)
  ultimately show ?thesis
    using required_string_cases [OF a1] required_string_cases [OF a2] required_string_cases [OF a3]
      required_string_cases [OF a4] parse_none_errors(1) [of _ _ e6] a6 parse_none_errors(2) [of _ _ e10] a10
      parse_none_errors(3) [of _ _ e12] a12 parse_credential_refs_none [of _ _ e13] a13
    by (elim disjE) auto
qed

lemma parse_profiles_ok:
  "parse_profiles vs i seen = Inr (ps, []) \<Longrightarrow>
     list_all profile_ok ps \<and> length ps = length vs \<and> distinct (map pc_profile_id ps)
     \<and> set (map pc_profile_id ps) \<inter> set seen = {}"
proof (induction vs arbitrary: i seen ps)
  case (Cons v vs)
  then obtain d where v: "v = JObj d"
    by (cases v) (auto simp: Let_def elim!: bindR_InrE)
  define path where "path = ''profiles['' @ int_text (int i) @ '']''"
  obtain q es where q: "parse_profile d path = Inr (q, es)"
    using Cons.prems by (auto simp: v path_def Let_def elim!: bindR_InrE)
  show ?case
  proof (cases q)
    case None
    then have "es = []" using Cons.prems q by (auto simp: v path_def Let_def elim!: bindR_InrE)
    then show ?thesis using parse_profile_none [of d path es] q None by simp
  next
    case (Some pc)
    obtain ps' where rest: "parse_profiles vs (Suc i) (pc_profile_id pc # seen) = Inr (ps', [])"
      and ps: "ps = pc # ps'" and es: "es = []" "pc_profile_id pc \<notin> set seen"
      using Cons.prems q Some by (auto simp: v path_def Let_def elim!: bindR_InrE)
    show ?thesis using Cons.IH [OF rest] parse_profile_ok [OF q [unfolded Some es(1)]] es(2) by (auto simp: ps)
  qed
qed simp


text \<open>Every text and every key of a document, at any depth.\<close>

fun json_texts :: "json \<Rightarrow> string list" and field_texts :: "(string \<times> json) list \<Rightarrow> string list"
  and elem_texts :: "json list \<Rightarrow> string list" where
  "json_texts (JObj d) = field_texts d"
| "json_texts (JArr xs) = elem_texts xs"
| "json_texts (JStr s) = [s]"
| "json_texts _ = []"
| "field_texts [] = []"
| "field_texts ((k, v) # d) = json_texts v @ field_texts d"
| "elem_texts [] = []"
| "elem_texts (v # vs) = json_texts v @ elem_texts vs"

fun json_keys :: "json \<Rightarrow> string list" and field_keys :: "(string \<times> json) list \<Rightarrow> string list"
  and elem_keys :: "json list \<Rightarrow> string list" where
  "json_keys (JObj d) = field_keys d"
| "json_keys (JArr xs) = elem_keys xs"
| "json_keys _ = []"
| "field_keys [] = []"
| "field_keys ((k, v) # d) = k # json_keys v @ field_keys d"
| "elem_keys [] = []"
| "elem_keys (v # vs) = json_keys v @ elem_keys vs"

definition no_credentials :: "string list \<Rightarrow> string list \<Rightarrow> bool" where
  "no_credentials texts keys \<longleftrightarrow>
     (\<forall>s \<in> set texts. \<not> sensitive_string s)
     \<and> (\<forall>k \<in> set keys. \<not> looks_like_raw_credential_key (normalize_key k))"

lemma raw_credential_fields_Nil:
  "raw_credential_fields v path = [] \<longleftrightarrow> no_credentials (json_texts v) (json_keys v)"
  "raw_credential_items d path = [] \<longleftrightarrow> no_credentials (field_texts d) (field_keys d)"
  "raw_credential_elems vs path i = [] \<longleftrightarrow> no_credentials (elem_texts vs) (elem_keys vs)"
  by (induction v path and d path and vs path i
      rule: raw_credential_fields_raw_credential_items_raw_credential_elems.induct)
     (auto simp: no_credentials_def)

lemma validate_config_cases:
  assumes "validate_config d = Inr c"
  obtains v vs ps where "jget d ''profiles'' = JArr (v # vs)" "parse_profiles (v # vs) 0 [] = Inr (ps, [])"
    "raw_credential_fields (JObj d) ''config'' = []" "json_is_one (jget d ''schemaVersion'')"
    "c = \<lparr>ac_schema_version = 1, ac_profiles = ps\<rparr>"
  using assms by (auto simp: validate_config_def Let_def split: if_splits json.splits list.splits elim!: bindR_InrE)

text \<open>C26: an accepted configuration has at least one profile; its profile ids are distinct and each is
  found again by \<open>get_profile\<close>; every profile has a well-formed id, RFC and fingerprint, between 1 and
  10 workers, exactly one of an initial range and a lookback, a direction to download, a runnable
  schedule, and credential references of an allowed scheme that name no key file; and no key or text of
  the document, at any depth, looks like credential material.\<close>

theorem accepted_config_is_safe:
  assumes "validate_config d = Inr c"
  shows "ac_profiles c \<noteq> [] \<and> list_all profile_ok (ac_profiles c)
    \<and> (\<forall>p \<in> set (ac_profiles c). get_profile c (pc_profile_id p) = Inr p)
    \<and> no_credentials (json_texts (JObj d)) (json_keys (JObj d))"
  using assms
proof (cases rule: validate_config_cases)
  case (1 v vs ps)
  have ps: "list_all profile_ok ps" "length ps = length (v # vs)" "distinct (map pc_profile_id ps)"
    using parse_profiles_ok [OF 1(2)] by auto
  have "find (\<lambda>q. pc_profile_id q = pc_profile_id p) ps = Some p" if "p \<in> set ps" for p
    using ps(3) that by (induction ps) (auto simp: image_iff)
  moreover have "no_credentials (json_texts (JObj d)) (json_keys (JObj d))"
    using 1(3) by (simp only: raw_credential_fields_Nil)
  ultimately show ?thesis using ps 1(5) by (auto simp: get_profile_def)
qed

definition example_config :: jobj where
  "example_config =
     [(''schemaVersion'', JInt 1),
      (''profiles'', JArr [JObj
        [(''profileId'', JStr ''main''), (''rfc'', JStr ''aaa010101aaa''), (''storageRoot'', JStr ''storage''),
         (''download'', JObj [(''issued'', JBool True), (''received'', JBool False), (''metadataFirst'', JBool True)]),
         (''lookbackDays'', JInt 30), (''maxConcurrency'', JInt 2),
         (''schedule'', JObj [(''enabled'', JBool True), (''dailyAt'', JStr ''06:30'')]),
         (''certificateFingerprint'',
            JStr ''0123456789abcdef0123456789abcdef0123456789abcdef0123456789abcdef''),
         (''credentialRefs'', JObj
            [(''certificateRef'', JStr ''vault://a/certificate''), (''privateKeyRef'', JStr ''vault://a/key''),
             (''passphraseRef'', JStr ''kms://b'')])]])]"

lemma example_config_fields: "raw_credential_fields (JObj example_config) ''config'' = []"
  by code_simp

lemma example_config_profiles:
  "(case parse_profiles (case jget example_config ''profiles'' of JArr xs \<Rightarrow> xs | _ \<Rightarrow> []) 0 [] of
      Inr (ps, es) \<Rightarrow> es = [] | _ \<Rightarrow> False)"
  by code_simp

lemma example_config_accepted: "\<exists>c. validate_config example_config = Inr c"
proof -
  obtain v vs where vs: "jget example_config ''profiles'' = JArr (v # vs)"
    by (simp add: example_config_def)
  obtain ps where "parse_profiles (v # vs) 0 [] = Inr (ps, [])"
    using example_config_profiles unfolding vs by (auto split: sum.splits)
  moreover have "unknown_keys example_config ''config'' [''schemaVersion'', ''profiles''] = []"
    "json_is_one (jget example_config ''schemaVersion'')"
    by (simp_all add: unknown_keys_def example_config_def json_is_one_def)
  ultimately show ?thesis
    using example_config_fields vs by (simp add: validate_config_def Let_def)
qed

theorem accepted_config_is_safe_witness:
  "\<exists>c. validate_config example_config = Inr c \<and> list_all profile_ok (ac_profiles c)"
  using example_config_accepted accepted_config_is_safe by blast

text \<open>A document with credential material anywhere, in a key or in a text, is rejected, whatever
  else it holds.\<close>

theorem credential_material_is_rejected:
  assumes "(\<exists>s \<in> set (json_texts (JObj d)). sensitive_string s)
    \<or> (\<exists>k \<in> set (json_keys (JObj d)). looks_like_raw_credential_key (normalize_key k))"
  shows "validate_config d \<noteq> Inr c"
  using accepted_config_is_safe [of d c] assms by (auto simp: no_credentials_def)

theorem credential_material_is_rejected_witness:
  "\<forall>c. validate_config (example_config @ [(''x'', JArr [JObj [(''Api_Token'', JNull)]])]) \<noteq> Inr c"
proof (intro allI credential_material_is_rejected)
  have "looks_like_raw_credential_key (normalize_key ''Api_Token'')" by code_simp
  then show "(\<exists>s \<in> set (json_texts (JObj (example_config @ [(''x'', JArr [JObj [(''Api_Token'', JNull)]])]))). sensitive_string s)
    \<or> (\<exists>k \<in> set (json_keys (JObj (example_config @ [(''x'', JArr [JObj [(''Api_Token'', JNull)]])]))).
          looks_like_raw_credential_key (normalize_key k))"
    by (simp add: example_config_def)
qed

end
