(* ===== verification/SetupCore.thy ===== *)
theory SetupCore
  imports Config
begin

text \<open>
  \<open>src/cfdi_vault/setup_core.py\<close>: profile ids and RFCs, the folders of a profile under the local
  application data, and the profile document. A home directory and the environment (a list of
  variables) are arguments; the profile files are a map from paths to contents.
\<close>

definition APPDATA_DIR_NAME :: string where "APPDATA_DIR_NAME = ''cfdi-vault-mx''"

datatype CredentialMode = COPIED | REFERENCED

fun CredentialMode_value :: "CredentialMode \<Rightarrow> string" where
  "CredentialMode_value COPIED = ''copied''"
| "CredentialMode_value REFERENCED = ''referenced''"

datatype LocalProfileStatus = LP_READY | LP_MISSING | LP_INSECURE

fun LocalProfileStatus_value :: "LocalProfileStatus \<Rightarrow> string" where
  "LocalProfileStatus_value LP_READY = ''ready''"
| "LocalProfileStatus_value LP_MISSING = ''missing''"
| "LocalProfileStatus_value LP_INSECURE = ''insecure''"

definition CredentialMode_of :: "string \<Rightarrow> CredentialMode option" where
  "CredentialMode_of s =
     (if s = ''copied'' then Some COPIED else if s = ''referenced'' then Some REFERENCED else None)"

definition LocalProfileStatus_of :: "string \<Rightarrow> LocalProfileStatus option" where
  "LocalProfileStatus_of s =
     (if s = ''ready'' then Some LP_READY else if s = ''missing'' then Some LP_MISSING
      else if s = ''insecure'' then Some LP_INSECURE else None)"

lemma enum_roundtrips [simp]:
  "CredentialMode_of (CredentialMode_value m) = Some m"
  "LocalProfileStatus_of (LocalProfileStatus_value st) = Some st"
  by (cases m; simp add: CredentialMode_of_def) (cases st; simp add: LocalProfileStatus_of_def)

record AppDataPaths =
  ap_base_dir :: ppath
  ap_profiles_dir :: ppath
  ap_profile_dir :: ppath
  ap_profile_json :: ppath
  ap_credentials_dir :: ppath
  ap_storage_root :: ppath

record LocalProfile =
  lp_profile_id :: string
  lp_rfc :: string
  lp_storage_root :: ppath
  lp_credential_mode :: CredentialMode
  lp_certificate_path :: ppath
  lp_private_key_path :: ppath
  lp_phrase_ref :: string
  lp_status :: LocalProfileStatus
  lp_certificate_fingerprint :: string

definition profile_to_document :: "LocalProfile \<Rightarrow> jobj" where
  "profile_to_document p =
     [(''profileId'', JStr (lp_profile_id p)), (''rfc'', JStr (lp_rfc p)),
      (''storageRoot'', JStr (path_str (lp_storage_root p))),
      (''credentialMode'', JStr (CredentialMode_value (lp_credential_mode p))),
      (''certificatePath'', JStr (path_str (lp_certificate_path p))),
      (''privateKeyPath'', JStr (path_str (lp_private_key_path p))),
      (''passwordRef'', JStr (lp_phrase_ref p)),
      (''status'', JStr (LocalProfileStatus_value (lp_status p))),
      (''certificateFingerprint'', JStr (lp_certificate_fingerprint p))]"

subsection \<open>Ids, RFCs and paths\<close>

definition validate_rfc :: "string \<Rightarrow> string result" where
  "validate_rfc v =
     (let n = py_upper (py_strip v) in
      if rfc_shape n then Inr n
      else Inl (SetupError [''RFC must be 12 or 13 uppercase RFC-shaped characters'']))"

definition validate_profile_id :: "string \<Rightarrow> string result" where
  "validate_profile_id v =
     (let n = py_strip v in
      if profile_id_shape n then Inr n
      else Inl (SetupError [''profile id must use 2-64 letters, numbers, dot, underscore, or dash'']))"

text \<open>\<open>expanduser\<close>: a leading tilde part is the home directory.\<close>

definition expanduser :: "ppath \<Rightarrow> ppath \<Rightarrow> ppath" where
  "expanduser home p =
     (if pp_root p = [] \<and> pp_parts p \<noteq> [] \<and> hd (pp_parts p) = ''~''
      then home\<lparr>pp_parts := pp_parts home @ tl (pp_parts p)\<rparr> else p)"

definition resolve_appdata_root :: "(string \<times> string) list \<Rightarrow> ppath \<Rightarrow> ppath" where
  "resolve_appdata_root env home =
     (case map_of env ''LOCALAPPDATA'' of
        Some s \<Rightarrow> (if s \<noteq> [] \<and> py_strip s \<noteq> []
                   then path_join (expanduser home (mk_path s)) APPDATA_DIR_NAME
                   else path_join (path_join (path_join home ''AppData'') ''Local'') APPDATA_DIR_NAME)
      | None \<Rightarrow> path_join (path_join (path_join home ''AppData'') ''Local'') APPDATA_DIR_NAME)"

definition build_profile_paths :: "string \<Rightarrow> (string \<times> string) list \<Rightarrow> ppath \<Rightarrow> AppDataPaths result" where
  "build_profile_paths profile_id env home =
     bindR (validate_profile_id profile_id) (\<lambda>safe.
       let base = resolve_appdata_root env home; profiles = path_join base ''profiles'';
           dir = path_join profiles safe in
       Inr \<lparr>ap_base_dir = base, ap_profiles_dir = profiles, ap_profile_dir = dir,
         ap_profile_json = path_join dir ''profile.json'', ap_credentials_dir = path_join dir ''credentials'',
         ap_storage_root = path_join (path_join base ''storage'') safe\<rparr>)"

definition default_phrase_reference :: "string \<Rightarrow> string result" where
  "default_phrase_reference profile_id =
     bindR (validate_profile_id profile_id) (\<lambda>safe.
       Inr (''windows-credential-manager://cfdi-vault/setup/'' @ safe @ ''/private-key-phrase''))"

subsection \<open>The profile document\<close>

definition required_text :: "jobj \<Rightarrow> string \<Rightarrow> string option \<times> string list" where
  "required_text d key =
     (case jget d key of
        JStr s \<Rightarrow> (if py_strip s = [] then (None, [''profile.'' @ key @ '' must be a non-empty string''])
                   else (Some s, []))
      | _ \<Rightarrow> (None, [''profile.'' @ key @ '' must be a non-empty string'']))"

definition profile_fields :: "string list" where
  "profile_fields = [''profileId'', ''rfc'', ''storageRoot'', ''credentialMode'', ''certificatePath'',
     ''privateKeyPath'', ''passwordRef'', ''status'', ''certificateFingerprint'']"

definition profile_from_document :: "jobj \<Rightarrow> LocalProfile result" where
  "profile_from_document d =
     (let errors = concat (map (snd \<circ> required_text d) profile_fields);
          text = (\<lambda>k. the (fst (required_text d k))) in
      if errors \<noteq> [] then Inl (SetupError errors)
      else case (CredentialMode_of (text ''credentialMode''), LocalProfileStatus_of (text ''status'')) of
        (Some mode, Some status) \<Rightarrow>
          bindR (validate_profile_id (text ''profileId'')) (\<lambda>pid.
          bindR (validate_rfc (text ''rfc'')) (\<lambda>rfc.
          Inr \<lparr>lp_profile_id = pid, lp_rfc = rfc, lp_storage_root = mk_path (text ''storageRoot''),
            lp_credential_mode = mode, lp_certificate_path = mk_path (text ''certificatePath''),
            lp_private_key_path = mk_path (text ''privateKeyPath''), lp_phrase_ref = text ''passwordRef'',
            lp_status = status, lp_certificate_fingerprint = text ''certificateFingerprint''\<rparr>))
      | _ \<Rightarrow> Inl (SetupError [''profile contains an unsupported credential mode or status'']))"

datatype profile_file = PfInvalidJson string | PfDoc jobj

type_synonym profile_fs = "ppath \<Rightarrow> profile_file option"

definition load_profile ::
  "profile_fs \<Rightarrow> string \<Rightarrow> (string \<times> string) list \<Rightarrow> ppath \<Rightarrow> LocalProfile result" where
  "load_profile fs profile_id env home =
     bindR (build_profile_paths profile_id env home) (\<lambda>paths.
       case fs (ap_profile_json paths) of
         None \<Rightarrow> Inl (SetupError [''profile is not configured: '' @ profile_id])
       | Some (PfInvalidJson m) \<Rightarrow> Inl (SetupError [''profile JSON is invalid: '' @ m])
       | Some (PfDoc d) \<Rightarrow> profile_from_document d)"

definition write_profile :: "profile_fs \<Rightarrow> LocalProfile \<Rightarrow> ppath \<Rightarrow> profile_fs" where
  "write_profile fs p path = fs(path \<mapsto> PfDoc (profile_to_document p))"

subsection \<open>Redaction\<close>

definition redact_rfc :: "string \<Rightarrow> string" where
  "redact_rfc v =
     (let n = py_upper (py_strip v) in
      if length n \<le> 4 then replicate (length n) (CHR ''*'')
      else take 2 n @ replicate (length n - 4) (CHR ''*'') @ drop (length n - 2) n)"

definition redact_fingerprint :: "string \<Rightarrow> string" where
  "redact_fingerprint v =
     (let c = py_lower (py_strip v) in
      if length c \<le> 12 then ''<redacted>'' else take 6 c @ ''...'' @ drop (length c - 6) c)"

subsection \<open>Facts\<close>

lemma profile_id_no_space:
  assumes "profile_id_shape s"
  shows "py_strip s = s"
proof -
  have sp: "char_is_space c \<Longrightarrow> \<not> (char_is_alnum c \<or> c \<in> {CHR ''_'', CHR ''.'', CHR ''-''})" for c
    by (auto simp: char_is_space_def char_is_alnum_def char_is_digit_def char_is_upper_def
        char_is_lower_def char_code_def)
  have "1 \<le> length (tl s)" and ne: "s \<noteq> []"
    using assms by (auto simp: profile_id_shape_def class_run_def)
  then have ne2: "tl s \<noteq> []" by (cases "tl s") simp_all
  have "\<not> char_is_space (hd s)" using assms sp by (auto simp: profile_id_shape_def)
  moreover have "last s \<in> set (tl s)" using ne2 by (metis last_in_set last_tl)
  then have "\<not> char_is_space (last s)"
    using assms sp [of "last s"] by (auto simp: profile_id_shape_def class_run_def list_all_iff)
  ultimately show ?thesis using ne by (intro py_strip_fixed)
qed

lemma validate_profile_id_Inr: "validate_profile_id v = Inr p \<longleftrightarrow> p = py_strip v \<and> profile_id_shape p"
  by (auto simp: validate_profile_id_def Let_def)

lemma validate_profile_id_idem: "validate_profile_id v = Inr p \<Longrightarrow> validate_profile_id p = Inr p"
  by (auto simp: validate_profile_id_Inr)

lemma validate_rfc_Inr: "validate_rfc v = Inr r \<longleftrightarrow> r = py_upper (py_strip v) \<and> rfc_shape r"
  by (auto simp: validate_rfc_def Let_def)

lemma rfc_shape_strip:
  assumes "rfc_shape r"
  shows "py_strip r = r"
proof -
  have sp: "char_is_space c \<Longrightarrow> \<not> (char_is_alpha c \<or> c = CHR ''&'')" "char_is_space c \<Longrightarrow> \<not> char_is_alnum c" for c
    by (auto simp: char_is_space_def char_is_alnum_def char_is_alpha_def char_is_digit_def char_is_upper_def
        char_is_lower_def char_code_def)
  obtain n where n: "n = 3 \<or> n = 4" "rfc_shape_at n r" using assms by (auto simp: rfc_shape_def)
  have ne: "r \<noteq> []" "0 < n" "n + 6 < length r" using n by (auto simp: rfc_shape_at_def)
  have "hd r \<in> set (take n r)" using ne by (cases r; cases n) auto
  then have "\<not> char_is_space (hd r)"
    using n(2) sp(1) [of "hd r"] by (auto simp: rfc_shape_at_def list_all_iff)
  moreover have "last r \<in> set (drop (n + 6) r)"
    using ne(3) by (metis drop_eq_Nil last_drop last_in_set not_le)
  then have "\<not> char_is_space (last r)"
    using n(2) sp(2) [of "last r"] by (auto simp: rfc_shape_at_def list_all_iff)
  ultimately show ?thesis using ne(1) by (intro py_strip_fixed)
qed

definition profile_valid :: "LocalProfile \<Rightarrow> bool" where
  "profile_valid p \<longleftrightarrow>
     profile_id_shape (lp_profile_id p) \<and> rfc_shape (lp_rfc p) \<and> py_upper (lp_rfc p) = lp_rfc p
     \<and> path_ok (lp_storage_root p) \<and> path_ok (lp_certificate_path p) \<and> path_ok (lp_private_key_path p)
     \<and> py_strip (path_str (lp_storage_root p)) \<noteq> [] \<and> py_strip (path_str (lp_certificate_path p)) \<noteq> []
     \<and> py_strip (path_str (lp_private_key_path p)) \<noteq> []
     \<and> py_strip (lp_phrase_ref p) \<noteq> [] \<and> py_strip (lp_certificate_fingerprint p) \<noteq> []"

lemma required_text_JStr: "jget d k = JStr s \<Longrightarrow> py_strip s \<noteq> [] \<Longrightarrow> required_text d k = (Some s, [])"
  by (simp add: required_text_def)

lemma value_strip [simp]:
  "py_strip (CredentialMode_value m) \<noteq> []" "py_strip (LocalProfileStatus_value st) \<noteq> []"
proof -
  have "py_strip ''copied'' \<noteq> []" "py_strip ''referenced'' \<noteq> []" "py_strip ''ready'' \<noteq> []"
    "py_strip ''missing'' \<noteq> []" "py_strip ''insecure'' \<noteq> []" by code_simp+
  then show "py_strip (CredentialMode_value m) \<noteq> []" "py_strip (LocalProfileStatus_value st) \<noteq> []"
    by (cases m, simp_all) (cases st, simp_all)
qed

lemma profile_document_roundtrip:
  assumes "profile_valid p"
  shows "profile_from_document (profile_to_document p) = Inr p"
proof -
  have ne: "py_strip (lp_profile_id p) \<noteq> []" "py_strip (lp_rfc p) \<noteq> []"
    using assms profile_id_no_space [of "lp_profile_id p"] rfc_shape_strip [of "lp_rfc p"]
    by (auto simp: profile_valid_def profile_id_shape_def rfc_shape_def rfc_shape_at_def)
  let ?d = "profile_to_document p"
  have t: "required_text ?d ''profileId'' = (Some (lp_profile_id p), [])"
    "required_text ?d ''rfc'' = (Some (lp_rfc p), [])"
    "required_text ?d ''storageRoot'' = (Some (path_str (lp_storage_root p)), [])"
    "required_text ?d ''credentialMode'' = (Some (CredentialMode_value (lp_credential_mode p)), [])"
    "required_text ?d ''certificatePath'' = (Some (path_str (lp_certificate_path p)), [])"
    "required_text ?d ''privateKeyPath'' = (Some (path_str (lp_private_key_path p)), [])"
    "required_text ?d ''passwordRef'' = (Some (lp_phrase_ref p), [])"
    "required_text ?d ''status'' = (Some (LocalProfileStatus_value (lp_status p)), [])"
    "required_text ?d ''certificateFingerprint'' = (Some (lp_certificate_fingerprint p), [])"
    using assms ne by (simp_all add: required_text_JStr profile_to_document_def profile_valid_def)
  have v: "validate_profile_id (lp_profile_id p) = Inr (lp_profile_id p)" "validate_rfc (lp_rfc p) = Inr (lp_rfc p)"
    using assms profile_id_no_space rfc_shape_strip
    by (auto simp: validate_profile_id_Inr validate_rfc_Inr profile_valid_def)
  have paths: "mk_path (path_str (lp_storage_root p)) = lp_storage_root p"
    "mk_path (path_str (lp_certificate_path p)) = lp_certificate_path p"
    "mk_path (path_str (lp_private_key_path p)) = lp_private_key_path p"
    using assms by (simp_all add: profile_valid_def)
  have errs: "concat (map (snd \<circ> required_text ?d) profile_fields) = []" by (simp add: profile_fields_def t)
  show ?thesis unfolding profile_from_document_def Let_def errs by (simp add: t v paths)
qed

text \<open>Every profile file lies in the folder of its profile: the id is one part of the path.\<close>

lemma profile_id_part:
  assumes "profile_id_shape s"
  shows "path_root s = []" "path_parts s = [s]" "s \<noteq> ''..''"
proof -
  have slash: "\<not> (char_is_alnum (CHR ''/'') \<or> CHR ''/'' \<in> {CHR ''_'', CHR ''.'', CHR ''-''})"
    and dot: "\<not> char_is_alnum (CHR ''.'')"
    by code_simp+
  have ne: "s \<noteq> []" "char_is_alnum (hd s)" using assms by (auto simp: profile_id_shape_def)
  have "CHR ''/'' \<notin> set (tl s)"
    using assms slash by (auto simp: profile_id_shape_def class_run_def list_all_iff)
  moreover have "hd s \<noteq> CHR ''/''" using ne(2) slash by auto
  ultimately have no: "CHR ''/'' \<notin> set s" using ne(1) by (cases s) auto
  have d: "s \<noteq> ''.''" "s \<noteq> ''..''" using ne(2) dot by auto
  then show "s \<noteq> ''..''" by simp
  show "path_root s = []" using no by (cases s) (auto simp: path_root_def py_startswith_def)
  show "path_parts s = [s]" using split_on_aux_absent [OF no, of "[]"] ne(1) d(1)
    by (simp add: path_parts_def split_on_def)
qed


lemma path_join_part:
  "path_root s = [] \<Longrightarrow> path_parts s = [s] \<Longrightarrow> path_join p s = p\<lparr>pp_parts := pp_parts p @ [s]\<rparr>"
  by (simp add: path_join_def)

lemma fixed_parts:
  "path_root ''profile.json'' = []" "path_parts ''profile.json'' = [''profile.json'']"
  "path_root ''profiles'' = []" "path_parts ''profiles'' = [''profiles'']"
  "path_root ''credentials'' = []" "path_parts ''credentials'' = [''credentials'']"
  "path_root ''storage'' = []" "path_parts ''storage'' = [''storage'']"
  "path_root ''permits'' = []" "path_parts ''permits'' = [''permits'']"
  by code_simp+

lemma build_profile_paths_json:
  assumes "build_profile_paths i env home = Inr paths"
  shows "ap_profile_json paths = (resolve_appdata_root env home)\<lparr>pp_parts :=
      pp_parts (resolve_appdata_root env home) @ [''profiles'', py_strip i, ''profile.json'']\<rparr>"
    and "profile_id_shape (py_strip i)"
  using assms profile_id_part [of "py_strip i"]
  by (auto simp: build_profile_paths_def validate_profile_id_Inr Let_def path_join_part fixed_parts
      elim!: bindR_InrE)

text \<open>C27: a valid profile written for an id is what loading that id returns, in the same environment;
  and loading any other id is not affected: the file of a profile is in a folder of its own under the
  application data.\<close>

theorem saved_profile_is_loaded:
  assumes "build_profile_paths i env home = Inr paths" and "profile_valid p"
  shows "load_profile (write_profile fs p (ap_profile_json paths)) i env home = Inr p
    \<and> (\<forall>j. py_strip j \<noteq> py_strip i \<longrightarrow>
          load_profile (write_profile fs p (ap_profile_json paths)) j env home = load_profile fs j env home)"
proof (intro conjI allI impI)
  show "load_profile (write_profile fs p (ap_profile_json paths)) i env home = Inr p"
    using assms by (simp add: load_profile_def write_profile_def profile_document_roundtrip)
next
  fix j assume j: "py_strip j \<noteq> py_strip i"
  show "load_profile (write_profile fs p (ap_profile_json paths)) j env home = load_profile fs j env home"
  proof (cases "build_profile_paths j env home")
    case (Inr q)
    have "pp_parts (ap_profile_json q) \<noteq> pp_parts (ap_profile_json paths)"
      using build_profile_paths_json(1) [OF Inr] build_profile_paths_json(1) [OF assms(1)] j by simp
    then have "ap_profile_json q \<noteq> ap_profile_json paths" by auto
    then show ?thesis using Inr by (simp add: load_profile_def write_profile_def)
  qed (simp add: load_profile_def)
qed

definition example_profile :: LocalProfile where
  "example_profile = \<lparr>lp_profile_id = ''main'', lp_rfc = ''AAA010101AAA'', lp_storage_root = mk_path ''/s'',
     lp_credential_mode = COPIED, lp_certificate_path = mk_path ''/c.cer'', lp_private_key_path = mk_path ''/k.key'',
     lp_phrase_ref = ''vault://a'', lp_status = LP_READY, lp_certificate_fingerprint = ''f''\<rparr>"

lemma example_profile_valid: "profile_valid example_profile"
proof -
  have "profile_id_shape ''main''" "rfc_shape ''AAA010101AAA''" "py_upper ''AAA010101AAA'' = ''AAA010101AAA''"
    "py_strip (path_str (mk_path ''/s'')) \<noteq> []" "py_strip (path_str (mk_path ''/c.cer'')) \<noteq> []"
    "py_strip (path_str (mk_path ''/k.key'')) \<noteq> []" "py_strip ''vault://a'' \<noteq> []" "py_strip ''f'' \<noteq> []"
    by code_simp+
  then show ?thesis by (simp add: profile_valid_def example_profile_def)
qed

theorem saved_profile_is_loaded_witness:
  "\<exists>paths. build_profile_paths '' main '' [] (mk_path ''/home'') = Inr paths
    \<and> load_profile (write_profile Map.empty example_profile (ap_profile_json paths)) '' main '' [] (mk_path ''/home'')
      = Inr example_profile"
proof -
  have "validate_profile_id '' main '' = Inr ''main''" by code_simp
  then obtain paths where paths: "build_profile_paths '' main '' [] (mk_path ''/home'') = Inr paths"
    by (simp add: build_profile_paths_def Let_def)
  then show ?thesis using saved_profile_is_loaded [OF paths example_profile_valid, of Map.empty] by blast
qed

end
