(* ===== verification/Reconciliation.thy ===== *)
theory Reconciliation
  imports SatContract
begin

text \<open>
  \<open>src/cfdi_vault/reconciliation.py\<close>: what one metadata row asks for, given the XML evidence and the
  previous status, and what to do next with a UUID after an error.
\<close>

definition CANCELLED_STATUSES :: "string list" where
  "CANCELLED_STATUSES = [''cancelado'', ''cancelada'', ''cancelled'', ''canceled'']"
definition TRANSIENT_STATUSES :: "string list" where
  "TRANSIENT_STATUSES = [''en_proceso'', ''en proceso'', ''processing'', ''pending'']"


record ReconciliationDecision =
  rd_state :: ReconciliationState
  rd_reason :: string
  rd_should_download_xml :: bool
  rd_should_check_status :: bool

definition decision :: "ReconciliationState \<Rightarrow> string \<Rightarrow> bool \<Rightarrow> bool \<Rightarrow> ReconciliationDecision" where
  "decision s m d c =
     \<lparr>rd_state = s, rd_reason = m, rd_should_download_xml = d, rd_should_check_status = c\<rparr>"

definition normalize_text :: "string \<Rightarrow> string" where
  "normalize_text s = py_lower (py_strip s)"

definition status_changed :: "string \<Rightarrow> string option \<Rightarrow> bool" where
  "status_changed status previous \<longleftrightarrow>
     (let prev = normalize_text (opt_str previous) in prev \<noteq> [] \<and> prev \<noteq> normalize_text status)"

definition decide_metadata_state ::
  "string \<Rightarrow> bool \<Rightarrow> bool \<Rightarrow> string option \<Rightarrow> ReconciliationDecision" where
  "decide_metadata_state status has_xml is_new previous =
     (let normalized = normalize_text status; changed = status_changed status previous in
      if has_xml then
        decision XML_DOWNLOADED ''xml evidence already exists'' False
          (changed \<or> normalized \<in> set CANCELLED_STATUSES)
      else if normalized \<in> set CANCELLED_STATUSES then
        decision CANCELLED_METADATA ''metadata reports cancellation'' False True
      else if normalized \<in> set TRANSIENT_STATUSES \<or> changed then
        decision STATE_CHECK_PENDING ''metadata status needs confirmation'' False True
      else if is_new then
        decision DISCOVERED_IN_METADATA ''new UUID discovered in metadata'' True False
      else decision XML_PENDING ''metadata exists without XML evidence'' True False)"



lemma decision_select [simp]:
  "rd_state (decision s m d c) = s" "rd_should_download_xml (decision s m d c) = d"
  "rd_should_check_status (decision s m d c) = c"
  by (simp_all add: decision_def)

lemmas decide_cases = decide_metadata_state_def Let_def

text \<open>C40: a row asks for its XML exactly when there is no XML evidence, the status is neither a
  cancellation nor in transit, and it has not changed; it never asks for the XML and for a status
  check at once, and a row with evidence is XML_DOWNLOADED whatever its status.\<close>

theorem metadata_decision:
  "(rd_should_download_xml (decide_metadata_state status has_xml is_new previous) \<longleftrightarrow>
      \<not> has_xml \<and> normalize_text status \<notin> set CANCELLED_STATUSES
      \<and> normalize_text status \<notin> set TRANSIENT_STATUSES \<and> \<not> status_changed status previous)
   \<and> \<not> (rd_should_download_xml (decide_metadata_state status has_xml is_new previous)
         \<and> rd_should_check_status (decide_metadata_state status has_xml is_new previous))
   \<and> (has_xml \<longleftrightarrow> rd_state (decide_metadata_state status has_xml is_new previous) = XML_DOWNLOADED)
   \<and> (rd_should_check_status (decide_metadata_state status has_xml is_new previous) \<longleftrightarrow>
        normalize_text status \<in> set CANCELLED_STATUSES \<or> status_changed status previous
        \<or> \<not> has_xml \<and> normalize_text status \<in> set TRANSIENT_STATUSES)"
  unfolding decide_cases by (simp split: if_split)

theorem metadata_decision_witness:
  "rd_should_download_xml (decide_metadata_state ''Vigente'' False True (Some ''vigente''))"
proof -
  have "normalize_text ''Vigente'' = ''vigente''" "normalize_text ''vigente'' = ''vigente''" by code_simp+
  then show ?thesis
    using metadata_decision [of "''Vigente''" False True "Some ''vigente''"]
    by (simp add: status_changed_def opt_str_def CANCELLED_STATUSES_def TRANSIENT_STATUSES_def)
qed



end
