(* ===== verification/Orchestration.thy ===== *)
theory Orchestration
  imports Reconciliation
begin

text \<open>
  \<open>src/cfdi_vault/sat_orchestration.py\<close>: the registry of submitted requests, the service that submits
  and polls them, and the metadata-first run.

  The SAT ports are a parameter: \<open>sat_ports\<close> gives the answer of each operation as a function of the
  calls made before it, so an answer may depend on the whole history, and may raise. Every operation
  that talks to the SAT takes and returns that history.
\<close>

subsection \<open>The ports\<close>

datatype sat_call = CallAuth | CallSubmit DownloadQuery | CallVerify string | CallDownload string

record sat_ports =
  port_authenticate :: "sat_call list \<Rightarrow> SatAuthResult result"
  port_submit :: "sat_call list \<Rightarrow> DownloadQuery \<Rightarrow> SatRequestResult result"
  port_verify :: "sat_call list \<Rightarrow> string \<Rightarrow> SatVerificationResult result"
  port_download :: "sat_call list \<Rightarrow> string \<Rightarrow> SatDownloadResult result"

subsection \<open>The registry\<close>

record RegisteredSatRequest =
  rq_tenant_id :: string
  rq_criteria_hash :: string
  rq_request_id :: string
  rq_request_result :: SatRequestResult
  rq_state :: "SatRequestState option"
  rq_action :: "SatOutcomeAction option"
  rq_message :: string
  rq_package_ids :: "string list"

record registry =
  by_criteria :: "string \<times> string \<Rightarrow> RegisteredSatRequest option"
  by_request_id :: "string \<Rightarrow> RegisteredSatRequest option"

definition empty_registry :: registry where
  "empty_registry = \<lparr>by_criteria = Map.empty, by_request_id = Map.empty\<rparr>"

definition find_by_query :: "registry \<Rightarrow> DownloadQuery \<Rightarrow> RegisteredSatRequest option" where
  "find_by_query g q = by_criteria g (q_tenant_id q, criteria_hash q)"

definition store_registered :: "RegisteredSatRequest \<Rightarrow> registry \<Rightarrow> registry" where
  "store_registered r g =
     \<lparr>by_criteria = (by_criteria g)((rq_tenant_id r, rq_criteria_hash r) \<mapsto> r),
      by_request_id = (by_request_id g)(rq_request_id r \<mapsto> r)\<rparr>"

definition register_submission ::
  "DownloadQuery \<Rightarrow> SatRequestResult \<Rightarrow> registry \<Rightarrow> RegisteredSatRequest \<times> registry" where
  "register_submission q res g =
     (case find_by_query g q of
        Some r \<Rightarrow> (r, g)
      | None \<Rightarrow>
          let r = \<lparr>rq_tenant_id = q_tenant_id q, rq_criteria_hash = criteria_hash q,
                rq_request_id = rr_request_id res, rq_request_result = res, rq_state = None,
                rq_action = Some (rr_action res), rq_message = rr_message res, rq_package_ids = []\<rparr>
          in (r, store_registered r g))"

fun append_unique_aux :: "string list \<Rightarrow> string set \<Rightarrow> string list \<Rightarrow> string list" where
  "append_unique_aux merged seen [] = merged"
| "append_unique_aux merged seen (p # ps) =
     (if p \<notin> seen then append_unique_aux (merged @ [p]) (insert p seen) ps
      else append_unique_aux merged seen ps)"

definition append_unique :: "string list \<Rightarrow> string list \<Rightarrow> string list" where
  "append_unique existing incoming = append_unique_aux existing (set existing) incoming"

definition record_verification ::
  "string \<Rightarrow> SatRequestState \<Rightarrow> SatOutcomeAction \<Rightarrow> string \<Rightarrow> string list \<Rightarrow> registry
    \<Rightarrow> (RegisteredSatRequest \<times> registry) result" where
  "record_verification request_id state action message package_ids g =
     (case by_request_id g request_id of
        None \<Rightarrow> Inl (KeyError request_id)
      | Some r \<Rightarrow>
          let merged = append_unique (rq_package_ids r) package_ids;
              updated = r\<lparr>rq_state := Some state, rq_action := Some action, rq_message := message,
                          rq_package_ids := (if action = ACT_FINISHED then merged else rq_package_ids r)\<rparr>
          in Inr (updated, store_registered updated g))"

subsection \<open>Submitting and polling\<close>

record orchestrator =
  or_registry :: registry
  or_calls :: "sat_call list"

definition submit_once ::
  "sat_ports \<Rightarrow> DownloadQuery \<Rightarrow> orchestrator \<Rightarrow> RegisteredSatRequest result \<times> orchestrator" where
  "submit_once ports q s =
     (case find_by_query (or_registry s) q of
        Some r \<Rightarrow> (Inr r, s)
      | None \<Rightarrow>
          let s1 = s\<lparr>or_calls := or_calls s @ [CallSubmit q]\<rparr> in
          (case port_submit ports (or_calls s) q of
             Inl e \<Rightarrow> (Inl e, s1)
           | Inr res \<Rightarrow>
               (case register_submission q res (or_registry s) of (r, g) \<Rightarrow>
                  (Inr r, s1\<lparr>or_registry := g\<rparr>))))"

definition poll_once ::
  "sat_ports \<Rightarrow> string \<Rightarrow> orchestrator \<Rightarrow> RegisteredSatRequest result \<times> orchestrator" where
  "poll_once ports request_id s =
     (let s1 = s\<lparr>or_calls := or_calls s @ [CallVerify request_id]\<rparr> in
      case port_verify ports (or_calls s) request_id of
        Inl e \<Rightarrow> (Inl e, s1)
      | Inr v \<Rightarrow>
          let package_ids = (if vr_action v = ACT_FINISHED then vr_package_ids v else []) in
          (case record_verification request_id (vr_state v) (vr_action v) (vr_message v) package_ids
                  (or_registry s) of
             Inl e \<Rightarrow> (Inl e, s1)
           | Inr (r, g) \<Rightarrow> (Inr r, s1\<lparr>or_registry := g\<rparr>)))"

subsection \<open>The metadata-first run\<close>

datatype SatOrchestrationStatus = ST_SKIPPED | ST_WAITING | ST_DOWNLOADED | ST_RETRY | ST_TERMINAL

record SatOrchestrationResult =
  so_status :: SatOrchestrationStatus
  so_action :: "SatOutcomeAction option"
  so_request_id :: "string option"
  so_downloaded :: "SatDownloadResult list"
  so_skipped_reason :: "string option"
  so_message :: string

definition should_retry :: "SatOrchestrationResult \<Rightarrow> bool" where
  "should_retry r \<longleftrightarrow> so_status r = ST_RETRY"

definition result_from_action ::
  "SatOutcomeAction \<Rightarrow> string \<Rightarrow> string option \<Rightarrow> SatDownloadResult list \<Rightarrow> SatOrchestrationResult" where
  "result_from_action action message request_id packages =
     \<lparr>so_status = (if action = ACT_RETRY then ST_RETRY else ST_TERMINAL), so_action = Some action,
      so_request_id = request_id, so_downloaded = packages, so_skipped_reason = None,
      so_message = message\<rparr>"

text \<open>The download loop: the packages so far, and the exception or the package that stopped it.\<close>

fun download_all ::
  "sat_ports \<Rightarrow> string list \<Rightarrow> SatDownloadResult list \<Rightarrow> sat_call list
    \<Rightarrow> (SatDownloadResult list \<times> SatDownloadResult option) result \<times> sat_call list" where
  "download_all ports [] done calls = (Inr (done, None), calls)"
| "download_all ports (p # ps) done calls =
     (case port_download ports calls p of
        Inl e \<Rightarrow> (Inl e, calls @ [CallDownload p])
      | Inr d \<Rightarrow>
          if dr_action d \<noteq> ACT_FINISHED then (Inr (done @ [d], Some d), calls @ [CallDownload p])
          else download_all ports ps (done @ [d]) (calls @ [CallDownload p]))"

definition run_orchestrator ::
  "sat_ports \<Rightarrow> DownloadQuery \<Rightarrow> ReconciliationDecision list \<Rightarrow> sat_call list
    \<Rightarrow> SatOrchestrationResult result \<times> sat_call list" where
  "run_orchestrator ports q decisions c0 =
    (if filter rd_should_download_xml decisions = [] then
       (Inr \<lparr>so_status = ST_SKIPPED, so_action = None, so_request_id = None, so_downloaded = [],
          so_skipped_reason = Some ''metadata-first reconciliation does not require XML download'',
          so_message = ''No SAT request was submitted.''\<rparr>, c0)
     else
       let c1 = c0 @ [CallAuth] in
       case port_authenticate ports c0 of Inl e \<Rightarrow> (Inl e, c1) | Inr _ \<Rightarrow>
       let c2 = c1 @ [CallSubmit q] in
       case port_submit ports c1 q of Inl e \<Rightarrow> (Inl e, c2) | Inr req \<Rightarrow>
       if rr_action req \<noteq> ACT_ACCEPTED then
         (Inr (result_from_action (rr_action req) (rr_message req) (Some (rr_request_id req)) []), c2)
       else
         let c3 = c2 @ [CallVerify (rr_request_id req)] in
         case port_verify ports c2 (rr_request_id req) of Inl e \<Rightarrow> (Inl e, c3) | Inr v \<Rightarrow>
         if vr_action v \<in> {ACT_ACCEPTED, ACT_IN_PROGRESS} then
           (Inr \<lparr>so_status = ST_WAITING, so_action = Some (vr_action v),
              so_request_id = Some (rr_request_id req), so_downloaded = [], so_skipped_reason = None,
              so_message = vr_message v\<rparr>, c3)
         else if vr_action v \<noteq> ACT_FINISHED then
           (Inr (result_from_action (vr_action v) (vr_message v) (Some (rr_request_id req)) []), c3)
         else
           (case download_all ports (vr_package_ids v) [] c3 of
              (Inl e, c4) \<Rightarrow> (Inl e, c4)
            | (Inr (packages, Some d), c4) \<Rightarrow>
                (Inr (result_from_action (dr_action d) (dr_message d) (Some (rr_request_id req)) packages), c4)
            | (Inr (packages, None), c4) \<Rightarrow>
                (Inr \<lparr>so_status = ST_DOWNLOADED, so_action = Some ACT_FINISHED,
                   so_request_id = Some (rr_request_id req), so_downloaded = packages,
                   so_skipped_reason = None,
                   so_message = ''Downloaded '' @ int_text (int (length packages))
                     @ '' synthetic package(s).''\<rparr>, c4)))"


subsection \<open>Package ids\<close>

lemma append_unique_aux_spec:
  "seen = set merged \<Longrightarrow>
     \<exists>new. append_unique_aux merged seen ps = merged @ new \<and> distinct new
       \<and> set new = set ps - set merged"
proof (induction merged seen ps rule: append_unique_aux.induct)
  case (2 merged seen p ps)
  show ?case
  proof (cases "p \<in> seen")
    case True
    then show ?thesis using 2 by auto
  next
    case False
    then obtain new where new: "append_unique_aux (merged @ [p]) (insert p seen) ps = (merged @ [p]) @ new"
      "distinct new" "set new = set ps - set (merged @ [p])" using 2 by auto
    have "append_unique_aux merged seen (p # ps) = merged @ (p # new)" using False new(1) by simp
    moreover have "distinct (p # new)" "set (p # new) = set (p # ps) - set merged"
      using new(2,3) False 2(3) by auto
    ultimately show ?thesis by blast
  qed
qed simp

lemma append_unique_spec:
  "\<exists>new. append_unique xs ys = xs @ new \<and> distinct new \<and> set new = set ys - set xs"
  unfolding append_unique_def by (rule append_unique_aux_spec) simp

lemma append_unique_facts [simp]:
  "set (append_unique xs ys) = set xs \<union> set ys" "distinct (append_unique xs ys) = distinct xs"
proof -
  obtain new where new: "append_unique xs ys = xs @ new" "distinct new" "set new = set ys - set xs"
    using append_unique_spec by blast
  show "set (append_unique xs ys) = set xs \<union> set ys" unfolding new(1) using new(3) by auto
  show "distinct (append_unique xs ys) = distinct xs" unfolding new(1) using new(2,3) by auto
qed

lemma append_unique_absorb:
  assumes "set ys \<subseteq> set xs"
  shows "append_unique xs ys = xs"
proof -
  obtain new where new: "append_unique xs ys = xs @ new" "set new = set ys - set xs"
    using append_unique_spec by blast
  have "set new = {}" unfolding new(2) using assms by blast
  then have "new = []" by simp
  then show ?thesis using new(1) by simp
qed

subsection \<open>The registry\<close>

definition registry_ok :: "registry \<Rightarrow> bool" where
  "registry_ok g \<longleftrightarrow>
     (\<forall>k r. by_criteria g k = Some r \<longrightarrow> k = (rq_tenant_id r, rq_criteria_hash r) \<and> distinct (rq_package_ids r))
     \<and> (\<forall>i r. by_request_id g i = Some r \<longrightarrow> rq_request_id r = i \<and> distinct (rq_package_ids r)
          \<and> by_criteria g (rq_tenant_id r, rq_criteria_hash r) \<noteq> None)"

lemma registry_ok_empty [simp]: "registry_ok empty_registry"
  by (simp add: registry_ok_def empty_registry_def)

lemma registry_ok_store: "registry_ok g \<Longrightarrow> distinct (rq_package_ids r) \<Longrightarrow> registry_ok (store_registered r g)"
  by (auto simp: registry_ok_def store_registered_def)

lemma store_keeps_found: "by_criteria g k \<noteq> None \<Longrightarrow> by_criteria (store_registered r g) k \<noteq> None"
  by (simp add: store_registered_def)

text \<open>The operations of the service in any order, each with its own ports.\<close>

datatype orch_op = OpSubmit sat_ports DownloadQuery | OpPoll sat_ports string

fun orch_step :: "orch_op \<Rightarrow> orchestrator \<Rightarrow> orchestrator" where
  "orch_step (OpSubmit ports q) s = snd (submit_once ports q s)"
| "orch_step (OpPoll ports i) s = snd (poll_once ports i s)"

definition submits_key :: "string \<times> string \<Rightarrow> sat_call \<Rightarrow> bool" where
  "submits_key k c = (case c of CallSubmit q \<Rightarrow> (q_tenant_id q, criteria_hash q) = k | _ \<Rightarrow> False)"

lemma register_submission_cases:
  assumes "find_by_query g q = None" "register_submission q res g = (r, g')"
  shows "g' = store_registered r g" and "rq_tenant_id r = q_tenant_id q"
    and "rq_criteria_hash r = criteria_hash q" and "rq_package_ids r = []"
    and "rq_request_id r = rr_request_id res"
  using assms by (auto simp: register_submission_def Let_def)

lemma submit_once_cases:
  assumes "submit_once ports q s = (x, s')"
  obtains (known) r where "find_by_query (or_registry s) q = Some r" "x = Inr r" "s' = s"
  | (raised) e where "find_by_query (or_registry s) q = None" "x = Inl e"
      "s' = s\<lparr>or_calls := or_calls s @ [CallSubmit q]\<rparr>"
  | (submitted) res r where "find_by_query (or_registry s) q = None"
      "port_submit ports (or_calls s) q = Inr res" "x = Inr r"
      "s' = \<lparr>or_registry = store_registered r (or_registry s), or_calls = or_calls s @ [CallSubmit q]\<rparr>"
      "rq_tenant_id r = q_tenant_id q" "rq_criteria_hash r = criteria_hash q" "rq_package_ids r = []"
      "rq_request_id r = rr_request_id res"
proof (cases "find_by_query (or_registry s) q")
  case (Some r)
  then have "x = Inr r" "s' = s" using assms by (simp_all add: submit_once_def)
  then show ?thesis by (rule known [OF Some])
next
  case None
  show ?thesis
  proof (cases "port_submit ports (or_calls s) q")
    case (Inl e)
    then have "x = Inl e" "s' = s\<lparr>or_calls := or_calls s @ [CallSubmit q]\<rparr>"
      using assms None by (simp_all add: submit_once_def Let_def)
    then show ?thesis by (rule raised [OF None])
  next
    case (Inr res)
    obtain r g where rg: "register_submission q res (or_registry s) = (r, g)" by fastforce
    then have x: "x = Inr r" and s': "s' = \<lparr>or_registry = g, or_calls = or_calls s @ [CallSubmit q]\<rparr>"
      using assms None Inr by (cases s; auto simp: submit_once_def Let_def)+
    note reg = register_submission_cases [OF None rg]
    show ?thesis by (rule submitted [OF None Inr x s' [unfolded reg(1)] reg(2-5)])
  qed
qed

lemma poll_once_cases:
  assumes "poll_once ports i s = (x, s')"
  obtains (raised) e where "x = Inl e" "s' = s\<lparr>or_calls := or_calls s @ [CallVerify i]\<rparr>"
  | (polled) v r r' where "port_verify ports (or_calls s) i = Inr v" "by_request_id (or_registry s) i = Some r"
      "r' = r\<lparr>rq_state := Some (vr_state v), rq_action := Some (vr_action v), rq_message := vr_message v,
        rq_package_ids := (if vr_action v = ACT_FINISHED
          then append_unique (rq_package_ids r) (vr_package_ids v) else rq_package_ids r)\<rparr>"
      "x = Inr r'"
      "s' = \<lparr>or_registry = store_registered r' (or_registry s), or_calls = or_calls s @ [CallVerify i]\<rparr>"
proof (cases "port_verify ports (or_calls s) i")
  case (Inl e)
  then have "x = Inl e" "s' = s\<lparr>or_calls := or_calls s @ [CallVerify i]\<rparr>"
    using assms by (simp_all add: poll_once_def Let_def)
  then show ?thesis by (rule raised)
next
  case (Inr v)
  show ?thesis
  proof (cases "by_request_id (or_registry s) i")
    case None
    then have "x = Inl (KeyError i)" "s' = s\<lparr>or_calls := or_calls s @ [CallVerify i]\<rparr>"
      using assms Inr by (simp_all add: poll_once_def record_verification_def Let_def)
    then show ?thesis by (rule raised)
  next
    case (Some r)
    show ?thesis
      by (rule polled [OF Inr Some refl])
         (use assms Inr Some in
           \<open>cases s; cases "vr_action v = ACT_FINISHED"; auto simp: poll_once_def record_verification_def Let_def\<close>)+
  qed
qed

lemma orch_step_keeps:
  assumes "registry_ok (or_registry s)"
  shows "registry_ok (or_registry (orch_step op s))"
    and "by_criteria (or_registry s) k \<noteq> None \<Longrightarrow> by_criteria (or_registry (orch_step op s)) k \<noteq> None"
    and "\<exists>cs. or_calls (orch_step op s) = or_calls s @ cs
           \<and> (by_criteria (or_registry s) k \<noteq> None \<longrightarrow> (\<forall>c \<in> set cs. \<not> submits_key k c))"
proof -
  have "registry_ok (or_registry (orch_step op s))
    \<and> (by_criteria (or_registry s) k \<noteq> None \<longrightarrow> by_criteria (or_registry (orch_step op s)) k \<noteq> None)
    \<and> (\<exists>cs. or_calls (orch_step op s) = or_calls s @ cs
           \<and> (by_criteria (or_registry s) k \<noteq> None \<longrightarrow> (\<forall>c \<in> set cs. \<not> submits_key k c)))"
  proof (cases op)
    case (OpSubmit ports q)
    obtain x s' where run: "submit_once ports q s = (x, s')" by fastforce
    from run show ?thesis
      using assms by (cases rule: submit_once_cases)
        (auto simp: OpSubmit run registry_ok_store store_keeps_found submits_key_def find_by_query_def)
  next
    case (OpPoll ports i)
    obtain x s' where run: "poll_once ports i s = (x, s')" by fastforce
    from run show ?thesis
    proof (cases rule: poll_once_cases)
      case (raised e)
      then show ?thesis using assms by (simp add: OpPoll run submits_key_def)
    next
      case (polled v r r')
      have "distinct (rq_package_ids r)" using assms polled(2) by (auto simp: registry_ok_def)
      then have "distinct (rq_package_ids r')" by (simp add: polled(3))
      then show ?thesis using assms polled(5)
        by (simp add: OpPoll run registry_ok_store store_keeps_found submits_key_def)
    qed
  qed
  then show "registry_ok (or_registry (orch_step op s))"
    and "by_criteria (or_registry s) k \<noteq> None \<Longrightarrow> by_criteria (or_registry (orch_step op s)) k \<noteq> None"
    and "\<exists>cs. or_calls (orch_step op s) = or_calls s @ cs
           \<and> (by_criteria (or_registry s) k \<noteq> None \<longrightarrow> (\<forall>c \<in> set cs. \<not> submits_key k c))"
    by blast+
qed

lemma orch_steps_keep:
  assumes "registry_ok (or_registry s)" "by_criteria (or_registry s) k \<noteq> None"
  shows "\<exists>cs. or_calls (fold orch_step ops s) = or_calls s @ cs \<and> (\<forall>c \<in> set cs. \<not> submits_key k c)
    \<and> by_criteria (or_registry (fold orch_step ops s)) k \<noteq> None"
  using assms
proof (induction ops arbitrary: s)
  case (Cons op ops)
  obtain cs1 where cs1: "or_calls (orch_step op s) = or_calls s @ cs1" "\<forall>c \<in> set cs1. \<not> submits_key k c"
    using orch_step_keeps(3) [OF Cons.prems(1), where k = k and op = op] Cons.prems(2) by blast
  obtain cs2 where cs2: "or_calls (fold orch_step ops (orch_step op s)) = or_calls (orch_step op s) @ cs2"
    "\<forall>c \<in> set cs2. \<not> submits_key k c" "by_criteria (or_registry (fold orch_step ops (orch_step op s))) k \<noteq> None"
    using Cons.IH [OF orch_step_keeps(1) [OF Cons.prems(1)] orch_step_keeps(2) [OF Cons.prems]] by blast
  show ?case by (rule exI [of _ "cs1 @ cs2"]) (use cs1 cs2 in auto)
qed simp


subsection \<open>The trace of a run\<close>

definition finished :: "SatDownloadResult \<Rightarrow> bool" where
  "finished d \<longleftrightarrow> dr_action d = ACT_FINISHED"

lemma download_all_spec:
  "download_all ports ps done calls = (x, calls') \<Longrightarrow>
     \<exists>n. n \<le> length ps \<and> calls' = calls @ map CallDownload (take n ps)
       \<and> (\<forall>ds. x = Inr (ds, None) \<longrightarrow> n = length ps
            \<and> (\<exists>new. ds = done @ new \<and> length new = length ps \<and> list_all finished new))
       \<and> (\<forall>ds d. x = Inr (ds, Some d) \<longrightarrow> \<not> finished d)"
proof (induction ports ps "done" calls rule: download_all.induct)
  case (2 ports p ps dn calls)
  show ?case
  proof (cases "port_download ports calls p")
    case (Inl e)
    then show ?thesis using 2(2) by (intro exI [of _ 1]) auto
  next
    case (Inr d)
    show ?thesis
    proof (cases "finished d")
      case False
      then show ?thesis using 2(2) Inr by (intro exI [of _ 1]) (auto simp: finished_def)
    next
      case True
      then have rest: "download_all ports ps (dn @ [d]) (calls @ [CallDownload p]) = (x, calls')"
        using 2(2) Inr by (simp add: finished_def)
      have "\<not> dr_action d \<noteq> ACT_FINISHED" using True by (simp add: finished_def)
      from 2(1) [OF Inr this rest] obtain n where n: "n \<le> length ps"
        "calls' = (calls @ [CallDownload p]) @ map CallDownload (take n ps)"
        "\<forall>ds. x = Inr (ds, None) \<longrightarrow> n = length ps
            \<and> (\<exists>new. ds = (dn @ [d]) @ new \<and> length new = length ps \<and> list_all finished new)"
        "\<forall>ds d. x = Inr (ds, Some d) \<longrightarrow> \<not> finished d" by blast
      show ?thesis
      proof (intro exI [of _ "Suc n"] conjI allI impI)
        fix ds assume "x = Inr (ds, None)"
        then obtain new where "ds = (dn @ [d]) @ new" "length new = length ps" "list_all finished new"
          using n(3) by blast
        then show "\<exists>new. ds = dn @ new \<and> length new = length (p # ps) \<and> list_all finished new"
          using True by (intro exI [of _ "d # new"]) simp
      qed (use n in auto)
    qed
  qed
qed auto

lemma result_from_action_status [simp]:
  "so_status (result_from_action a m i ps) \<noteq> ST_SKIPPED"
  "so_status (result_from_action a m i ps) \<noteq> ST_DOWNLOADED"
  by (simp_all add: result_from_action_def)

definition run_trace :: "DownloadQuery \<Rightarrow> string \<Rightarrow> string list \<Rightarrow> sat_call list" where
  "run_trace q i packages = [CallAuth, CallSubmit q, CallVerify i] @ map CallDownload packages"

lemma run_orchestrator_trace:
  assumes "run_orchestrator ports q decisions c0 = (x, c')" "\<exists>d \<in> set decisions. rd_should_download_xml d"
  shows "\<exists>n i packages. c' = c0 @ take n (run_trace q i packages)
    \<and> (3 < n \<longrightarrow> (\<exists>req v. port_submit ports (c0 @ [CallAuth]) q = Inr req \<and> rr_action req = ACT_ACCEPTED
          \<and> rr_request_id req = i \<and> port_verify ports (c0 @ [CallAuth, CallSubmit q]) i = Inr v
          \<and> vr_action v = ACT_FINISHED \<and> vr_package_ids v = packages))
    \<and> (\<forall>r. x = Inr r \<longrightarrow> so_status r \<noteq> ST_SKIPPED
          \<and> (so_status r = ST_DOWNLOADED \<longrightarrow>
               c' = c0 @ run_trace q i packages \<and> length (so_downloaded r) = length packages
               \<and> list_all finished (so_downloaded r)))"
proof -
  have some: "filter rd_should_download_xml decisions \<noteq> []"
    using assms(2) by (auto simp: filter_empty_conv)
  let ?c1 = "c0 @ [CallAuth]" and ?c2 = "c0 @ [CallAuth, CallSubmit q]"
  note run = assms(1) [unfolded run_orchestrator_def, simplified some if_False]
  show ?thesis
  proof (cases "port_authenticate ports c0")
    case (Inl e)
    then have "x = Inl e" "c' = ?c1" using run some by (simp_all add: Let_def)
    then show ?thesis by (intro exI [of _ 1]) (simp add: run_trace_def)
  next
    case (Inr auth)
    note auth = this
    show ?thesis
    proof (cases "port_submit ports ?c1 q")
      case (Inl e)
      then have "x = Inl e" "c' = ?c2" using run some auth by (simp_all add: Let_def)
      then show ?thesis by (intro exI [of _ 2]) (simp add: run_trace_def)
    next
      case (Inr req)
      note req = this
      show ?thesis
      proof (cases "rr_action req = ACT_ACCEPTED")
        case False
        then have "x = Inr (result_from_action (rr_action req) (rr_message req) (Some (rr_request_id req)) [])"
          "c' = ?c2" using run some auth req by (simp_all add: Let_def)
        then show ?thesis by (intro exI [of _ 2]) (simp add: run_trace_def)
      next
        case True
        note acc = this
        let ?i = "rr_request_id req"
        let ?c3 = "c0 @ [CallAuth, CallSubmit q, CallVerify ?i]"
        show ?thesis
        proof (cases "port_verify ports ?c2 ?i")
          case (Inl e)
          then have "x = Inl e" "c' = ?c3" using run some auth req acc by (simp_all add: Let_def)
          then show ?thesis by (intro exI [of _ 3] exI [of _ ?i]) (simp add: run_trace_def)
        next
          case (Inr v)
          note v = this
          show ?thesis
          proof (cases "vr_action v = ACT_FINISHED")
            case False
            then have "c' = ?c3" "\<forall>r. x = Inr r \<longrightarrow> so_status r \<notin> {ST_SKIPPED, ST_DOWNLOADED}"
              using run some auth req acc v
              by (auto simp: Let_def split: if_splits)
            then show ?thesis by (intro exI [of _ 3] exI [of _ ?i]) (simp add: run_trace_def)
          next
            case True
            obtain y c4 where d: "download_all ports (vr_package_ids v) [] ?c3 = (y, c4)" by fastforce
            obtain n where n: "n \<le> length (vr_package_ids v)"
              "c4 = ?c3 @ map CallDownload (take n (vr_package_ids v))"
              "\<forall>ds. y = Inr (ds, None) \<longrightarrow> n = length (vr_package_ids v)
                 \<and> length ds = length (vr_package_ids v) \<and> list_all finished ds"
              "\<forall>ds d. y = Inr (ds, Some d) \<longrightarrow> \<not> finished d"
              using download_all_spec [OF d] by auto
            have "c' = c4" "\<forall>r. x = Inr r \<longrightarrow> so_status r \<noteq> ST_SKIPPED
                \<and> (so_status r = ST_DOWNLOADED \<longrightarrow> y = Inr (so_downloaded r, None))"
              using run some auth req acc v True d
              by (auto simp: Let_def split: sum.splits option.splits prod.splits)
            then show ?thesis using n req acc v True
              by (intro exI [of _ "Suc (Suc (Suc n))"] exI [of _ ?i] exI [of _ "vr_package_ids v"])
                 (auto simp: run_trace_def take_map)
          qed
        qed
      qed
    qed
  qed
qed

subsection \<open>Properties\<close>

text \<open>C4: once a query is registered, no later operation on the orchestrator, in any order and with any
  answers of the SAT, submits a query with its tenant and criteria hash again, and the query stays
  registered.\<close>

theorem never_submitted_twice:
  assumes "registry_ok (or_registry s)" and "submit_once ports q s = (Inr r, s')"
  shows "\<exists>calls. or_calls (fold orch_step ops s') = or_calls s' @ calls
    \<and> (\<forall>q'. CallSubmit q' \<in> set calls \<longrightarrow>
          (q_tenant_id q', criteria_hash q') \<noteq> (q_tenant_id q, criteria_hash q))
    \<and> find_by_query (or_registry (fold orch_step ops s')) q \<noteq> None"
proof -
  let ?k = "(q_tenant_id q, criteria_hash q)"
  have ok: "registry_ok (or_registry s')"
    using orch_step_keeps(1) [OF assms(1), of "OpSubmit ports q"] assms(2) by simp
  have "by_criteria (or_registry s') ?k \<noteq> None"
    using assms(2) by (cases rule: submit_once_cases) (auto simp: find_by_query_def store_registered_def)
  from orch_steps_keep [OF ok this, of ops] show ?thesis
    by (fastforce simp: find_by_query_def submits_key_def)
qed

definition example_query :: DownloadQuery where
  "example_query = \<lparr>q_tenant_id = ''t'', q_requester_rfc = ''AAA010101AAA'', q_direction = RECEIVED,
     q_request_type = RT_METADATA, q_period = None, q_issuer_rfc = None, q_receiver_rfcs = [],
     q_uuid = None, q_document_status = None, q_document_type = None, q_complement = None,
     q_rfc_on_behalf = None, q_recovery_variant_reason = None\<rparr>"

definition accepting_ports :: sat_ports where
  "accepting_ports =
     \<lparr>port_authenticate = (\<lambda>_. Inr \<lparr>ar_authorization = ''a'', ar_expires_at = None\<rparr>),
      port_submit = (\<lambda>_ _. Inr \<lparr>rr_request_id = ''r1'', rr_sat_code = ''5000'', rr_message = [],
         rr_action = ACT_ACCEPTED\<rparr>),
      port_verify = (\<lambda>_ i. Inr \<lparr>vr_request_id = i, vr_state = RS_FINISHED, vr_sat_code = ''5000'',
         vr_message = [], vr_package_ids = [''p1'', ''p2'', ''p1''], vr_action = ACT_FINISHED\<rparr>),
      port_download = (\<lambda>_ p. Inr \<lparr>dr_package_id = p, dr_sat_code = ''5000'', dr_message = [],
         dr_action = ACT_FINISHED, dr_content = None\<rparr>)\<rparr>"

theorem never_submitted_twice_witness:
  "\<exists>r s'. submit_once accepting_ports example_query \<lparr>or_registry = empty_registry, or_calls = []\<rparr> = (Inr r, s')
    \<and> find_by_query (or_registry (fold orch_step [OpPoll accepting_ports ''r1''] s')) example_query \<noteq> None"
proof -
  obtain r s' where run: "submit_once accepting_ports example_query
      \<lparr>or_registry = empty_registry, or_calls = []\<rparr> = (Inr r, s')"
    by (simp add: submit_once_def find_by_query_def empty_registry_def accepting_ports_def
        register_submission_def Let_def)
  show ?thesis
    using never_submitted_twice [OF _ run, of "[OpPoll accepting_ports ''r1'']"] run by fastforce
qed



text \<open>C36: a run makes no call when no decision asks for an XML; otherwise its calls are a prefix of
  authenticate, submit, verify and one download per package in order, it downloads only after an
  accepted request whose verification is finished, and it reports DOWNLOADED only when every package
  was downloaded and finished.\<close>

theorem run_downloads_only_when_needed:
  assumes "run_orchestrator ports q decisions c0 = (x, c')"
  shows "((\<forall>d \<in> set decisions. \<not> rd_should_download_xml d) \<longrightarrow>
      c' = c0 \<and> (\<exists>r. x = Inr r \<and> so_status r = ST_SKIPPED))
    \<and> ((\<exists>d \<in> set decisions. rd_should_download_xml d) \<longrightarrow>
      (\<exists>n i packages. c' = c0 @ take n (run_trace q i packages)
        \<and> (3 < n \<longrightarrow> (\<exists>req v. port_submit ports (c0 @ [CallAuth]) q = Inr req \<and> rr_action req = ACT_ACCEPTED
              \<and> rr_request_id req = i \<and> port_verify ports (c0 @ [CallAuth, CallSubmit q]) i = Inr v
              \<and> vr_action v = ACT_FINISHED \<and> vr_package_ids v = packages))
        \<and> (\<forall>r. x = Inr r \<longrightarrow> so_status r \<noteq> ST_SKIPPED
              \<and> (so_status r = ST_DOWNLOADED \<longrightarrow>
                   c' = c0 @ run_trace q i packages \<and> length (so_downloaded r) = length packages
                   \<and> list_all finished (so_downloaded r)))))"
proof (intro conjI impI)
  assume "\<forall>d \<in> set decisions. \<not> rd_should_download_xml d"
  then have "filter rd_should_download_xml decisions = []" by (simp add: filter_empty_conv)
  then show "c' = c0" "\<exists>r. x = Inr r \<and> so_status r = ST_SKIPPED"
    using assms by (auto simp: run_orchestrator_def)
next
  assume "\<exists>d \<in> set decisions. rd_should_download_xml d"
  from run_orchestrator_trace [OF assms this]
  show "\<exists>n i packages. c' = c0 @ take n (run_trace q i packages)
        \<and> (3 < n \<longrightarrow> (\<exists>req v. port_submit ports (c0 @ [CallAuth]) q = Inr req \<and> rr_action req = ACT_ACCEPTED
              \<and> rr_request_id req = i \<and> port_verify ports (c0 @ [CallAuth, CallSubmit q]) i = Inr v
              \<and> vr_action v = ACT_FINISHED \<and> vr_package_ids v = packages))
        \<and> (\<forall>r. x = Inr r \<longrightarrow> so_status r \<noteq> ST_SKIPPED
              \<and> (so_status r = ST_DOWNLOADED \<longrightarrow>
                   c' = c0 @ run_trace q i packages \<and> length (so_downloaded r) = length packages
                   \<and> list_all finished (so_downloaded r)))" .
qed

theorem run_downloads_only_when_needed_witness:
  "snd (run_orchestrator accepting_ports example_query [decide_metadata_state ''vigente'' True False None] []) = []"
proof -
  obtain x c' where run: "run_orchestrator accepting_ports example_query
      [decide_metadata_state ''vigente'' True False None] [] = (x, c')" by fastforce
  have "\<forall>d \<in> set [decide_metadata_state ''vigente'' True False None]. \<not> rd_should_download_xml d"
    by (simp add: decide_metadata_state_def Let_def)
  then show ?thesis using run_downloads_only_when_needed [OF run] run by simp
qed

end
