(* ===== verification/Backfill.thy ===== *)
theory Backfill
  imports LiveRequestState
begin

text \<open>
  \<open>src/cfdi_vault/sat_backfill.py\<close>: the split of a range of days into daily or weekly periods, and the
  plan that marks the periods already requested. A date is its ordinal (1 is 0001-01-01), and date
  arithmetic raises OverflowError outside 1..\<open>max_ordinal\<close>, as Python's does.
\<close>

record BackfillWindowPlan =
  bw_index :: nat
  bw_query :: DownloadQuery
  bw_operation :: string
  bw_criteria_hash :: string
  bw_existing_request_ref :: string
  bw_existing_status :: string

record BackfillPlan =
  bp_profile_id :: string
  bp_direction :: DownloadDirection
  bp_kind :: RequestType
  bp_window :: string
  bp_start_date :: int
  bp_end_date :: int
  bp_windows :: "BackfillWindowPlan list"

definition existing_count :: "BackfillPlan \<Rightarrow> nat" where
  "existing_count p = length (filter (\<lambda>w. bw_existing_request_ref w \<noteq> []) (bp_windows p))"

definition new_count :: "BackfillPlan \<Rightarrow> int" where
  "new_count p = int (length (bp_windows p)) - int (existing_count p)"

definition normalize_window :: "string \<Rightarrow> string result" where
  "normalize_window w =
     (let n = py_lower (py_strip w) in
      if n = ''weekly'' \<or> n = ''daily'' then Inr n
      else Inl (ValueError ''backfill window must be weekly or daily''))"


definition date_add :: "int \<Rightarrow> int \<Rightarrow> int result" where
  "date_add d n = (if 1 \<le> d + n \<and> d + n \<le> max_ordinal then Inr (d + n) else Inl OverflowError)"

text \<open>\<open>datetime.combine(day, time.min, utc)\<close> and \<open>datetime.combine(day, time.max, utc)\<close>.\<close>

definition day_start :: "int \<Rightarrow> instant" where "day_start d = (d - 1) * us_day"
definition day_end :: "int \<Rightarrow> instant" where "day_end d = d * us_day - 1"

definition step_days :: "bool \<Rightarrow> int" where
  "step_days daily = (if daily then 1 else 7)"

function backfill_loop :: "bool \<Rightarrow> int \<Rightarrow> int \<Rightarrow> DateTimePeriod list result" where
  "backfill_loop daily current end_date =
     (if end_date < current then Inr []
      else bindR (date_add current (step_days daily - 1)) (\<lambda>last_day.
        let current_end = min last_day end_date in
        if day_end current_end - day_start current < 2 * us_second
        then Inl (ValueError ''backfill window must span at least 2 seconds'')
        else bindR (mk_period (Aware (day_start current) 0) (Aware (day_end current_end) 0)) (\<lambda>p.
          bindR (date_add current_end 1) (\<lambda>next_day.
          bindR (backfill_loop daily next_day end_date) (\<lambda>ps. Inr (p # ps))))))"
  by pat_completeness auto
termination
  by (relation "measure (\<lambda>(daily, current, end_date). nat (end_date + 1 - current))")
     (auto simp: date_add_def step_days_def split: if_splits)

declare backfill_loop.simps [simp del]

definition generate_backfill_periods :: "int \<Rightarrow> int \<Rightarrow> string \<Rightarrow> DateTimePeriod list result" where
  "generate_backfill_periods start_date end_date window =
     (if end_date < start_date then Inl (ValueError ''backfill end date must be on or after start date'')
      else bindR (normalize_window window) (\<lambda>w. backfill_loop (w = ''daily'') start_date end_date))"





subsection \<open>The periods tile the range\<close>

fun bounds :: "pydt \<Rightarrow> instant" where
  "bounds (Aware w off) = w - off"
| "bounds (Naive w) = w"

definition in_period :: "DateTimePeriod \<Rightarrow> instant \<Rightarrow> bool" where
  "in_period p t \<longleftrightarrow> bounds (p_start p) \<le> t \<and> t \<le> bounds (p_end p)"

definition day_period :: "int \<Rightarrow> int \<Rightarrow> DateTimePeriod" where
  "day_period a b = \<lparr>p_start = Aware (day_start a) 0, p_end = Aware (day_end b) 0\<rparr>"

lemma day_start_le_end: "a \<le> b \<Longrightarrow> \<not> day_end b - day_start a < 2 * us_second"
  by (simp add: day_end_def day_start_def us_day_def us_second_def)

lemma mk_day_period: "a \<le> b \<Longrightarrow> mk_period (Aware (day_start a) 0) (Aware (day_end b) 0) = Inr (day_period a b)"
  by (simp add: mk_period_def pydt_lt_def day_period_def day_end_def day_start_def us_day_def)

lemma backfill_loop_step:
  assumes "c \<le> e"
  shows "backfill_loop daily c e
    = bindR (date_add c (step_days daily - 1)) (\<lambda>l. bindR (date_add (min l e) 1) (\<lambda>n.
        bindR (backfill_loop daily n e) (\<lambda>ps. Inr (day_period c (min l e) # ps))))"
proof -
  have "date_add c (step_days daily - 1) = Inr l \<Longrightarrow> c \<le> min l e" for l
    using assms by (auto simp: date_add_def step_days_def split: if_splits)
  then show ?thesis
    using assms
    by (subst backfill_loop.simps)
       (auto simp: Let_def mk_day_period day_start_le_end not_less intro!: bindR_cong)
qed

definition window_of :: "bool \<Rightarrow> DateTimePeriod \<Rightarrow> bool" where
  "window_of daily p \<longleftrightarrow> (\<exists>a b. p = day_period a b \<and> a \<le> b \<and> b < a + step_days daily)"

lemma backfill_loop_tiles:
  assumes "backfill_loop daily c e = Inr ps"
  shows "list_all (window_of daily) ps
    \<and> length (filter (\<lambda>p. in_period p t) ps) = (if day_start c \<le> t \<and> t \<le> day_end e then 1 else 0)"
  using assms
proof (induction daily c e arbitrary: ps rule: backfill_loop.induct)
  case (1 daily c e)
  show ?case
  proof (cases "e < c")
    case True
    then have "ps = []" "day_end e < day_start c"
      using 1(2) by (auto simp: backfill_loop.simps [of _ c e] day_end_def day_start_def us_day_def)
    then show ?thesis by simp
  next
    case False
    obtain l n qs where step: "date_add c (step_days daily - 1) = Inr l" "date_add (min l e) 1 = Inr n"
      "backfill_loop daily n e = Inr qs" "ps = day_period c (min l e) # qs"
      using 1(2) False by (auto simp: backfill_loop_step elim!: bindR_InrE)
    have arith: "l = c + step_days daily - 1" "n = min l e + 1" "c \<le> min l e"
      using step(1,2) False by (auto simp: date_add_def step_days_def split: if_splits)
    have "list_all (window_of daily) qs
      \<and> length (filter (\<lambda>p. in_period p t) qs) = (if day_start n \<le> t \<and> t \<le> day_end e then 1 else 0)"
      by (rule 1(1) [OF False step(1) refl _ mk_day_period [OF arith(3)] step(2,3)])
         (use day_start_le_end [OF arith(3)] in simp)
    moreover have "window_of daily (day_period c (min l e))"
      unfolding window_of_def using arith by (intro exI [of _ c] exI [of _ "min l e"]) auto
    moreover have "in_period (day_period c (min l e)) t \<longleftrightarrow> day_start c \<le> t \<and> t < day_start n"
      unfolding arith(2) by (auto simp: in_period_def day_period_def day_end_def day_start_def)
    moreover have "c \<le> n" "n \<le> e + 1" using arith(2,3) by linarith+
    then have "day_start c \<le> day_start n" "day_start n \<le> day_end e + 1"
      by (simp_all add: day_start_def day_end_def us_day_def)
    ultimately show ?thesis using step(4) by auto
  qed
qed

lemma backfill_loop_defined:
  "1 \<le> c \<Longrightarrow> e + 7 \<le> max_ordinal \<Longrightarrow> \<exists>ps. backfill_loop daily c e = Inr ps"
proof (induction daily c e rule: backfill_loop.induct)
  case (1 daily c e)
  show ?case
  proof (cases "e < c")
    case True
    then show ?thesis by (simp add: backfill_loop.simps)
  next
    case False
    define l where "l = c + (step_days daily - 1)"
    define n where "n = min l e + 1"
    have le: "c \<le> min l e" using False by (auto simp: l_def step_days_def)
    have d: "date_add c (step_days daily - 1) = Inr l" "date_add (min l e) 1 = Inr n"
      using 1(2,3) False le by (auto simp: date_add_def step_days_def l_def n_def)
    have "\<exists>ps. backfill_loop daily n e = Inr ps"
      by (rule 1(1) [OF False d(1) refl _ mk_day_period [OF le] d(2)])
         (use day_start_le_end [OF le] 1(2,3) le in \<open>simp_all add: n_def\<close>)
    then show ?thesis using False d by (auto simp: backfill_loop_step)
  qed
qed

subsection \<open>Properties\<close>

text \<open>C14: for a range of days that ends a week before the last date, a daily or weekly split returns;
  every period starts at a midnight, ends at the end of a day and spans at most one step; and every
  instant of the range lies in exactly one period, every other instant in none.\<close>

theorem backfill_tiles_range:
  assumes "1 \<le> start_date" and "start_date \<le> end_date" and "end_date + 7 \<le> max_ordinal"
    and "normalize_window window = Inr w"
  shows "\<exists>ps. generate_backfill_periods start_date end_date window = Inr ps
    \<and> list_all (window_of (w = ''daily'')) ps
    \<and> (\<forall>t. length (filter (\<lambda>p. in_period p t) ps)
           = (if day_start start_date \<le> t \<and> t \<le> day_end end_date then 1 else 0))"
proof -
  obtain ps where ps: "backfill_loop (w = ''daily'') start_date end_date = Inr ps"
    using backfill_loop_defined assms(1,3) by blast
  then have "generate_backfill_periods start_date end_date window = Inr ps"
    using assms(2,4) by (simp add: generate_backfill_periods_def)
  then show ?thesis using backfill_loop_tiles [OF ps] by blast
qed

theorem backfill_tiles_range_witness:
  "\<exists>ps. generate_backfill_periods 739000 739017 '' Weekly '' = Inr ps \<and> list_all (window_of False) ps"
proof -
  have "normalize_window '' Weekly '' = Inr ''weekly''" by code_simp
  from backfill_tiles_range [OF _ _ _ this, of 739000 739017] show ?thesis
    by (auto simp: max_ordinal_def)
qed





end
