(* ===== verification/LivePermit.thy ===== *)
theory LivePermit
  imports SetupCore Domain
begin

text \<open>
  \<open>src/cfdi_vault/live_permit.py\<close>: one-time permits for operations against the real SAT.

  The permit files are a map from resolved paths to contents. \<open>permit_env\<close> holds what the code reads
  from its surroundings: the environment and home directory, the working directory, the repository
  around it, the identity of its commit, and the offset of the local time zone, in which a time
  without an offset is read. A write truncates the file before it writes: \<open>pf_faults\<close> says for the
  coming writes whether they succeed, fail before the file is touched, or leave it cut short.
\<close>

subsection \<open>Policy\<close>

definition BACKFILL_SUBMIT_SCOPE :: string where "BACKFILL_SUBMIT_SCOPE = ''metadata_backfill_submit''"
definition METADATA_LIVE_SMOKE_SCOPE :: string where "METADATA_LIVE_SMOKE_SCOPE = ''metadata_live_smoke''"
definition PACKAGE_DOWNLOAD_SCOPE :: string where "PACKAGE_DOWNLOAD_SCOPE = ''package_download_smoke''"

definition ALLOWED_SCOPES :: "string list" where
  "ALLOWED_SCOPES =
     [''transport_probe'', ''auth_post_probe'', ''verify_post_probe'', ''auth_matrix_probe'', ''auth_live_smoke'',
      METADATA_LIVE_SMOKE_SCOPE, BACKFILL_SUBMIT_SCOPE, PACKAGE_DOWNLOAD_SCOPE]"

definition CREDENTIAL_REQUIRED_SCOPES :: "string list" where
  "CREDENTIAL_REQUIRED_SCOPES =
     [''auth_live_smoke'', METADATA_LIVE_SMOKE_SCOPE, BACKFILL_SUBMIT_SCOPE, PACKAGE_DOWNLOAD_SCOPE]"

definition PROBE_SCOPES :: "string list" where
  "PROBE_SCOPES = [''transport_probe'', ''auth_post_probe'', ''verify_post_probe'', ''auth_matrix_probe'']"

definition MAX_EXPIRES_MINUTES :: int where "MAX_EXPIRES_MINUTES = 15"
definition MAX_RANGE_DAYS :: int where "MAX_RANGE_DAYS = 1"
definition MAX_BACKFILL_RANGE_DAYS :: int where "MAX_BACKFILL_RANGE_DAYS = 7"
definition MAX_ATTEMPTS :: int where "MAX_ATTEMPTS = 1"

definition SECURITY_ONLY :: string where "SECURITY_ONLY = ''security_only''"
definition AUTH_ENVELOPE_VARIANTS :: "string list" where
  "AUTH_ENVELOPE_VARIANTS = [SECURITY_ONLY, ''action_before_security'', ''security_before_action'']"

lemmas scope_names [py_eval] =
  BACKFILL_SUBMIT_SCOPE_def METADATA_LIVE_SMOKE_SCOPE_def PACKAGE_DOWNLOAD_SCOPE_def ALLOWED_SCOPES_def
  CREDENTIAL_REQUIRED_SCOPES_def PROBE_SCOPES_def SECURITY_ONLY_def AUTH_ENVELOPE_VARIANTS_def

definition max_range_days :: "string \<Rightarrow> int" where
  "max_range_days scope =
     (if scope \<in> {BACKFILL_SUBMIT_SCOPE, METADATA_LIVE_SMOKE_SCOPE, PACKAGE_DOWNLOAD_SCOPE}
      then MAX_BACKFILL_RANGE_DAYS else MAX_RANGE_DAYS)"

abbreviation permit_error :: "string \<Rightarrow> 'a result" where
  "permit_error m \<equiv> Inl (LivePermitError m)"

subsection \<open>Permits and their documents\<close>

record LivePermitRequest =
  pr_scope :: string
  pr_profile_id :: string
  pr_kind :: string
  pr_direction :: string
  pr_date_from :: string
  pr_date_to :: string
  pr_reason :: string
  pr_expires_minutes :: int
  pr_issued_by :: string
  pr_auth_envelope_variant :: "string option"
  pr_wcf_action_header_enabled :: "bool option"

record LivePermit =
  pt_permit_id :: string
  pt_scope :: string
  pt_profile_id :: string
  pt_kind :: string
  pt_direction :: string
  pt_date_from :: string
  pt_date_to :: string
  pt_max_range_days :: int
  pt_max_attempts :: int
  pt_allow_real_sat :: bool
  pt_allow_real_credentials :: bool
  pt_created_at :: instant
  pt_expires_at :: instant
  pt_issued_by :: string
  pt_reason :: string
  pt_consumed :: bool
  pt_consumed_at :: "instant option"
  pt_redaction_required :: bool
  pt_repo_root_hash :: string
  pt_auth_envelope_variant :: "string option"
  pt_wcf_action_header_enabled :: "bool option"

record permit_env =
  pe_env :: "(string \<times> string) list"
  pe_home :: ppath
  pe_cwd :: ppath
  pe_repo :: "ppath option"
  pe_repo_identity :: string
  pe_local_offset :: int

definition format_dt :: "instant \<Rightarrow> string" where
  "format_dt t = replace_sub ''+00:00'' ''Z'' (isoformat_utc t)"

definition json_opt_bool :: "bool option \<Rightarrow> json" where
  "json_opt_bool v = (case v of None \<Rightarrow> JNull | Some b \<Rightarrow> JBool b)"

definition permit_to_document :: "LivePermit \<Rightarrow> jobj" where
  "permit_to_document p =
     [(''permitId'', JStr (pt_permit_id p)), (''scope'', JStr (pt_scope p)),
      (''profileId'', JStr (pt_profile_id p)), (''kind'', JStr (pt_kind p)),
      (''direction'', JStr (pt_direction p)), (''dateFrom'', JStr (pt_date_from p)),
      (''dateTo'', JStr (pt_date_to p)), (''maxRangeDays'', JInt (pt_max_range_days p)),
      (''maxAttempts'', JInt (pt_max_attempts p)), (''allowRealSat'', JBool (pt_allow_real_sat p)),
      (''allowRealCredentials'', JBool (pt_allow_real_credentials p)),
      (''createdAt'', JStr (format_dt (pt_created_at p))), (''expiresAt'', JStr (format_dt (pt_expires_at p))),
      (''issuedBy'', JStr (pt_issued_by p)), (''reason'', JStr (pt_reason p)),
      (''consumed'', JBool (pt_consumed p)),
      (''consumedAt'', (case pt_consumed_at p of None \<Rightarrow> JNull | Some t \<Rightarrow> JStr (format_dt t))),
      (''redactionRequired'', JBool (pt_redaction_required p)),
      (''repoRootHash'', JStr (pt_repo_root_hash p)),
      (''authEnvelopeVariant'', json_opt (pt_auth_envelope_variant p)),
      (''wcfActionHeaderEnabled'', json_opt_bool (pt_wcf_action_header_enabled p))]"

definition parse_dt :: "permit_env \<Rightarrow> string \<Rightarrow> instant result" where
  "parse_dt en s =
     (let v = (if py_endswith ''Z'' s then butlast s @ ''+00:00'' else s) in
      case fromisoformat v of
        None \<Rightarrow> permit_error ''permit-invalid-datetime''
      | Some (Naive w) \<Rightarrow> dt_check (w - pe_local_offset en)
      | Some (Aware w off) \<Rightarrow> dt_check (w - off))"

definition doc_str :: "jobj \<Rightarrow> string \<Rightarrow> string result" where
  "doc_str d k =
     (case jget d k of
        JStr s \<Rightarrow> (if py_strip s = [] then permit_error (''permit-'' @ k @ ''-invalid'') else Inr s)
      | _ \<Rightarrow> permit_error (''permit-'' @ k @ ''-invalid''))"

definition doc_bool :: "jobj \<Rightarrow> string \<Rightarrow> bool result" where
  "doc_bool d k = (case jget d k of JBool b \<Rightarrow> Inr b | _ \<Rightarrow> permit_error (''permit-'' @ k @ ''-invalid''))"

definition doc_int :: "jobj \<Rightarrow> string \<Rightarrow> int result" where
  "doc_int d k = (case jget d k of JInt i \<Rightarrow> Inr i | _ \<Rightarrow> permit_error (''permit-'' @ k @ ''-invalid''))"

definition doc_dt :: "permit_env \<Rightarrow> jobj \<Rightarrow> string \<Rightarrow> instant result" where
  "doc_dt en d k = bindR (doc_str d k) (parse_dt en)"

definition doc_opt_dt :: "permit_env \<Rightarrow> json \<Rightarrow> instant option result" where
  "doc_opt_dt en v =
     (case v of JNull \<Rightarrow> Inr None | JStr s \<Rightarrow> bindR (parse_dt en s) (\<lambda>t. Inr (Some t))
      | _ \<Rightarrow> permit_error ''permit-invalid-consumed-at'')"

definition doc_opt_str :: "json \<Rightarrow> string option result" where
  "doc_opt_str v =
     (case v of JNull \<Rightarrow> Inr None
      | JStr s \<Rightarrow> (if py_strip s = [] then permit_error ''permit-optional-string-invalid'' else Inr (Some s))
      | _ \<Rightarrow> permit_error ''permit-optional-string-invalid'')"

definition doc_opt_bool :: "json \<Rightarrow> bool option result" where
  "doc_opt_bool v =
     (case v of JNull \<Rightarrow> Inr None | JBool b \<Rightarrow> Inr (Some b)
      | _ \<Rightarrow> permit_error ''permit-optional-bool-invalid'')"

definition permit_from_document :: "permit_env \<Rightarrow> jobj \<Rightarrow> LivePermit result" where
  "permit_from_document en d =
     bindR (doc_str d ''permitId'') (\<lambda>pid. bindR (doc_str d ''scope'') (\<lambda>scope.
     bindR (doc_str d ''profileId'') (\<lambda>profile. bindR (doc_str d ''kind'') (\<lambda>kind.
     bindR (doc_str d ''direction'') (\<lambda>dir. bindR (doc_str d ''dateFrom'') (\<lambda>dfrom.
     bindR (doc_str d ''dateTo'') (\<lambda>dto. bindR (doc_int d ''maxRangeDays'') (\<lambda>range.
     bindR (doc_int d ''maxAttempts'') (\<lambda>attempts. bindR (doc_bool d ''allowRealSat'') (\<lambda>sat.
     bindR (doc_bool d ''allowRealCredentials'') (\<lambda>creds. bindR (doc_dt en d ''createdAt'') (\<lambda>created.
     bindR (doc_dt en d ''expiresAt'') (\<lambda>expires. bindR (doc_str d ''issuedBy'') (\<lambda>issued.
     bindR (doc_str d ''reason'') (\<lambda>reason. bindR (doc_bool d ''consumed'') (\<lambda>consumed.
     bindR (doc_opt_dt en (jget d ''consumedAt'')) (\<lambda>consumed_at.
     bindR (doc_bool d ''redactionRequired'') (\<lambda>redaction. bindR (doc_str d ''repoRootHash'') (\<lambda>repo.
     bindR (doc_opt_str (jget d ''authEnvelopeVariant'')) (\<lambda>variant.
     bindR (doc_opt_bool (jget d ''wcfActionHeaderEnabled'')) (\<lambda>wcf.
       Inr \<lparr>pt_permit_id = pid, pt_scope = scope, pt_profile_id = profile, pt_kind = kind,
         pt_direction = dir, pt_date_from = dfrom, pt_date_to = dto, pt_max_range_days = range,
         pt_max_attempts = attempts, pt_allow_real_sat = sat, pt_allow_real_credentials = creds,
         pt_created_at = created, pt_expires_at = expires, pt_issued_by = issued, pt_reason = reason,
         pt_consumed = consumed, pt_consumed_at = consumed_at, pt_redaction_required = redaction,
         pt_repo_root_hash = repo, pt_auth_envelope_variant = variant,
         pt_wcf_action_header_enabled = wcf\<rparr>)))))))))))))))))))))"

subsection \<open>Files\<close>

datatype permit_file = PermitCutShort | PermitDoc json

datatype write_outcome = WriteOk | WriteRefused | WriteCutShort

record permit_fs =
  pf_files :: "ppath \<Rightarrow> permit_file option"
  pf_faults :: "write_outcome list"

definition permit_root :: "permit_env \<Rightarrow> ppath" where
  "permit_root en = path_join (resolve_appdata_root (pe_env en) (pe_home en)) ''permits''"

definition resolve_path :: "permit_env \<Rightarrow> ppath \<Rightarrow> ppath" where
  "resolve_path en p =
     (let q = expanduser (pe_home en) p in
      path_resolve (if pp_root q = [] then (pe_cwd en)\<lparr>pp_parts := pp_parts (pe_cwd en) @ pp_parts q\<rparr> else q))"

definition permit_id_shape :: "string \<Rightarrow> bool" where
  "permit_id_shape s \<longleftrightarrow> class_run (\<lambda>c. char_is_alnum c \<or> c = CHR ''_'' \<or> c = CHR ''-'') 8 128 s"

definition resolve_live_permit_reference :: "permit_env \<Rightarrow> string \<Rightarrow> ppath result" where
  "resolve_live_permit_reference en ref =
     (let raw = py_strip ref in
      if raw = [] then permit_error ''permit-required''
      else if permit_id_shape raw \<and> \<not> py_endswith ''.json'' (py_lower raw)
        then Inr (path_join (permit_root en) (''live-permit-'' @ raw @ ''.json''))
      else Inr (expanduser (pe_home en) (mk_path raw)))"

definition validated_permit_path :: "permit_env \<Rightarrow> ppath \<Rightarrow> ppath result" where
  "validated_permit_path en p =
     (let resolved = resolve_path en p in
      if is_relative_to resolved (resolve_path en (permit_root en)) then Inr resolved
      else permit_error ''permit-outside-appdata'')"

definition load_live_execution_permit ::
  "permit_env \<Rightarrow> permit_fs \<Rightarrow> string \<Rightarrow> (LivePermit \<times> ppath) result" where
  "load_live_execution_permit en fs ref =
     bindR (resolve_live_permit_reference en ref) (\<lambda>p.
     bindR (validated_permit_path en p) (\<lambda>path.
       case pf_files fs path of
         None \<Rightarrow> permit_error ''permit-not-found''
       | Some PermitCutShort \<Rightarrow> permit_error ''permit-invalid-json''
       | Some (PermitDoc (JObj d)) \<Rightarrow> bindR (permit_from_document en d) (\<lambda>pt. Inr (pt, path))
       | Some (PermitDoc _) \<Rightarrow> Inl AttributeError))"

definition write_permit_document :: "permit_fs \<Rightarrow> ppath \<Rightarrow> LivePermit \<Rightarrow> unit result \<times> permit_fs" where
  "write_permit_document fs path p =
     (let fs' = fs\<lparr>pf_faults := tl (pf_faults fs)\<rparr> in
      case (if pf_faults fs = [] then WriteOk else hd (pf_faults fs)) of
        WriteOk \<Rightarrow> (Inr (), fs'\<lparr>pf_files := (pf_files fs)(path \<mapsto> PermitDoc (JObj (permit_to_document p)))\<rparr>)
      | WriteRefused \<Rightarrow> (Inl OSError, fs')
      | WriteCutShort \<Rightarrow> (Inl OSError, fs'\<lparr>pf_files := (pf_files fs)(path \<mapsto> PermitCutShort)\<rparr>))"

subsection \<open>Validation\<close>

definition parse_permit_date :: "string \<Rightarrow> int result" where
  "parse_permit_date s = (case date_fromisoformat s of Some d \<Rightarrow> Inr d | None \<Rightarrow> permit_error ''invalid-date'')"

definition validate_date_range :: "string \<Rightarrow> string \<Rightarrow> int \<Rightarrow> unit result" where
  "validate_date_range dfrom dto max_days =
     bindR (parse_permit_date dfrom) (\<lambda>s. bindR (parse_permit_date dto) (\<lambda>e.
     if e < s then permit_error ''invalid-date-range''
     else if max_days < e - s + 1 then permit_error ''range-too-wide'' else Inr ()))"

definition safe_profile_id :: "string \<Rightarrow> string result" where
  "safe_profile_id v =
     (case validate_profile_id v of Inr p \<Rightarrow> Inr p | Inl _ \<Rightarrow> permit_error ''invalid-profile'')"

definition request_envelope ::
  "LivePermitRequest \<Rightarrow> (string option \<times> bool option) result" where
  "request_envelope r =
     (if pr_scope r = ''auth_live_smoke'' then
        let variant = str_or (opt_str (pr_auth_envelope_variant r)) SECURITY_ONLY in
        if variant \<notin> set AUTH_ENVELOPE_VARIANTS then permit_error ''invalid-auth-envelope-variant''
        else let wcf = (case pr_wcf_action_header_enabled r of None \<Rightarrow> variant \<noteq> SECURITY_ONLY | Some b \<Rightarrow> b) in
          if variant \<noteq> SECURITY_ONLY \<and> \<not> wcf then permit_error ''wcf-action-header-required''
          else Inr (Some variant, Some wcf)
      else if pr_auth_envelope_variant r \<noteq> None \<or> pr_wcf_action_header_enabled r \<noteq> None
        then permit_error ''auth-envelope-options-not-applicable''
      else Inr (None, None))"

definition validated_request :: "LivePermitRequest \<Rightarrow> LivePermitRequest result" where
  "validated_request r =
     (if pr_scope r \<notin> set ALLOWED_SCOPES then permit_error ''invalid-scope''
      else bindR (safe_profile_id (pr_profile_id r)) (\<lambda>profile.
      if pr_kind r \<noteq> RequestType_value RT_METADATA then permit_error ''metadata-only-required''
      else if pr_direction r \<notin> {DownloadDirection_value RECEIVED, DownloadDirection_value ISSUED}
        then permit_error ''invalid-direction''
      else bindR (validate_date_range (pr_date_from r) (pr_date_to r) (max_range_days (pr_scope r))) (\<lambda>_.
      if py_strip (pr_reason r) = [] then permit_error ''reason-required''
      else if pr_issued_by r \<noteq> ''carlos-local'' then permit_error ''invalid-issuer''
      else if pr_expires_minutes r < 1 \<or> MAX_EXPIRES_MINUTES < pr_expires_minutes r
        then permit_error ''invalid-expiration-window''
      else bindR (request_envelope r) (\<lambda>(variant, wcf).
        Inr (r\<lparr>pr_profile_id := profile, pr_reason := py_strip (pr_reason r),
               pr_auth_envelope_variant := variant, pr_wcf_action_header_enabled := wcf\<rparr>)))))"

definition validate_document_policy :: "permit_env \<Rightarrow> LivePermit \<Rightarrow> instant \<Rightarrow> unit result" where
  "validate_document_policy en p now =
     (if pt_consumed p then permit_error ''permit-already-consumed''
      else if pt_expires_at p \<le> now then permit_error ''permit-expired''
      else if pt_max_range_days p \<noteq> max_range_days (pt_scope p) then permit_error ''permit-range-policy-invalid''
      else if pt_max_attempts p \<noteq> MAX_ATTEMPTS then permit_error ''permit-attempt-policy-invalid''
      else if pt_kind p \<noteq> RequestType_value RT_METADATA then permit_error ''metadata-only-required''
      else bindR (validate_date_range (pt_date_from p) (pt_date_to p) (pt_max_range_days p)) (\<lambda>_.
      if \<not> pt_allow_real_sat p then permit_error ''permit-real-sat-not-allowed''
      else if pt_scope p \<in> set CREDENTIAL_REQUIRED_SCOPES \<and> \<not> pt_allow_real_credentials p
        then permit_error ''permit-real-credentials-not-allowed''
      else if pt_scope p \<in> set PROBE_SCOPES \<and> pt_allow_real_credentials p
        then permit_error ''permit-unneeded-credentials''
      else if pt_scope p \<notin> set ALLOWED_SCOPES then permit_error ''invalid-scope''
      else bindR
        (if pt_scope p = ''auth_live_smoke'' then
           (case pt_auth_envelope_variant p of
              None \<Rightarrow> permit_error ''permit-auth-envelope-variant-required''
            | Some v \<Rightarrow>
                if v \<notin> set AUTH_ENVELOPE_VARIANTS then permit_error ''permit-auth-envelope-variant-required''
                else if v \<noteq> SECURITY_ONLY \<and> pt_wcf_action_header_enabled p \<noteq> Some True
                then permit_error ''permit-wcf-action-header-required'' else Inr ())
         else if pt_auth_envelope_variant p \<noteq> None \<or> pt_wcf_action_header_enabled p \<noteq> None
           then permit_error ''permit-auth-envelope-options-not-applicable'' else Inr ()) (\<lambda>_.
      if \<not> pt_redaction_required p then permit_error ''permit-redaction-required''
      else if pt_repo_root_hash p \<noteq> pe_repo_identity en then permit_error ''permit-repo-identity-mismatch''
      else Inr ())))"

subsection \<open>Creating and consuming\<close>

definition root_inside_repo :: "permit_env \<Rightarrow> bool" where
  "root_inside_repo en =
     (case pe_repo en of None \<Rightarrow> False
      | Some repo \<Rightarrow> is_relative_to (resolve_path en (permit_root en)) (resolve_path en repo))"

text \<open>\<open>token\<close> is \<open>secrets.token_urlsafe(12)\<close>.\<close>

definition create_live_execution_permit ::
  "permit_env \<Rightarrow> permit_fs \<Rightarrow> LivePermitRequest \<Rightarrow> string \<Rightarrow> instant
    \<Rightarrow> (LivePermit \<times> ppath) result \<times> permit_fs" where
  "create_live_execution_permit en fs request token now =
     (case bindR (validated_request request) (\<lambda>r.
           bindR (raise_if (root_inside_repo en) (LivePermitError ''permit-root-inside-repo'')) (\<lambda>_.
           bindR (dt_add now (pr_expires_minutes r * us_minute)) (\<lambda>expires.
           Inr \<lparr>pt_permit_id = token, pt_scope = pr_scope r, pt_profile_id = pr_profile_id r,
             pt_kind = pr_kind r, pt_direction = pr_direction r, pt_date_from = pr_date_from r,
             pt_date_to = pr_date_to r, pt_max_range_days = max_range_days (pr_scope r),
             pt_max_attempts = MAX_ATTEMPTS, pt_allow_real_sat = True,
             pt_allow_real_credentials = (pr_scope r \<in> set CREDENTIAL_REQUIRED_SCOPES),
             pt_created_at = now, pt_expires_at = expires, pt_issued_by = pr_issued_by r,
             pt_reason = pr_reason r, pt_consumed = False, pt_consumed_at = None,
             pt_redaction_required = True, pt_repo_root_hash = pe_repo_identity en,
             pt_auth_envelope_variant = pr_auth_envelope_variant r,
             pt_wcf_action_header_enabled = pr_wcf_action_header_enabled r\<rparr>))) of
        Inl e \<Rightarrow> (Inl e, fs)
      | Inr p \<Rightarrow>
          let path = path_join (permit_root en) (''live-permit-'' @ token @ ''.json'') in
          (case write_permit_document fs (resolve_path en path) p of
             (Inl e, fs') \<Rightarrow> (Inl e, fs')
           | (Inr _, fs') \<Rightarrow> (Inr (p, path), fs')))"

record permit_expectation =
  ex_scope :: string
  ex_profile_id :: string
  ex_kind :: string
  ex_direction :: string
  ex_date_from :: string
  ex_date_to :: string
  ex_variant :: "string option"
  ex_wcf :: "bool option"

definition check_expectation :: "LivePermit \<Rightarrow> permit_expectation \<Rightarrow> string \<Rightarrow> unit result" where
  "check_expectation p x profile =
     (if pt_scope p \<noteq> ex_scope x then permit_error ''permit-scope-mismatch''
      else if pt_profile_id p \<noteq> profile then permit_error ''permit-profileId-mismatch''
      else if pt_kind p \<noteq> ex_kind x then permit_error ''permit-kind-mismatch''
      else if pt_direction p \<noteq> ex_direction x then permit_error ''permit-direction-mismatch''
      else if pt_date_from p \<noteq> ex_date_from x then permit_error ''permit-dateFrom-mismatch''
      else if pt_date_to p \<noteq> ex_date_to x then permit_error ''permit-dateTo-mismatch''
      else if ex_variant x \<noteq> None \<and> opt_str (pt_auth_envelope_variant p) \<noteq> the (ex_variant x)
        then permit_error ''permit-authEnvelopeVariant-mismatch''
      else if ex_wcf x \<noteq> None \<and> pt_wcf_action_header_enabled p \<noteq> ex_wcf x
        then permit_error ''permit-wcfActionHeaderEnabled-mismatch''
      else Inr ())"

definition validate_and_consume_live_permit ::
  "permit_env \<Rightarrow> permit_fs \<Rightarrow> string \<Rightarrow> permit_expectation \<Rightarrow> instant \<Rightarrow> LivePermit result \<times> permit_fs" where
  "validate_and_consume_live_permit en fs ref x now =
     (case bindR (load_live_execution_permit en fs ref) (\<lambda>(p, path).
           if ex_scope x = ''auth_live_smoke'' \<and> (ex_variant x = None \<or> ex_wcf x = None)
           then permit_error ''permit-auth-envelope-expectation-required''
           else bindR (safe_profile_id (ex_profile_id x)) (\<lambda>profile.
           bindR (check_expectation p x profile) (\<lambda>_.
           bindR (validate_document_policy en p now) (\<lambda>_.
             Inr (p\<lparr>pt_consumed := True, pt_consumed_at := Some now\<rparr>, path))))) of
        Inl e \<Rightarrow> (Inl e, fs)
      | Inr (consumed, path) \<Rightarrow>
          (case write_permit_document fs path consumed of
             (Inl e, fs') \<Rightarrow> (Inl e, fs')
           | (Inr _, fs') \<Rightarrow> (Inr consumed, fs')))"

text \<open>\<open>value.date().isoformat()\<close> is the date of the wall clock.\<close>

definition wall_date :: "pydt \<Rightarrow> string" where
  "wall_date v = iso_date ((case v of Naive w \<Rightarrow> w | Aware w _ \<Rightarrow> w) div us_day + 1)"

definition permit_expectation_from_query ::
  "string \<Rightarrow> string \<Rightarrow> DownloadQuery \<Rightarrow> permit_expectation result" where
  "permit_expectation_from_query scope profile_id q =
     (case q_period q of
        None \<Rightarrow> permit_error ''permit-query-period-required''
      | Some p \<Rightarrow> Inr \<lparr>ex_scope = scope, ex_profile_id = profile_id,
          ex_kind = RequestType_value (q_request_type q),
          ex_direction = DownloadDirection_value (q_direction q),
          ex_date_from = wall_date (p_start p), ex_date_to = wall_date (p_end p),
          ex_variant = None, ex_wcf = None\<rparr>)"

definition transport_probe_permit_expectation ::
  "permit_env \<Rightarrow> permit_fs \<Rightarrow> string \<Rightarrow> string \<Rightarrow> permit_expectation result" where
  "transport_probe_permit_expectation en fs profile_id ref =
     bindR (load_live_execution_permit en fs ref) (\<lambda>(p, path).
       Inr \<lparr>ex_scope = ''transport_probe'', ex_profile_id = profile_id,
         ex_kind = RequestType_value RT_METADATA, ex_direction = pt_direction p,
         ex_date_from = pt_date_from p, ex_date_to = pt_date_to p, ex_variant = None, ex_wcf = None\<rparr>)"

definition auth_live_smoke_permit_expectation ::
  "permit_env \<Rightarrow> permit_fs \<Rightarrow> string \<Rightarrow> string \<Rightarrow> permit_expectation result" where
  "auth_live_smoke_permit_expectation en fs profile_id ref =
     bindR (load_live_execution_permit en fs ref) (\<lambda>(p, path).
       Inr \<lparr>ex_scope = ''auth_live_smoke'', ex_profile_id = profile_id,
         ex_kind = RequestType_value RT_METADATA, ex_direction = pt_direction p,
         ex_date_from = pt_date_from p, ex_date_to = pt_date_to p,
         ex_variant = Some (opt_str (pt_auth_envelope_variant p)), ex_wcf = pt_wcf_action_header_enabled p\<rparr>)"

subsection \<open>Round trips\<close>

definition permit_valid :: "LivePermit \<Rightarrow> bool" where
  "permit_valid p \<longleftrightarrow>
     (\<forall>s \<in> {pt_permit_id p, pt_scope p, pt_profile_id p, pt_kind p, pt_direction p, pt_date_from p,
            pt_date_to p, pt_issued_by p, pt_reason p, pt_repo_root_hash p}. py_strip s \<noteq> [])
     \<and> dt_ok (pt_created_at p) \<and> dt_ok (pt_expires_at p)
     \<and> (\<forall>t. pt_consumed_at p = Some t \<longrightarrow> dt_ok t)
     \<and> (\<forall>s. pt_auth_envelope_variant p = Some s \<longrightarrow> py_strip s \<noteq> [])"

lemma format_dt_eq: "format_dt t = iso_wall t @ ''Z''"
  by (simp add: format_dt_def isoformat_utc_z)

lemma parse_format_dt [simp]: "dt_ok t \<Longrightarrow> parse_dt en (format_dt t) = Inr t"
  by (simp add: parse_dt_def format_dt_eq py_endswith_def fromisoformat_iso_wall Let_def)

lemma format_dt_text: "py_strip (format_dt t) \<noteq> []"
proof -
  have "\<not> char_is_space (CHR ''Z'')" by code_simp
  then show ?thesis by (auto simp: py_strip_eq_Nil format_dt_eq)
qed

lemma doc_simps [simp]:
  "jget d k = JStr s \<Longrightarrow> py_strip s \<noteq> [] \<Longrightarrow> doc_str d k = Inr s"
  "jget d k = JBool b \<Longrightarrow> doc_bool d k = Inr b"
  "jget d k = JInt i \<Longrightarrow> doc_int d k = Inr i"
  "jget d k = JStr (format_dt t) \<Longrightarrow> dt_ok t \<Longrightarrow> doc_dt en d k = Inr t"
  "doc_opt_dt en JNull = Inr None"
  "dt_ok t \<Longrightarrow> doc_opt_dt en (JStr (format_dt t)) = Inr (Some t)"
  "(\<And>s. v = Some s \<Longrightarrow> py_strip s \<noteq> []) \<Longrightarrow> doc_opt_str (json_opt v) = Inr v"
  "doc_opt_bool (json_opt_bool w) = Inr w"
  by (simp_all add: doc_str_def doc_bool_def doc_int_def doc_dt_def doc_opt_dt_def doc_opt_str_def
      doc_opt_bool_def json_opt_bool_def json_opt_def format_dt_text split: option.splits)

lemma permit_document_roundtrip:
  assumes "permit_valid p"
  shows "permit_from_document en (permit_to_document p) = Inr p"
proof -
  let ?d = "permit_to_document p"
  have t: "doc_str ?d ''permitId'' = Inr (pt_permit_id p)" "doc_str ?d ''scope'' = Inr (pt_scope p)"
    "doc_str ?d ''profileId'' = Inr (pt_profile_id p)" "doc_str ?d ''kind'' = Inr (pt_kind p)"
    "doc_str ?d ''direction'' = Inr (pt_direction p)" "doc_str ?d ''dateFrom'' = Inr (pt_date_from p)"
    "doc_str ?d ''dateTo'' = Inr (pt_date_to p)" "doc_str ?d ''issuedBy'' = Inr (pt_issued_by p)"
    "doc_str ?d ''reason'' = Inr (pt_reason p)" "doc_str ?d ''repoRootHash'' = Inr (pt_repo_root_hash p)"
    using assms by (simp_all add: permit_valid_def permit_to_document_def)
  have b: "doc_int ?d ''maxRangeDays'' = Inr (pt_max_range_days p)"
    "doc_int ?d ''maxAttempts'' = Inr (pt_max_attempts p)"
    "doc_bool ?d ''allowRealSat'' = Inr (pt_allow_real_sat p)"
    "doc_bool ?d ''allowRealCredentials'' = Inr (pt_allow_real_credentials p)"
    "doc_bool ?d ''consumed'' = Inr (pt_consumed p)"
    "doc_bool ?d ''redactionRequired'' = Inr (pt_redaction_required p)"
    by (simp_all add: permit_to_document_def)
  have dt: "doc_dt en ?d ''createdAt'' = Inr (pt_created_at p)" "doc_dt en ?d ''expiresAt'' = Inr (pt_expires_at p)"
    using assms by (simp_all add: permit_valid_def permit_to_document_def)
  have j: "jget ?d ''consumedAt'' = (case pt_consumed_at p of None \<Rightarrow> JNull | Some t \<Rightarrow> JStr (format_dt t))"
    "jget ?d ''authEnvelopeVariant'' = json_opt (pt_auth_envelope_variant p)"
    "jget ?d ''wcfActionHeaderEnabled'' = json_opt_bool (pt_wcf_action_header_enabled p)"
    by (simp_all add: permit_to_document_def)
  have o: "doc_opt_dt en (jget ?d ''consumedAt'') = Inr (pt_consumed_at p)"
    "doc_opt_str (jget ?d ''authEnvelopeVariant'') = Inr (pt_auth_envelope_variant p)"
    "doc_opt_bool (jget ?d ''wcfActionHeaderEnabled'') = Inr (pt_wcf_action_header_enabled p)"
    using assms by (simp_all add: j permit_valid_def split: option.split)
  show ?thesis by (simp add: permit_from_document_def t b dt o)
qed

text \<open>A permit named by its id lies under the permit folder, and every loaded permit does.\<close>

lemma token_not_space:
  assumes "permit_id_shape s"
  shows "py_strip s = s" "s \<noteq> []" "CHR ''/'' \<notin> set s" "CHR ''.'' \<notin> set s"
proof -
  let ?P = "\<lambda>c. char_is_alnum c \<or> c = CHR ''_'' \<or> c = CHR ''-''"
  have all: "\<forall>c \<in> set s. ?P c" and ne: "s \<noteq> []"
    using assms by (auto simp: permit_id_shape_def class_run_def list_all_iff)
  have "\<not> ?P (CHR ''/'')" "\<not> ?P (CHR ''.'')" by code_simp+
  with all show "CHR ''/'' \<notin> set s" "CHR ''.'' \<notin> set s" by blast+
  have "char_is_space c \<Longrightarrow> \<not> ?P c" for c
    by (auto simp: char_is_space_def char_is_alnum_def char_is_digit_def char_is_upper_def
        char_is_lower_def char_code_def)
  then have "\<not> char_is_space (hd s)" "\<not> char_is_space (last s)"
    using all hd_in_set [OF ne] last_in_set [OF ne] by blast+
  with ne show "py_strip s = s" "s \<noteq> []" by (simp_all add: py_strip_fixed)
qed

definition permit_name :: "string \<Rightarrow> string" where
  "permit_name token = ''live-permit-'' @ token @ ''.json''"

lemma permit_name_part:
  assumes "permit_id_shape t"
  shows "path_root (permit_name t) = []" "path_parts (permit_name t) = [permit_name t]"
proof -
  have no: "CHR ''/'' \<notin> set (permit_name t)"
    using token_not_space(3) [OF assms] by (auto simp: permit_name_def)
  then show "path_root (permit_name t) = []"
    by (simp add: path_root_def py_startswith_def permit_name_def)
  show "path_parts (permit_name t) = [permit_name t]"
    using split_on_aux_absent [OF no, of "[]"] by (simp add: path_parts_def split_on_def permit_name_def)
qed

lemma permit_path:
  assumes "permit_id_shape t"
  shows "resolve_path en (path_join (permit_root en) (permit_name t))
      = (resolve_path en (permit_root en))\<lparr>pp_parts :=
          pp_parts (resolve_path en (permit_root en)) @ [permit_name t]\<rparr>"
proof -
  obtain R where R: "permit_root en = R\<lparr>pp_parts := pp_parts R @ [''permits'']\<rparr>"
    using fixed_parts by (metis permit_root_def path_join_part)
  have dots: "permit_name t \<noteq> ''..''" by (simp add: permit_name_def)
  have "expanduser h (R\<lparr>pp_parts := pp_parts R @ [''permits'', permit_name t]\<rparr>)
      = (expanduser h (R\<lparr>pp_parts := pp_parts R @ [''permits'']\<rparr>))\<lparr>pp_parts :=
          pp_parts (expanduser h (R\<lparr>pp_parts := pp_parts R @ [''permits'']\<rparr>)) @ [permit_name t]\<rparr>" for h
    by (cases "pp_parts R") (auto simp: expanduser_def)
  then show ?thesis
    using dots by (simp add: R path_join_part permit_name_part [OF assms] resolve_path_def Let_def
        path_resolve_def resolve_parts_append)
qed

lemma permit_reference:
  assumes "permit_id_shape t"
  shows "resolve_live_permit_reference en t = Inr (path_join (permit_root en) (permit_name t))"
    and "validated_permit_path en (path_join (permit_root en) (permit_name t))
      = Inr (resolve_path en (path_join (permit_root en) (permit_name t)))"
proof -
  note tk = token_not_space [OF assms]
  have low: "c = CHR ''.''" if "char_lower c = CHR ''.''" for c
  proof (rule ccontr)
    assume "c \<noteq> CHR ''.''"
    then have up: "char_is_upper c" and "char_of (char_code c + 32) = CHR ''.''"
      using that by (auto simp: char_lower_def split: if_splits)
    then have "char_code (char_of (char_code c + 32)) = 46" by (simp add: char_code_def)
    then show False using up char_code_char_of [of "char_code c + 32"] by (simp add: char_is_upper_def)
  qed
  have "CHR ''.'' \<notin> set (py_lower t)"
    using tk(4) low by (metis (no_types, lifting) imageE list.set_map py_lower_def)
  then have "CHR ''.'' \<notin> set (rev (py_lower t))" by simp
  then have "\<not> py_endswith ''.json'' (py_lower t)"
    unfolding py_endswith_def py_startswith_def
    by (metis in_set_takeD list.set_intros(1) list.set_intros(2) rev.simps(2) rev_rev_ident set_rev)
  then show "resolve_live_permit_reference en t = Inr (path_join (permit_root en) (permit_name t))"
    using tk assms by (simp add: resolve_live_permit_reference_def permit_name_def Let_def)
  show "validated_permit_path en (path_join (permit_root en) (permit_name t))
      = Inr (resolve_path en (path_join (permit_root en) (permit_name t)))"
    by (simp add: validated_permit_path_def permit_path [OF assms] is_relative_to_def Let_def)
qed

subsection \<open>Consuming\<close>

lemma load_permit_cases:
  assumes "load_live_execution_permit en fs ref = Inr (p, path)"
  obtains q d where "resolve_live_permit_reference en ref = Inr q" "validated_permit_path en q = Inr path"
    "pf_files fs path = Some (PermitDoc (JObj d))" "permit_from_document en d = Inr p"
  using assms unfolding load_live_execution_permit_def
  by (elim bindR_InrE) (auto simp: result_simps split: option.splits permit_file.splits json.splits)

lemma consume_cases:
  assumes "validate_and_consume_live_permit en fs ref x now = (Inr c, fs')"
  obtains p path profile where "load_live_execution_permit en fs ref = Inr (p, path)"
    "safe_profile_id (ex_profile_id x) = Inr profile" "check_expectation p x profile = Inr ()"
    "validate_document_policy en p now = Inr ()"
    "c = p\<lparr>pt_consumed := True, pt_consumed_at := Some now\<rparr>"
    "write_permit_document fs path c = (Inr (), fs')"
  using assms unfolding validate_and_consume_live_permit_def
  by (auto simp: result_simps split: sum.splits prod.splits if_splits)

lemma write_permit_cases:
  "write_permit_document fs path p = (r, fs') \<Longrightarrow>
     (r = Inr () \<and> pf_files fs' = (pf_files fs)(path \<mapsto> PermitDoc (JObj (permit_to_document p))))
   \<or> (r = Inl OSError \<and> (pf_files fs' = pf_files fs \<or> pf_files fs' = (pf_files fs)(path \<mapsto> PermitCutShort)))"
  by (auto simp: write_permit_document_def Let_def split: write_outcome.splits if_splits)

text \<open>The file of a permit that was used, or whose consumption was cut short.\<close>

definition spent :: "permit_fs \<Rightarrow> ppath \<Rightarrow> bool" where
  "spent fs path \<longleftrightarrow>
     (case pf_files fs path of None \<Rightarrow> True | Some PermitCutShort \<Rightarrow> True
      | Some (PermitDoc (JObj d)) \<Rightarrow> jget d ''consumed'' = JBool True | Some (PermitDoc _) \<Rightarrow> True)"

lemma spent_not_loaded:
  assumes "load_live_execution_permit en fs ref = Inr (p, path)" "spent fs path"
  shows "pt_consumed p"
proof -
  from assms(1) obtain d where d: "pf_files fs path = Some (PermitDoc (JObj d))" "permit_from_document en d = Inr p"
    by (cases rule: load_permit_cases)
  then have "doc_bool d ''consumed'' = Inr True" using assms(2) by (simp add: spent_def)
  with d(2) show ?thesis unfolding permit_from_document_def
    by (elim bindR_InrE) auto
qed

lemma spent_written [simp]:
  "pt_consumed p \<Longrightarrow> pf_files fs' = (pf_files fs)(path \<mapsto> PermitDoc (JObj (permit_to_document p))) \<Longrightarrow> spent fs' path"
  by (simp add: spent_def permit_to_document_def)

lemma consume_error_writes:
  assumes "validate_and_consume_live_permit en fs ref x now = (Inl e, fs')"
  shows "pf_files fs' = pf_files fs \<or> (\<exists>p path. load_live_execution_permit en fs ref = Inr (p, path)
    \<and> pf_files fs' = (pf_files fs)(path \<mapsto> PermitCutShort))"
  using assms unfolding validate_and_consume_live_permit_def
  by (auto simp: result_simps split: sum.splits prod.splits if_splits dest!: write_permit_cases)

lemma policy_not_consumed: "validate_document_policy en p now = Inr () \<Longrightarrow> \<not> pt_consumed p"
  by (simp add: validate_document_policy_def split: if_splits)

subsection \<open>Runs\<close>

datatype permit_op =
    OpCreate permit_env LivePermitRequest string instant
  | OpConsume permit_env string permit_expectation instant

definition permit_step :: "permit_op \<Rightarrow> permit_fs \<Rightarrow> permit_fs" where
  "permit_step op fs =
     (case op of OpCreate en r token now \<Rightarrow> snd (create_live_execution_permit en fs r token now)
      | OpConsume en ref x now \<Rightarrow> snd (validate_and_consume_live_permit en fs ref x now))"

text \<open>The file a creation would write, and the file a consumption that returned has used.\<close>

definition creates :: "permit_op \<Rightarrow> ppath list" where
  "creates op =
     (case op of OpCreate en r token now \<Rightarrow> [resolve_path en (path_join (permit_root en) (permit_name token))]
      | OpConsume en ref x now \<Rightarrow> [])"

definition consumes :: "permit_op \<Rightarrow> permit_fs \<Rightarrow> ppath list" where
  "consumes op fs =
     (case op of OpCreate en r token now \<Rightarrow> []
      | OpConsume en ref x now \<Rightarrow>
          (case (fst (validate_and_consume_live_permit en fs ref x now), load_live_execution_permit en fs ref) of
             (Inr _, Inr (_, path)) \<Rightarrow> [path] | _ \<Rightarrow> []))"

fun consumed_paths :: "permit_op list \<Rightarrow> permit_fs \<Rightarrow> ppath list" where
  "consumed_paths [] fs = []"
| "consumed_paths (op # ops) fs = consumes op fs @ consumed_paths ops (permit_step op fs)"

lemma create_writes:
  "pf_files (snd (create_live_execution_permit en fs r token now)) = pf_files fs
   \<or> (\<exists>f. pf_files (snd (create_live_execution_permit en fs r token now)) =
        (pf_files fs)(resolve_path en (path_join (permit_root en) (permit_name token)) \<mapsto> f))"
  unfolding create_live_execution_permit_def
  by (auto simp: Let_def permit_name_def split: sum.splits prod.splits dest!: write_permit_cases)

lemma permit_step_spent:
  assumes "spent fs path" "path \<notin> set (creates op)"
  shows "spent (permit_step op fs) path \<and> path \<notin> set (consumes op fs)"
proof (cases op)
  case (OpCreate en r token now)
  then show ?thesis using assms create_writes [of en fs r token now]
    by (auto simp: permit_step_def creates_def consumes_def spent_def)
next
  case (OpConsume en ref x now)
  obtain res fs' where v: "validate_and_consume_live_permit en fs ref x now = (res, fs')"
    by (cases "validate_and_consume_live_permit en fs ref x now")
  show ?thesis
  proof (cases res)
    case (Inl e)
    then have "spent fs' path"
      using assms(1) consume_error_writes [of en fs ref x now e fs'] v by (auto simp: spent_def)
    then show ?thesis using v Inl OpConsume by (simp add: permit_step_def consumes_def)
  next
    case (Inr c)
    then obtain p q where p: "load_live_execution_permit en fs ref = Inr (p, q)" "\<not> pt_consumed p" "pt_consumed c"
      "write_permit_document fs q c = (Inr (), fs')"
      using v by (auto elim!: consume_cases dest: policy_not_consumed)
    then have "q \<noteq> path" using assms(1) spent_not_loaded by blast
    then show ?thesis
      using p(1) assms(1) v Inr OpConsume write_permit_cases [OF p(4)]
      by (auto simp: permit_step_def consumes_def spent_def)
  qed
qed

lemma permit_step_consumes:
  assumes "path \<in> set (consumes op fs)"
  shows "consumes op fs = [path]" "spent (permit_step op fs) path" "creates op = []"
proof -
  obtain en ref x now where op: "op = OpConsume en ref x now"
    using assms by (cases op) (auto simp: consumes_def)
  obtain c fs' p where v: "validate_and_consume_live_permit en fs ref x now = (Inr c, fs')"
    and l: "load_live_execution_permit en fs ref = Inr (p, path)"
    using assms by (cases "validate_and_consume_live_permit en fs ref x now";
      cases "load_live_execution_permit en fs ref") (auto simp: consumes_def op split: sum.splits)
  show "consumes op fs = [path]" "creates op = []" using op v l by (simp_all add: consumes_def creates_def)
  from v l have "write_permit_document fs path c = (Inr (), fs')" "pt_consumed c"
    by (auto elim!: consume_cases)
  then show "spent (permit_step op fs) path"
    using v op write_permit_cases [of fs path c "Inr ()" fs'] by (simp add: permit_step_def)
qed

lemma consumed_paths_bound:
  "count_list (consumed_paths ops fs) path
     \<le> count_list (concat (map creates ops)) path + (if spent fs path then 0 else 1)"
proof (induction ops arbitrary: fs)
  case (Cons op ops)
  note IH = Cons.IH [of "permit_step op fs"]
  show ?case
  proof (cases "path \<in> set (consumes op fs)")
    case True
    then have "\<not> spent fs path" using permit_step_spent [of fs path op] permit_step_consumes(3) by fastforce
    then show ?thesis using IH permit_step_consumes [OF True] by simp
  next
    case False
    then have "count_list (consumes op fs) path = 0" by (simp add: count_list_0_iff)
    moreover have "0 < count_list (creates op) path \<or> (spent fs path \<longrightarrow> spent (permit_step op fs) path)"
      using permit_step_spent [of fs path op]
      by (auto simp: neq0_conv [symmetric] count_list_0_iff simp del: neq0_conv)
    ultimately show ?thesis using IH by (auto split: if_splits)
  qed
qed simp

lemma validated_request_cases:
  assumes "validated_request r = Inr v"
  obtains profile variant wcf where "pr_scope r \<in> set ALLOWED_SCOPES" "profile_id_shape profile"
    "pr_kind r = RequestType_value RT_METADATA"
    "pr_direction r \<in> {DownloadDirection_value RECEIVED, DownloadDirection_value ISSUED}"
    "validate_date_range (pr_date_from r) (pr_date_to r) (max_range_days (pr_scope r)) = Inr ()"
    "py_strip (pr_reason r) \<noteq> []" "pr_issued_by r = ''carlos-local''"
    "1 \<le> pr_expires_minutes r" "pr_expires_minutes r \<le> MAX_EXPIRES_MINUTES"
    "request_envelope r = Inr (variant, wcf)"
    "v = r\<lparr>pr_profile_id := profile, pr_reason := py_strip (pr_reason r),
           pr_auth_envelope_variant := variant, pr_wcf_action_header_enabled := wcf\<rparr>"
  using assms unfolding validated_request_def safe_profile_id_def
  by (auto simp: result_simps validate_profile_id_Inr split: if_splits sum.splits)

lemma validate_date_range_Inr:
  "validate_date_range a b n = Inr () \<longleftrightarrow>
     (\<exists>s e. date_fromisoformat a = Some s \<and> date_fromisoformat b = Some e \<and> s \<le> e \<and> e - s + 1 \<le> n)"
  by (simp add: validate_date_range_def parse_permit_date_def split: option.split)

lemma date_text: "date_fromisoformat s = Some d \<Longrightarrow> py_strip s \<noteq> []"
proof -
  assume "date_fromisoformat s = Some d"
  then obtain x where "read_date s = Some x"
    by (auto simp: date_fromisoformat_def split: option.splits)
  then have "s \<noteq> []" "char_is_digit (hd s)" using read_date_digit by auto
  then show ?thesis
    by (auto simp: py_strip_eq_Nil neq_Nil_conv char_is_space_def char_is_digit_def char_code_def)
qed

text \<open>A policy that accepts: what a consumed permit granted.\<close>

definition within_policy :: "permit_env \<Rightarrow> LivePermit \<Rightarrow> instant \<Rightarrow> bool" where
  "within_policy en p now \<longleftrightarrow>
     now < pt_expires_at p \<and> pt_max_attempts p = MAX_ATTEMPTS \<and> pt_allow_real_sat p \<and> pt_redaction_required p
     \<and> pt_scope p \<in> set ALLOWED_SCOPES \<and> pt_kind p = RequestType_value RT_METADATA
     \<and> (pt_allow_real_credentials p \<longleftrightarrow> pt_scope p \<in> set CREDENTIAL_REQUIRED_SCOPES)
     \<and> pt_repo_root_hash p = pe_repo_identity en
     \<and> (\<exists>s e. date_fromisoformat (pt_date_from p) = Some s \<and> date_fromisoformat (pt_date_to p) = Some e
          \<and> s \<le> e \<and> e - s + 1 \<le> max_range_days (pt_scope p))"

lemma scopes_partition:
  "scope \<in> set ALLOWED_SCOPES \<Longrightarrow> scope \<in> set PROBE_SCOPES \<longleftrightarrow> scope \<notin> set CREDENTIAL_REQUIRED_SCOPES"
  by (auto simp: scope_names)


text \<open>The request that a permit allows.\<close>

definition expectation_of :: "LivePermit \<Rightarrow> permit_expectation" where
  "expectation_of p =
     \<lparr>ex_scope = pt_scope p, ex_profile_id = pt_profile_id p, ex_kind = pt_kind p,
      ex_direction = pt_direction p, ex_date_from = pt_date_from p, ex_date_to = pt_date_to p,
      ex_variant = pt_auth_envelope_variant p, ex_wcf = pt_wcf_action_header_enabled p\<rparr>"

lemma check_expectation_of: "check_expectation p (expectation_of p) (pt_profile_id p) = Inr ()"
  by (cases "pt_auth_envelope_variant p") (simp_all add: check_expectation_def expectation_of_def opt_str_def)

definition envelope_ok :: "LivePermit \<Rightarrow> bool" where
  "envelope_ok p \<longleftrightarrow>
     (if pt_scope p = ''auth_live_smoke''
      then pt_auth_envelope_variant p \<in> Some ` set AUTH_ENVELOPE_VARIANTS \<and> pt_wcf_action_header_enabled p \<noteq> None
        \<and> (pt_auth_envelope_variant p = Some SECURITY_ONLY \<or> pt_wcf_action_header_enabled p = Some True)
      else pt_auth_envelope_variant p = None \<and> pt_wcf_action_header_enabled p = None)"

lemma request_envelope_ok:
  assumes "request_envelope r = Inr (v, w)" "pt_scope p = pr_scope r" "pt_auth_envelope_variant p = v"
    "pt_wcf_action_header_enabled p = w"
  shows "envelope_ok p"
proof -
  have "if pr_scope r = ''auth_live_smoke''
      then v \<in> Some ` set AUTH_ENVELOPE_VARIANTS \<and> w \<noteq> None \<and> (v = Some SECURITY_ONLY \<or> w = Some True)
      else v = None \<and> w = None"
    using assms(1) unfolding request_envelope_def by (auto simp: Let_def split: if_splits option.splits)
  then show ?thesis using assms(2-4) by (simp add: envelope_ok_def)
qed

lemma policy_within:
  assumes "within_policy en p now" "\<not> pt_consumed p" "envelope_ok p"
    "pt_max_range_days p = max_range_days (pt_scope p)"
  shows "validate_document_policy en p now = Inr ()"
proof -
  have r: "validate_date_range (pt_date_from p) (pt_date_to p) (max_range_days (pt_scope p)) = Inr ()"
    using assms(1) by (auto simp: validate_date_range_Inr within_policy_def)
  have s: "pt_scope p \<in> set PROBE_SCOPES \<longleftrightarrow> pt_scope p \<notin> set CREDENTIAL_REQUIRED_SCOPES"
    using assms(1) scopes_partition by (simp add: within_policy_def)
  show ?thesis using assms r s
    by (auto simp: validate_document_policy_def within_policy_def envelope_ok_def)
qed

lemma created_permit:
  assumes "create_live_execution_permit en fs r token now = (Inr (p, path), fs')"
    and "permit_id_shape token" "py_strip (pe_repo_identity en) \<noteq> []" "dt_ok now"
  shows "permit_valid p" "envelope_ok p" "\<not> pt_consumed p" "profile_id_shape (pt_profile_id p)"
    and "t < pt_expires_at p \<Longrightarrow> within_policy en p t"
    and "pt_max_range_days p = max_range_days (pt_scope p)"
    and "now + us_minute \<le> pt_expires_at p" "pt_expires_at p \<le> now + 15 * us_minute"
    and "load_live_execution_permit en fs' token = Inr (p, resolve_path en (path_join (permit_root en) (permit_name token)))"
proof -
  obtain v expires where v: "validated_request r = Inr v" and e: "dt_add now (pr_expires_minutes v * us_minute) = Inr expires"
    and p: "p = \<lparr>pt_permit_id = token, pt_scope = pr_scope v, pt_profile_id = pr_profile_id v,
             pt_kind = pr_kind v, pt_direction = pr_direction v, pt_date_from = pr_date_from v,
             pt_date_to = pr_date_to v, pt_max_range_days = max_range_days (pr_scope v),
             pt_max_attempts = MAX_ATTEMPTS, pt_allow_real_sat = True,
             pt_allow_real_credentials = (pr_scope v \<in> set CREDENTIAL_REQUIRED_SCOPES),
             pt_created_at = now, pt_expires_at = expires, pt_issued_by = pr_issued_by v,
             pt_reason = pr_reason v, pt_consumed = False, pt_consumed_at = None,
             pt_redaction_required = True, pt_repo_root_hash = pe_repo_identity en,
             pt_auth_envelope_variant = pr_auth_envelope_variant v,
             pt_wcf_action_header_enabled = pr_wcf_action_header_enabled v\<rparr>"
    and w: "write_permit_document fs (resolve_path en (path_join (permit_root en) (permit_name token))) p = (Inr (), fs')"
    using assms(1) unfolding create_live_execution_permit_def permit_name_def
    by (auto simp: result_simps Let_def split: sum.splits prod.splits)
  obtain profile variant wcf where r: "pr_scope r \<in> set ALLOWED_SCOPES" "profile_id_shape profile"
    "pr_kind r = RequestType_value RT_METADATA"
    "pr_direction r \<in> {DownloadDirection_value RECEIVED, DownloadDirection_value ISSUED}"
    "validate_date_range (pr_date_from r) (pr_date_to r) (max_range_days (pr_scope r)) = Inr ()"
    "py_strip (pr_reason r) \<noteq> []" "pr_issued_by r = ''carlos-local''"
    "1 \<le> pr_expires_minutes r" "pr_expires_minutes r \<le> MAX_EXPIRES_MINUTES"
    "request_envelope r = Inr (variant, wcf)"
    and vr: "v = r\<lparr>pr_profile_id := profile, pr_reason := py_strip (pr_reason r),
           pr_auth_envelope_variant := variant, pr_wcf_action_header_enabled := wcf\<rparr>"
    using v by (rule validated_request_cases)
  have ex: "expires = now + pr_expires_minutes r * us_minute" "dt_ok expires"
    using e vr by (auto simp: result_simps)
  show "profile_id_shape (pt_profile_id p)" "\<not> pt_consumed p" "pt_max_range_days p = max_range_days (pt_scope p)"
    using r vr p by simp_all
  show env: "envelope_ok p" using request_envelope_ok [OF r(10)] vr p by simp
  show "now + us_minute \<le> pt_expires_at p" "pt_expires_at p \<le> now + 15 * us_minute"
    using r(8,9) ex p by (simp_all add: MAX_EXPIRES_MINUTES_def us_defs)
  show "t < pt_expires_at p \<Longrightarrow> within_policy en p t"
    using r(1,3,5) vr p by (simp add: within_policy_def validate_date_range_Inr)
  have names: "list_all (\<lambda>s. py_strip s \<noteq> []) (ALLOWED_SCOPES @ AUTH_ENVELOPE_VARIANTS @ map RequestType_value [RT_METADATA]
      @ map DownloadDirection_value [RECEIVED, ISSUED] @ [''carlos-local''])"
    by code_simp
  have pr: "py_strip profile \<noteq> []"
    using profile_id_no_space [OF r(2)] r(2) by (auto simp: profile_id_shape_def)
  have dates: "py_strip (pr_date_from r) \<noteq> []" "py_strip (pr_date_to r) \<noteq> []"
    using r(5) date_text by (auto simp: validate_date_range_Inr)
  have var: "py_strip s \<noteq> []" if "variant = Some s" for s
    using env names that vr p by (auto simp: envelope_ok_def list_all_iff split: if_splits)
  show valid: "permit_valid p"
    using names r(1,3,4,6,7) pr dates var vr p assms(3,4) ex token_not_space [OF assms(2)]
    by (auto simp: permit_valid_def list_all_iff)
  have "pf_files fs' (resolve_path en (path_join (permit_root en) (permit_name token)))
      = Some (PermitDoc (JObj (permit_to_document p)))"
    using write_permit_cases [OF w] by auto
  then show "load_live_execution_permit en fs' token
      = Inr (p, resolve_path en (path_join (permit_root en) (permit_name token)))"
    by (simp add: load_live_execution_permit_def permit_reference [OF assms(2)] permit_document_roundtrip [OF valid])
qed

lemma created_permit_consumed:
  assumes "create_live_execution_permit en fs r token now = (Inr (p, path), fs')"
    and "permit_id_shape token" "py_strip (pe_repo_identity en) \<noteq> []" "dt_ok now"
    and "pf_faults fs' = []" "t < pt_expires_at p"
    and q: "q = resolve_path en (path_join (permit_root en) (permit_name token))"
    and c: "c = p\<lparr>pt_consumed := True, pt_consumed_at := Some t\<rparr>"
  shows "validate_and_consume_live_permit en fs' token (expectation_of p) t
      = (Inr c, fs'\<lparr>pf_files := (pf_files fs')(q \<mapsto> PermitDoc (JObj (permit_to_document c)))\<rparr>)"
    and "dt_ok t \<Longrightarrow> pf_files fs'' q = Some (PermitDoc (JObj (permit_to_document c))) \<Longrightarrow>
      validate_and_consume_live_permit en fs'' token (expectation_of p) t'
        = (Inl (LivePermitError ''permit-already-consumed''), fs'')"
proof -
  note cp = created_permit [OF assms(1-4)]
  have prof: "safe_profile_id (ex_profile_id (expectation_of p)) = Inr (pt_profile_id p)"
    using cp(4) profile_id_no_space [OF cp(4)]
    by (simp add: safe_profile_id_def validate_profile_id_def expectation_of_def)
  have envl: "\<not> (ex_scope (expectation_of p) = ''auth_live_smoke''
      \<and> (ex_variant (expectation_of p) = None \<or> ex_wcf (expectation_of p) = None))"
    using cp(2) by (auto simp: expectation_of_def envelope_ok_def)
  have "validate_document_policy en p t = Inr ()"
    using policy_within [OF cp(5) [OF assms(6)] cp(3,2,6)] .
  then show "validate_and_consume_live_permit en fs' token (expectation_of p) t
      = (Inr c, fs'\<lparr>pf_files := (pf_files fs')(q \<mapsto> PermitDoc (JObj (permit_to_document c)))\<rparr>)"
    using assms(5) envl
    by (simp add: validate_and_consume_live_permit_def cp(9) prof check_expectation_of
        write_permit_document_def Let_def q c)
  assume "dt_ok t" and saved: "pf_files fs'' q = Some (PermitDoc (JObj (permit_to_document c)))"
  then have valid: "permit_valid c" using cp(1) c by (simp add: permit_valid_def)
  have load: "load_live_execution_permit en fs'' token = Inr (c, q)"
    using saved by (simp add: load_live_execution_permit_def permit_reference [OF assms(2)]
        permit_document_roundtrip [OF valid] q)
  have "expectation_of c = expectation_of p" "pt_profile_id c = pt_profile_id p" "pt_consumed c"
    by (simp_all add: expectation_of_def c)
  then show "validate_and_consume_live_permit en fs'' token (expectation_of p) t'
        = (Inl (LivePermitError ''permit-already-consumed''), fs'')"
    using envl check_expectation_of [of c]
    by (simp add: validate_and_consume_live_permit_def load prof validate_document_policy_def)
qed

definition example_env :: permit_env where
  "example_env = \<lparr>pe_env = [], pe_home = mk_path ''/h'', pe_cwd = mk_path ''/'', pe_repo = Some (mk_path ''/r''),
     pe_repo_identity = ''c0'', pe_local_offset = 0\<rparr>"

definition example_request :: LivePermitRequest where
  "example_request = \<lparr>pr_scope = ''metadata_live_smoke'', pr_profile_id = ''main'', pr_kind = ''metadata'',
     pr_direction = ''received'', pr_date_from = ''2024-02-28'', pr_date_to = ''2024-03-01'',
     pr_reason = '' smoke '', pr_expires_minutes = 15, pr_issued_by = ''carlos-local'',
     pr_auth_envelope_variant = None, pr_wcf_action_header_enabled = None\<rparr>"

definition example_fs :: permit_fs where
  "example_fs = \<lparr>pf_files = Map.empty, pf_faults = []\<rparr>"

lemma example_created:
  "\<exists>p path fs'. create_live_execution_permit example_env example_fs example_request ''Ab-_1234'' 5 = (Inr (p, path), fs')
    \<and> pf_faults fs' = [] \<and> 7 < pt_expires_at p"
proof -
  have "case create_live_execution_permit example_env example_fs example_request ''Ab-_1234'' 5 of
      (Inr (p, _), fs') \<Rightarrow> pf_faults fs' = [] \<and> 7 < pt_expires_at p | _ \<Rightarrow> False"
    by code_simp
  then show ?thesis by (auto split: prod.splits sum.splits)
qed

lemma example_side:
  "permit_id_shape ''Ab-_1234''" "py_strip (pe_repo_identity example_env) \<noteq> []" "dt_ok 5" "dt_ok 7"
  by code_simp+

subsection \<open>Properties\<close>

text \<open>C1: over any sequence of creations and consumptions, in any environments and with any failing
  writes, the consumptions of one permit file that return are at most one more than the creations that
  write that file, and none more when the file was already used, is missing, or was cut short.\<close>

theorem permit_used_once:
  "count_list (consumed_paths ops fs) path
     \<le> count_list (concat (map creates ops)) path + (if spent fs path then 0 else 1)"
  by (rule consumed_paths_bound)



text \<open>C34: a permit that was created can be used: before it expires, which is 1 to 15 minutes after its
  creation, the request it was made for consumes it by its id, and the same request a second time
  raises, whenever it comes.\<close>

theorem created_permit_is_usable_once:
  assumes "create_live_execution_permit en fs r token now = (Inr (p, path), fs')"
    and "permit_id_shape token" "py_strip (pe_repo_identity en) \<noteq> []" "dt_ok now"
    and "pf_faults fs' = []" "dt_ok t" "t < pt_expires_at p"
  shows "\<exists>c fs''. validate_and_consume_live_permit en fs' token (expectation_of p) t = (Inr c, fs'')
    \<and> c = p\<lparr>pt_consumed := True, pt_consumed_at := Some t\<rparr>
    \<and> now + us_minute \<le> pt_expires_at p \<and> pt_expires_at p \<le> now + 15 * us_minute
    \<and> (\<forall>t'. validate_and_consume_live_permit en fs'' token (expectation_of p) t'
          = (Inl (LivePermitError ''permit-already-consumed''), fs''))"
  using created_permit_consumed(1) [OF assms(1-5) assms(7) refl refl]
    created_permit_consumed(2) [OF assms(1-5) assms(7) refl refl assms(6)] created_permit(7,8) [OF assms(1-4)]
  by fastforce

theorem created_permit_is_usable_once_witness:
  "\<exists>p path fs' c fs''.
     create_live_execution_permit example_env example_fs example_request ''Ab-_1234'' 5 = (Inr (p, path), fs')
     \<and> validate_and_consume_live_permit example_env fs' ''Ab-_1234'' (expectation_of p) 7 = (Inr c, fs'')
     \<and> fst (validate_and_consume_live_permit example_env fs'' ''Ab-_1234'' (expectation_of p) 8)
         = Inl (LivePermitError ''permit-already-consumed'')"
proof -
  obtain p path fs' where c: "create_live_execution_permit example_env example_fs example_request ''Ab-_1234'' 5
      = (Inr (p, path), fs')" "pf_faults fs' = []" "7 < pt_expires_at p"
    using example_created by blast
  from created_permit_is_usable_once [OF c(1) example_side(1-3) c(2) example_side(4) c(3)] c(1)
  show ?thesis by fastforce
qed

end
