(* ===== verification/Queueing.thy ===== *)
theory Queueing
  imports Domain "HOL-Library.AList"
begin

text \<open>
  \<open>src/cfdi_vault/queueing.py\<close> and \<open>src/cfdi_vault/worker.py\<close>: the queue adapters and the worker step.

  \<open>InMemoryQueue\<close> is its dictionary of deques, an association list in insertion order. The locale
  \<open>fifo_queue\<close> states what a queue promises in terms of the contents of its queues; it is interpreted on
  the in-memory operations. \<open>RabbitMqQueue\<close> talks to a broker, which is not part of the program: a record
  of functions that answer each request of the adapter from the requests made so far. What the adapter
  guarantees is stated on the sequence of requests. A message body is the JSON value it decodes to, or the
  error its decoding raises.
\<close>

subsection \<open>What a queue promises\<close>

datatype 'm queue_op = Put 'm | Take string

primrec queue_run ::
  "('m \<Rightarrow> 's \<Rightarrow> 's) \<Rightarrow> (string \<Rightarrow> 's \<Rightarrow> 'm option \<times> 's) \<Rightarrow> 'm queue_op list \<Rightarrow> 's \<Rightarrow> (string \<times> 'm) list \<times> 's" where
  "queue_run pub get [] s = ([], s)"
| "queue_run pub get (op # ops) s =
     (case op of
        Put m \<Rightarrow> queue_run pub get ops (pub m s)
      | Take n \<Rightarrow>
          (case get n s of (r, s') \<Rightarrow>
           case queue_run pub get ops s' of (ds, s'') \<Rightarrow>
             ((case r of None \<Rightarrow> [] | Some m \<Rightarrow> [(n, m)]) @ ds, s'')))"

definition delivered :: "string \<Rightarrow> (string \<times> 'm) list \<Rightarrow> 'm list" where
  "delivered n ds = map snd (filter (\<lambda>d. fst d = n) ds)"

primrec published :: "('m \<Rightarrow> string) \<Rightarrow> string \<Rightarrow> 'm queue_op list \<Rightarrow> 'm list" where
  "published route n [] = []"
| "published route n (op # ops) =
     (case op of Put m \<Rightarrow> (if route m = n then [m] else []) | Take k \<Rightarrow> []) @ published route n ops"

locale fifo_queue =
  fixes contents :: "'s \<Rightarrow> string \<Rightarrow> 'm list"
    and pub :: "'m \<Rightarrow> 's \<Rightarrow> 's"
    and get :: "string \<Rightarrow> 's \<Rightarrow> 'm option \<times> 's"
    and route :: "'m \<Rightarrow> string"
  assumes contents_pub: "contents (pub m s) n = contents s n @ (if n = route m then [m] else [])"
    and get_empty: "contents s n = [] \<Longrightarrow> get n s = (None, s)"
    and get_first: "contents s n = m # ms \<Longrightarrow> fst (get n s) = Some m"
    and contents_get: "contents s n = m # ms \<Longrightarrow> contents (snd (get n s)) k = (if k = n then ms else contents s k)"
begin

lemma contents_step:
  assumes "get n s = (r, s')"
  shows "contents s k = (if k = n then (case r of None \<Rightarrow> [] | Some m \<Rightarrow> [m]) else []) @ contents s' k"
  using assms get_empty [of s n] get_first [of s n] contents_get [of s n _ _ k]
  by (cases "contents s n") auto

lemma exactly_once_in_order:
  assumes "queue_run pub get ops s = (ds, s')"
  shows "contents s n @ published route n ops = delivered n ds @ contents s' n"
  using assms
proof (induction ops arbitrary: s ds)
  case (Cons op ops)
  show ?case
  proof (cases op)
    case (Put m)
    then show ?thesis using Cons by (force simp: contents_pub)
  next
    case (Take k)
    obtain r t where g: "get k s = (r, t)" by (cases "get k s")
    obtain es where ds: "queue_run pub get ops t = (es, s')" "ds = (case r of None \<Rightarrow> [] | Some m \<Rightarrow> [(k, m)]) @ es"
      using Cons.prems g Take by (auto split: prod.splits)
    have "delivered n ds = (if n = k then (case r of None \<Rightarrow> [] | Some m \<Rightarrow> [m]) else []) @ delivered n es"
      by (simp add: ds(2) delivered_def split: option.split)
    then show ?thesis using contents_step [OF g, of n] Cons.IH [OF ds(1)] Take by simp
  qed
qed (simp add: delivered_def)

end

subsection \<open>InMemoryQueue\<close>

type_synonym memory_queue = "(string \<times> QueueMessage list) list"

definition mq_messages :: "memory_queue \<Rightarrow> string \<Rightarrow> QueueMessage list" where
  "mq_messages q n = (case map_of q n of None \<Rightarrow> [] | Some ms \<Rightarrow> ms)"

definition mq_route :: "QueueMessage \<Rightarrow> string" where
  "mq_route m = QueueName_value (m_queue m)"

definition mq_publish :: "QueueMessage \<Rightarrow> memory_queue \<Rightarrow> memory_queue" where
  "mq_publish m q = AList.update (mq_route m) (mq_messages q (mq_route m) @ [m]) q"

definition mq_consume_one :: "string \<Rightarrow> memory_queue \<Rightarrow> QueueMessage option \<times> memory_queue" where
  "mq_consume_one n q =
     (case map_of q n of None \<Rightarrow> (None, q) | Some [] \<Rightarrow> (None, q) | Some (m # ms) \<Rightarrow> (Some m, AList.update n ms q))"

text \<open>The handler works on the state of the program, of which the queue is a part.\<close>

definition mq_consume_one_with_handler ::
  "string \<Rightarrow> (QueueMessage \<Rightarrow> memory_queue \<times> 's \<Rightarrow> 'r result \<times> memory_queue \<times> 's)
    \<Rightarrow> memory_queue \<times> 's \<Rightarrow> 'r option result \<times> memory_queue \<times> 's" where
  "mq_consume_one_with_handler n handler qs =
     (case qs of (q, s) \<Rightarrow>
      case mq_consume_one n q of
        (None, q') \<Rightarrow> (Inr None, q', s)
      | (Some m, q') \<Rightarrow> (case handler m (q', s) of (r, qs') \<Rightarrow> (bindR r (\<lambda>x. Inr (Some x)), qs')))"

definition mq_pending_count :: "string option \<Rightarrow> memory_queue \<Rightarrow> nat" where
  "mq_pending_count n q =
     (if opt_truthy n then length (mq_messages q (the n)) else sum_list (map (length \<circ> snd) q))"

definition mq_snapshot :: "memory_queue \<Rightarrow> (string \<times> nat) list" where
  "mq_snapshot q = map (\<lambda>n. (QueueName_value n, mq_pending_count (Some (QueueName_value n)) q)) all_queues"

lemmas mq_defs = mq_messages_def mq_publish_def mq_consume_one_def

lemma mq_messages_update [simp]: "mq_messages (AList.update k ms q) n = (if n = k then ms else mq_messages q n)"
  by (simp add: mq_messages_def update_conv')

interpretation memory: fifo_queue mq_messages mq_publish mq_consume_one mq_route
  by unfold_locales (auto simp: mq_publish_def mq_consume_one_def, auto simp: mq_messages_def update_conv' split: option.splits list.splits)


definition example_message :: "string \<Rightarrow> QueueMessage" where
  "example_message job = \<lparr>m_queue = SAT_REQUEST, m_tenant_id = ''t'', m_rfc = ''r'', m_payload = [], m_job_id = job,
     m_correlation_id = ''c'', m_attempt = 0, m_created_at = Aware 0 0\<rparr>"


subsection \<open>RabbitMqQueue\<close>

datatype message_body = Body json | BadBody exc

datatype broker_call =
    BConnect | BDeclare string | BPublish string string jobj string string | BGet string
  | BAck nat | BNack nat bool | BClose

text \<open>Every answer may depend on the calls made so far, the present one last.\<close>

record broker =
  br_done :: "broker_call list \<Rightarrow> unit result"
  br_count :: "broker_call list \<Rightarrow> nat result"
  br_message :: "broker_call list \<Rightarrow> (nat \<times> message_body) option result"

type_synonym ('a, 's) act = "broker_call list \<times> 's \<Rightarrow> 'a result \<times> broker_call list \<times> 's"

definition ret :: "'a result \<Rightarrow> ('a, 's) act" where
  "ret r st = (r, st)"

definition bindA :: "('a, 's) act \<Rightarrow> ('a \<Rightarrow> ('b, 's) act) \<Rightarrow> ('b, 's) act" where
  "bindA m k st = (case m st of (Inl e, st') \<Rightarrow> (Inl e, st') | (Inr x, st') \<Rightarrow> k x st')"

definition ask :: "(broker_call list \<Rightarrow> 'a result) \<Rightarrow> broker_call \<Rightarrow> ('a, 's) act" where
  "ask f c st = (f (fst st @ [c]), fst st @ [c], snd st)"

text \<open>\<open>try: ... finally: connection.close()\<close>: an error of the close replaces what came before.\<close>

definition with_connection :: "broker \<Rightarrow> ('a, 's) act \<Rightarrow> ('a, 's) act" where
  "with_connection b m =
     bindA (ask (br_done b) BConnect) (\<lambda>_ st.
       case m st of (r, st') \<Rightarrow> bindA (ask (br_done b) BClose) (\<lambda>_. ret r) st')"

definition rb_publish :: "broker \<Rightarrow> string \<Rightarrow> QueueMessage \<Rightarrow> (unit, 's) act" where
  "rb_publish b exchange m =
     with_connection b
       (bindA (ask (br_count b) (BDeclare (mq_route m))) (\<lambda>_.
          ask (br_done b) (BPublish exchange (mq_route m) (sort_key fst (message_as_dict m))
            (m_correlation_id m) (m_job_id m))))"

fun declare_all :: "broker \<Rightarrow> string list \<Rightarrow> nat \<Rightarrow> (nat, 's) act" where
  "declare_all b [] acc = ret (Inr acc)"
| "declare_all b (n # ns) acc = bindA (ask (br_count b) (BDeclare n)) (\<lambda>k. declare_all b ns (acc + k))"

definition rb_pending_count :: "broker \<Rightarrow> string option \<Rightarrow> (nat, 's) act" where
  "rb_pending_count b n =
     with_connection b
       (if opt_truthy n then ask (br_count b) (BDeclare (the n))
        else declare_all b (map QueueName_value all_queues) 0)"

text \<open>\<open>QueueMessage.from_dict(json.loads(body.decode("utf-8")))\<close>\<close>

definition decode_body :: "instant \<Rightarrow> message_body \<Rightarrow> QueueMessage result" where
  "decode_body now body =
     (case body of BadBody e \<Rightarrow> Inl e | Body (JObj d) \<Rightarrow> message_from_dict now d | Body _ \<Rightarrow> Inl AttributeError)"

definition rb_consume_one :: "broker \<Rightarrow> instant \<Rightarrow> string \<Rightarrow> (QueueMessage option, 's) act" where
  "rb_consume_one b now n =
     with_connection b
       (bindA (ask (br_count b) (BDeclare n)) (\<lambda>_. bindA (ask (br_message b) (BGet n)) (\<lambda>g.
        case g of
          None \<Rightarrow> ret (Inr None)
        | Some (tag, body) \<Rightarrow>
            (case decode_body now body of
               Inl e \<Rightarrow> bindA (ask (br_done b) (BNack tag False)) (\<lambda>_. ret (Inl e))
             | Inr m \<Rightarrow> bindA (ask (br_done b) (BAck tag)) (\<lambda>_. ret (Inr (Some m)))))))"







subsection \<open>The worker\<close>

record WorkerReport =
  wr_processed :: int
  wr_detail :: string

text \<open>\<open>process\<close> is \<open>service.process_queue_message\<close>, which returns a job id and a status.\<close>

definition worker_handle ::
  "(QueueMessage \<Rightarrow> 's \<Rightarrow> (string \<times> string) result \<times> 's) \<Rightarrow> QueueMessage \<Rightarrow> 's \<Rightarrow> WorkerReport result \<times> 's" where
  "worker_handle process m s =
     (case process m s of (r, s') \<Rightarrow>
       (bindR r (\<lambda>(job, status). Inr \<lparr>wr_processed = 1,
          wr_detail = ''Processed job '' @ job @ '' with status '' @ status @ ''.''\<rparr>), s'))"

text \<open>\<open>consume\<close> is \<open>queue.consume_one_with_handler\<close>, or \<open>None\<close> for a queue without it; \<open>rows\<close> is
  \<open>len(service.queue_status())\<close>.\<close>

definition run_once ::
  "(string \<Rightarrow> (QueueMessage \<Rightarrow> 's \<Rightarrow> WorkerReport result \<times> 's) \<Rightarrow> 't \<Rightarrow> WorkerReport option result \<times> 't) option
    \<Rightarrow> nat \<Rightarrow> (QueueMessage \<Rightarrow> 's \<Rightarrow> (string \<times> string) result \<times> 's) \<Rightarrow> 't \<Rightarrow> WorkerReport result \<times> 't" where
  "run_once consume rows process st =
     (case consume of
        None \<Rightarrow> (Inr \<lparr>wr_processed = 0, wr_detail =
          ''Queue adapter does not support consumption; observed '' @ int_text (int rows) @ '' queue status row(s).''\<rparr>, st)
      | Some c \<Rightarrow>
          (case c (QueueName_value SAT_REQUEST) (worker_handle process) st of (r, st') \<Rightarrow>
             (bindR r (\<lambda>v. Inr (case v of
                None \<Rightarrow> \<lparr>wr_processed = 0, wr_detail = ''No sat.request message available.''\<rparr>
              | Some w \<Rightarrow> w)), st')))"

text \<open>A worker step over the in-memory queue hands the oldest message of sat.request to the service,
  after it has left the queue, and reports it as processed only when the service returns; when the
  service raises, the error is raised again and the message is gone. With nothing to do it changes
  nothing. (RabbitMqQueue puts the message back instead.)\<close>

theorem worker_step:
  assumes "run_once (Some mq_consume_one_with_handler) rows process (q, s) = (r, st')"
  shows "(mq_messages q ''sat.request'' = [] \<longrightarrow>
      st' = (q, s) \<and> r = Inr \<lparr>wr_processed = 0, wr_detail = ''No sat.request message available.''\<rparr>)
    \<and> (\<forall>m ms. mq_messages q ''sat.request'' = m # ms \<longrightarrow>
        (\<exists>out. process m (AList.update ''sat.request'' ms q, s) = (out, st')
           \<and> (case out of Inl e \<Rightarrow> r = Inl e
              | Inr (job, status) \<Rightarrow> \<exists>w. r = Inr w \<and> wr_processed w = 1)))"
proof (cases "mq_messages q ''sat.request''")
  case Nil
  then show ?thesis using assms memory.get_empty [OF Nil]
    by (simp add: run_once_def mq_consume_one_with_handler_def)
next
  case (Cons m ms)
  then have "mq_consume_one ''sat.request'' q = (Some m, AList.update ''sat.request'' ms q)"
    by (simp add: mq_consume_one_def mq_messages_def split: option.splits)
  then show ?thesis using assms Cons
    by (auto simp: run_once_def mq_consume_one_with_handler_def worker_handle_def split: prod.splits sum.splits)
qed

theorem worker_step_witness:
  "\<exists>r st'. run_once (Some mq_consume_one_with_handler) 8 (\<lambda>m st. (Inl (HandlerError ''x''), st))
      ([(''sat.request'', [example_message ''a''])], ()) = (r, st')
    \<and> r = Inl (HandlerError ''x'') \<and> fst st' = [(''sat.request'', [])]"
proof -
  let ?q = "[(''sat.request'', [example_message ''a''])]"
  obtain r st' where r: "run_once (Some mq_consume_one_with_handler) 8 (\<lambda>m st. (Inl (HandlerError ''x''), st))
      (?q, ()) = (r, st')" by (metis surj_pair)
  have "mq_messages ?q ''sat.request'' = [example_message ''a'']" by (simp add: mq_messages_def)
  with worker_step [OF r] r show ?thesis by (auto simp: fun_eq_iff)
qed

end
