(* ===== verification/Cache.thy ===== *)
theory Cache
  imports PyJson
begin

text \<open>
  \<open>src/cfdi_vault/cache.py\<close>: \<open>InMemoryCache\<close>, a dictionary of JSON objects with an optional time to live;
  the clock is an argument of every call. Of \<open>RedisCache\<close> the keys are modelled (\<open>_key\<close>); the rest is
  calls of the redis client.
\<close>

record CacheItem =
  ci_value :: jobj
  ci_expires_at :: "instant option"

type_synonym cache = "string \<Rightarrow> CacheItem option"

definition cache_set_json :: "string \<Rightarrow> jobj \<Rightarrow> int option \<Rightarrow> instant \<Rightarrow> cache \<Rightarrow> unit result \<times> cache" where
  "cache_set_json key value ttl now c =
     (case (case ttl of None \<Rightarrow> Inr None | Some s \<Rightarrow> bindR (dt_add now (s * us_second)) (\<lambda>t. Inr (Some t))) of
        Inl e \<Rightarrow> (Inl e, c)
      | Inr expires \<Rightarrow> (Inr (), c(key \<mapsto> \<lparr>ci_value = value, ci_expires_at = expires\<rparr>)))"

definition cache_get_json :: "string \<Rightarrow> instant \<Rightarrow> cache \<Rightarrow> jobj option \<times> cache" where
  "cache_get_json key now c =
     (case c key of
        None \<Rightarrow> (None, c)
      | Some item \<Rightarrow>
          (case ci_expires_at item of
             Some t \<Rightarrow> if t < now then (None, c(key := None)) else (Some (ci_value item), c)
           | None \<Rightarrow> (Some (ci_value item), c)))"

definition redis_prefix :: "string \<Rightarrow> string" where
  "redis_prefix p = rev (dropWhile (\<lambda>x. x = CHR '':'') (rev p))"

definition redis_key :: "string \<Rightarrow> string \<Rightarrow> string" where
  "redis_key p key = redis_prefix p @ '':'' @ key"

text \<open>Reads of one key, in any order and with any keys in between.\<close>

fun cache_reads :: "(string \<times> instant) list \<Rightarrow> cache \<Rightarrow> cache" where
  "cache_reads [] c = c"
| "cache_reads ((k, t) # rs) c = cache_reads rs (snd (cache_get_json k t c))"

lemma get_other: "k \<noteq> key \<Longrightarrow> snd (cache_get_json k t c) key = c key"
  by (simp add: cache_get_json_def split: option.split)

lemma get_kept:
  "c key = Some item \<Longrightarrow> snd (cache_get_json key t c) key
     = (if ci_expires_at item \<noteq> None \<and> the (ci_expires_at item) < t then None else Some item)"
  by (auto simp: cache_get_json_def split: option.split)

lemma reads_missing: "c key = None \<Longrightarrow> cache_reads rs c key = None"
proof (induction rs c rule: cache_reads.induct)
  case (2 k t rs c)
  have "snd (cache_get_json k t c) key = None"
    using 2(2) by (auto simp: cache_get_json_def split: option.split)
  then show ?case using 2(1) by simp
qed simp

lemma reads_kept:
  "c key = Some item \<Longrightarrow>
     cache_reads rs c key = (if \<exists>t. (key, t) \<in> set rs \<and> ci_expires_at item \<noteq> None \<and> the (ci_expires_at item) < t
       then None else Some item)"
proof (induction rs c rule: cache_reads.induct)
  case (2 k t rs c)
  show ?case
  proof (cases "k = key")
    case True
    show ?thesis
    proof (cases "ci_expires_at item \<noteq> None \<and> the (ci_expires_at item) < t")
      case gone: True
      then have "cache_reads rs (snd (cache_get_json k t c)) key = None"
        using reads_missing get_kept [of c key item t] 2(2) True by simp
      then show ?thesis using gone True by auto
    next
      case False
      then have "snd (cache_get_json k t c) key = Some item" using get_kept [of c key item t] 2(2) True by simp
      then show ?thesis using 2(1) False True by auto
    qed
  next
    case False
    then have "snd (cache_get_json k t c) key = Some item" using get_other [of k key t c] 2(2) by simp
    then show ?thesis using 2(1) False by auto
  qed
qed simp

text \<open>A value that was set is read back until its time to live is over and never after: after any
  reads of any keys, a read returns it exactly when no read of the key, this one included, came later
  than the expiry; without a time to live it is always read back.\<close>

theorem cached_until_expiry:
  assumes "cache_set_json key value ttl now c = (Inr (), c')"
  shows "fst (cache_get_json key t (cache_reads rs c'))
    = (if \<forall>u \<in> insert t {u. (key, u) \<in> set rs}. case ttl of None \<Rightarrow> True | Some s \<Rightarrow> u \<le> now + s * us_second
       then Some value else None)"
proof -
  define item where "item = \<lparr>ci_value = value,
    ci_expires_at = (case ttl of None \<Rightarrow> None | Some s \<Rightarrow> Some (now + s * us_second))\<rparr>"
  have item: "c' key = Some item" "ci_value item = value"
    "ci_expires_at item = (case ttl of None \<Rightarrow> None | Some s \<Rightarrow> Some (now + s * us_second))"
    using assms by (auto simp: cache_set_json_def item_def result_simps split: option.splits sum.splits)
  then show ?thesis using reads_kept [of c' key item rs]
    by (cases ttl) (auto simp: cache_get_json_def not_less)
qed

theorem cached_until_expiry_witness:
  "\<exists>c. cache_set_json ''k'' [(''a'', JInt 1)] (Some 60) 0 Map.empty = (Inr (), c)
    \<and> fst (cache_get_json ''k'' 60000000 (cache_reads [(''x'', 70000000)] c)) = Some [(''a'', JInt 1)]
    \<and> fst (cache_get_json ''k'' 60000001 c) = None"
proof -
  obtain c where c: "cache_set_json ''k'' [(''a'', JInt 1)] (Some 60) 0 Map.empty = (Inr (), c)"
    by (simp add: cache_set_json_def dt_add_def dt_check_def dt_ok_def us_defs max_ordinal_def)
  from cached_until_expiry [OF c, of 60000000 "[(''x'', 70000000)]"] cached_until_expiry [OF c, of 60000001 "[]"] c
  show ?thesis by (simp add: us_defs)
qed

end
