(* ===== verification/Storage.thy ===== *)
theory Storage
  imports PyPath Domain
begin

text \<open>
  \<open>src/cfdi_vault/storage.py\<close>: keys and files of the evidence store.

  A file tree maps resolved paths to directories and files; there are no symbolic links. A path is looked
  up at the place it resolves to from the working directory. \<open>make_dirs\<close> is
  \<open>mkdir(parents=True, exist_ok=True)\<close>: a file on the way raises and nothing is created. File contents
  are byte strings. The locale \<open>evidence_store\<close> is the port \<open>PackageStorage\<close> of
  \<open>package_processor.py\<close>: what its client may rely on. Both providers interpret it: the directory tree
  here, the in-memory store in PackageProcessor.
\<close>

subsection \<open>File trees\<close>

datatype node = Dir | File string

type_synonym tree = "ppath \<Rightarrow> node option"

fun make_dirs :: "ppath \<Rightarrow> string list \<Rightarrow> tree \<Rightarrow> tree result" where
  "make_dirs base [] t = Inr t"
| "make_dirs base (p # ps) t =
     (let q = base\<lparr>pp_parts := pp_parts base @ [p]\<rparr> in
      case t q of Some (File _) \<Rightarrow> Inl OSError | _ \<Rightarrow> make_dirs q ps (t(q \<mapsto> Dir)))"

definition mkdir :: "ppath \<Rightarrow> tree \<Rightarrow> tree result" where
  "mkdir p t = make_dirs (p\<lparr>pp_parts := []\<rparr>) (pp_parts p) t"

record local_storage =
  ls_root :: ppath
  ls_cwd :: ppath

definition locate :: "local_storage \<Rightarrow> ppath \<Rightarrow> ppath" where
  "locate st p = path_resolve (if pp_root p = [] then (ls_cwd st)\<lparr>pp_parts := pp_parts (ls_cwd st) @ pp_parts p\<rparr> else p)"

subsection \<open>Keys\<close>

definition safe_segment :: "string \<Rightarrow> string result" where
  "safe_segment v =
     (let n = safe_segment_text v in
      if n = [] then Inl (ValueError ''storage path segment cannot be empty'') else Inr n)"

definition safe_rfc :: "string \<Rightarrow> string result" where
  "safe_rfc v = safe_segment (py_upper v)"

definition year_month :: "pydt \<Rightarrow> string \<times> string" where
  "year_month v =
     (case ord2ymd ((case v of Naive w \<Rightarrow> w | Aware w _ \<Rightarrow> w) div us_day + 1) of
        (y, m, d) \<Rightarrow> (pad 4 (nat y), pad 2 (nat m)))"

fun mkdir_all :: "local_storage \<Rightarrow> ppath list \<Rightarrow> tree \<Rightarrow> unit result \<times> tree" where
  "mkdir_all st [] t = (Inr (), t)"
| "mkdir_all st (p # ps) t =
     (case mkdir (locate st p) t of Inl e \<Rightarrow> (Inl e, t) | Inr t' \<Rightarrow> mkdir_all st ps t')"

definition layout_paths :: "local_storage \<Rightarrow> string \<Rightarrow> string \<Rightarrow> string \<Rightarrow> ppath list" where
  "layout_paths st rfc year month =
     (let base = path_join (ls_root st) rfc in
      [path_join (path_join (path_join base ''metadata'') year) month,
       path_join (path_join (path_join base ''packages'') year) month,
       path_join (path_join (path_join base ''xml'') year) month,
       path_join base ''logs'', path_join base ''db'', path_join base ''exports''])"

text \<open>\<open>now\<close> is the clock, read when no period is given.\<close>

definition ensure_layout ::
  "local_storage \<Rightarrow> string option \<Rightarrow> pydt option \<Rightarrow> instant \<Rightarrow> tree \<Rightarrow> ppath list result \<times> tree" where
  "ensure_layout st rfc period now t =
     (case rfc of
        None \<Rightarrow> (case mkdir_all st [ls_root st] t of (r, t') \<Rightarrow> (bindR r (\<lambda>_. Inr [ls_root st]), t'))
      | Some v \<Rightarrow>
          (case safe_rfc v of
             Inl e \<Rightarrow> (Inl e, t)
           | Inr safe \<Rightarrow>
               (case year_month (case period of None \<Rightarrow> Aware now 0 | Some p \<Rightarrow> p) of (year, month) \<Rightarrow>
                let paths = layout_paths st safe year month in
                case mkdir_all st paths t of (r, t') \<Rightarrow> (bindR r (\<lambda>_. Inr paths), t'))))"

definition period_key ::
  "local_storage \<Rightarrow> string \<Rightarrow> string \<Rightarrow> pydt \<Rightarrow> string \<Rightarrow> instant \<Rightarrow> tree \<Rightarrow> string result \<times> tree" where
  "period_key st rfc family period name now t =
     (case ensure_layout st (Some rfc) (Some period) now t of
        (Inl e, t') \<Rightarrow> (Inl e, t')
      | (Inr _, t') \<Rightarrow>
          (case year_month period of (year, month) \<Rightarrow>
             (bindR (safe_rfc rfc) (\<lambda>safe. Inr (py_join ''/'' [safe, family, year, month, name])), t')))"

definition key_name :: "string \<Rightarrow> string \<Rightarrow> string \<Rightarrow> string result" where
  "key_name ident sha suffix =
     bindR (safe_segment ident) (\<lambda>i. bindR (safe_segment (take 12 sha)) (\<lambda>h. Inr (i @ ''-'' @ h @ suffix)))"

definition metadata_key ::
  "local_storage \<Rightarrow> string \<Rightarrow> pydt \<Rightarrow> string \<Rightarrow> string \<Rightarrow> string \<Rightarrow> instant \<Rightarrow> tree \<Rightarrow> string result \<times> tree" where
  "metadata_key st rfc period id_solicitud sha extension now t =
     (case bindR (key_name id_solicitud sha ''.'') (\<lambda>n.
           bindR (safe_segment (dropWhile (\<lambda>c. c = CHR ''.'') extension)) (\<lambda>x. Inr (n @ x))) of
        Inl e \<Rightarrow> (Inl e, t)
      | Inr name \<Rightarrow> period_key st rfc ''metadata'' period name now t)"

definition package_key ::
  "local_storage \<Rightarrow> string \<Rightarrow> pydt \<Rightarrow> string \<Rightarrow> string \<Rightarrow> instant \<Rightarrow> tree \<Rightarrow> string result \<times> tree" where
  "package_key st rfc period id_paquete sha now t =
     (case key_name id_paquete sha ''.zip'' of
        Inl e \<Rightarrow> (Inl e, t) | Inr name \<Rightarrow> period_key st rfc ''packages'' period name now t)"

definition xml_key ::
  "local_storage \<Rightarrow> string \<Rightarrow> pydt \<Rightarrow> string \<Rightarrow> string \<Rightarrow> instant \<Rightarrow> tree \<Rightarrow> string result \<times> tree" where
  "xml_key st rfc issue_date uuid sha now t =
     (case key_name (py_upper uuid) sha ''.xml'' of
        Inl e \<Rightarrow> (Inl e, t) | Inr name \<Rightarrow> period_key st rfc ''xml'' issue_date name now t)"

subsection \<open>Reading and writing\<close>

text \<open>\<open>relative_to\<close> raises ValueError.\<close>

definition path_for_key :: "local_storage \<Rightarrow> string \<Rightarrow> ppath result" where
  "path_for_key st key =
     (let safe = dropWhile (\<lambda>c. c = CHR ''/'') (replace_char (CHR 0x5C) ''/'' key);
          path = path_join (ls_root st) safe in
      if is_relative_to (locate st (path_parent path)) (locate st (ls_root st)) then Inr path
      else Inl (ValueError ''relative_to''))"

record StoredFile =
  sf_path :: ppath
  sf_sha256 :: string
  sf_size_bytes :: nat
  sf_written :: bool


definition write_bytes_idempotent :: "local_storage \<Rightarrow> string \<Rightarrow> string \<Rightarrow> tree \<Rightarrow> StoredFile result \<times> tree" where
  "write_bytes_idempotent st key content t =
     (case path_for_key st key of
        Inl e \<Rightarrow> (Inl e, t)
      | Inr path \<Rightarrow>
          (case mkdir (locate st (path_parent path)) t of
             Inl e \<Rightarrow> (Inl e, t)
           | Inr t' \<Rightarrow>
               (case t' (locate st path) of
                  Some Dir \<Rightarrow> (Inl OSError, t')
                | Some (File existing) \<Rightarrow>
                    (if sha256_hex existing \<noteq> sha256_hex content
                     then (Inl (ValueError (''storage collision for '' @ path_str path @ '': existing SHA-256 differs'')), t')
                     else (Inr \<lparr>sf_path = path, sf_sha256 = sha256_hex content,
                             sf_size_bytes = length existing, sf_written = False\<rparr>, t'))
                | None \<Rightarrow>
                    (Inr \<lparr>sf_path = path, sf_sha256 = sha256_hex content,
                       sf_size_bytes = length content, sf_written = True\<rparr>,
                     t'(locate st path \<mapsto> File content)))))"

subsection \<open>Facts on trees\<close>

definition ancestor :: "nat \<Rightarrow> ppath \<Rightarrow> ppath" where
  "ancestor n p = p\<lparr>pp_parts := take n (pp_parts p)\<rparr>"

text \<open>Everything lies in a directory.\<close>

definition tree_ok :: "tree \<Rightarrow> bool" where
  "tree_ok t \<longleftrightarrow> (\<forall>p. pp_parts p = [] \<longrightarrow> t p = Some Dir)
     \<and> (\<forall>p n. t p \<noteq> None \<longrightarrow> n < length (pp_parts p) \<longrightarrow> t (ancestor n p) = Some Dir)"

lemma make_dirs_facts:
  assumes "make_dirs base ps t = Inr t'"
  shows "t' q = t q \<or> t q = None \<and> t' q = Some Dir"
    and "n < length ps \<Longrightarrow> t' (base\<lparr>pp_parts := pp_parts base @ take (Suc n) ps\<rparr>) = Some Dir"
    and "t' q \<noteq> t q \<Longrightarrow> \<exists>n < length ps. q = base\<lparr>pp_parts := pp_parts base @ take (Suc n) ps\<rparr>"
proof -
  have "(t' q = t q \<or> t q = None \<and> t' q = Some Dir)
    \<and> (\<forall>n < length ps. t' (base\<lparr>pp_parts := pp_parts base @ take (Suc n) ps\<rparr>) = Some Dir)
    \<and> (t' q \<noteq> t q \<longrightarrow> (\<exists>n < length ps. q = base\<lparr>pp_parts := pp_parts base @ take (Suc n) ps\<rparr>))"
    using assms
  proof (induction ps arbitrary: base t q)
    case (Cons p ps)
    let ?b = "base\<lparr>pp_parts := pp_parts base @ [p]\<rparr>"
    have nf: "t ?b = None \<or> t ?b = Some Dir" and m: "make_dirs ?b ps (t(?b \<mapsto> Dir)) = Inr t'"
      using Cons.prems by (auto simp: Let_def split: option.splits node.splits)
    have IH: "(t' q = (t(?b \<mapsto> Dir)) q \<or> (t(?b \<mapsto> Dir)) q = None \<and> t' q = Some Dir)
      \<and> (\<forall>n < length ps. t' (?b\<lparr>pp_parts := pp_parts ?b @ take (Suc n) ps\<rparr>) = Some Dir)
      \<and> (t' q \<noteq> (t(?b \<mapsto> Dir)) q \<longrightarrow> (\<exists>n < length ps. q = ?b\<lparr>pp_parts := pp_parts ?b @ take (Suc n) ps\<rparr>))" for q
      by (rule Cons.IH [OF m])
    have first: "t' ?b = Some Dir" using IH [of ?b] by simp
    have "t' (base\<lparr>pp_parts := pp_parts base @ take (Suc n) (p # ps)\<rparr>) = Some Dir" if "n < length (p # ps)" for n
      using that first IH by (cases n) auto
    moreover have "\<exists>n < length (p # ps). q = base\<lparr>pp_parts := pp_parts base @ take (Suc n) (p # ps)\<rparr>" if "t' q \<noteq> t q"
    proof (cases "q = ?b")
      case False
      with that IH [of q] obtain n where "n < length ps" "q = ?b\<lparr>pp_parts := pp_parts ?b @ take (Suc n) ps\<rparr>" by auto
      then show ?thesis by (intro exI [of _ "Suc n"]) simp
    qed (auto intro!: exI [of _ 0])
    moreover have "t' q = t q \<or> t q = None \<and> t' q = Some Dir"
      using IH [of q] nf by (cases "q = ?b") auto
    ultimately show ?case by blast
  qed simp
  then show "t' q = t q \<or> t q = None \<and> t' q = Some Dir"
    and "n < length ps \<Longrightarrow> t' (base\<lparr>pp_parts := pp_parts base @ take (Suc n) ps\<rparr>) = Some Dir"
    and "t' q \<noteq> t q \<Longrightarrow> \<exists>n < length ps. q = base\<lparr>pp_parts := pp_parts base @ take (Suc n) ps\<rparr>"
    by blast+
qed

lemma mkdir_facts:
  assumes "mkdir p t = Inr t'"
  shows "t' q = t q \<or> t q = None \<and> t' q = Some Dir"
    and "0 < n \<Longrightarrow> n \<le> length (pp_parts p) \<Longrightarrow> t' (ancestor n p) = Some Dir"
    and "t' q \<noteq> t q \<Longrightarrow> \<exists>n. 0 < n \<and> n \<le> length (pp_parts p) \<and> q = ancestor n p"
proof -
  note f = make_dirs_facts [OF assms [unfolded mkdir_def]]
  show "t' q = t q \<or> t q = None \<and> t' q = Some Dir" by (rule f(1))
  show "0 < n \<Longrightarrow> n \<le> length (pp_parts p) \<Longrightarrow> t' (ancestor n p) = Some Dir"
    using f(2) [of "n - 1"] by (simp add: ancestor_def)
  show "\<exists>n. 0 < n \<and> n \<le> length (pp_parts p) \<and> q = ancestor n p" if "t' q \<noteq> t q"
    using f(3) [OF that] by (auto simp: ancestor_def Suc_le_eq intro: exI [of _ "Suc n" for n])
qed

lemma mkdir_file: "mkdir p t = Inr t' \<Longrightarrow> t' q = Some (File c) \<longleftrightarrow> t q = Some (File c)"
  using mkdir_facts(1) [of p t t' q] by auto

lemma mkdir_dir: "mkdir p t = Inr t' \<Longrightarrow> t q = Some Dir \<Longrightarrow> t' q = Some Dir"
  using mkdir_facts(1) [of p t t' q] by auto

lemma mkdir_ancestor:
  assumes "mkdir p t = Inr t'" "tree_ok t" "n \<le> length (pp_parts p)"
  shows "t' (ancestor n p) = Some Dir"
proof (cases n)
  case 0
  then have "t (ancestor n p) = Some Dir" using assms(2) by (simp add: tree_ok_def ancestor_def)
  then show ?thesis using assms(1) by (rule mkdir_dir [rotated])
qed (use mkdir_facts(2) [OF assms(1)] assms(3) in simp)

lemma mkdir_ok:
  assumes "mkdir p t = Inr t'" "tree_ok t"
  shows "tree_ok t'"
  unfolding tree_ok_def
proof (intro conjI allI impI)
  fix q :: ppath assume "pp_parts q = []"
  then show "t' q = Some Dir" using assms mkdir_dir by (auto simp: tree_ok_def)
next
  fix q :: ppath and n assume q: "t' q \<noteq> None" "n < length (pp_parts q)"
  show "t' (ancestor n q) = Some Dir"
  proof (cases "t q = None")
    case True
    with q(1) mkdir_facts(3) [OF assms(1), of q] obtain k where k: "k \<le> length (pp_parts p)" "q = ancestor k p"
      by auto
    then have "n < k" using q(2) by (simp add: ancestor_def)
    then have "ancestor n q = ancestor n p" "n \<le> length (pp_parts p)"
      using k by (auto simp: ancestor_def min_def)
    then show ?thesis using mkdir_ancestor [OF assms] by simp
  next
    case False
    then have "t (ancestor n q) = Some Dir" using assms(2) q by (simp add: tree_ok_def)
    then show ?thesis using assms(1) mkdir_dir by blast
  qed
qed

text \<open>Where the ancestors are directories, nothing is created.\<close>

lemma mkdir_present:
  assumes "\<And>n. 0 < n \<Longrightarrow> n \<le> length (pp_parts p) \<Longrightarrow> t (ancestor n p) = Some Dir"
  shows "mkdir p t = Inr t"
proof -
  have "make_dirs base ps t = Inr t"
    if "\<forall>n < length ps. t (base\<lparr>pp_parts := pp_parts base @ take (Suc n) ps\<rparr>) = Some Dir" for base ps
    using that
  proof (induction ps arbitrary: base)
    case (Cons q qs)
    let ?b = "base\<lparr>pp_parts := pp_parts base @ [q]\<rparr>"
    have h: "t ?b = Some Dir" using Cons.prems by (auto dest: spec [of _ 0])
    then have "t(?b \<mapsto> Dir) = t" by auto
    moreover have "make_dirs ?b qs t = Inr t"
    proof (rule Cons.IH, intro allI impI)
      fix n assume "n < length qs"
      then have "t (base\<lparr>pp_parts := pp_parts base @ take (Suc (Suc n)) (q # qs)\<rparr>) = Some Dir"
        using Cons.prems by (metis Suc_less_eq length_Cons)
      then show "t (?b\<lparr>pp_parts := pp_parts ?b @ take (Suc n) qs\<rparr>) = Some Dir" by simp
    qed
    ultimately show ?case using h by (simp add: Let_def)
  qed simp
  then show ?thesis using assms [of "Suc _"] by (simp add: mkdir_def ancestor_def)
qed

lemma tree_ok_add:
  assumes "tree_ok t" "t q = None" "\<And>n. n < length (pp_parts q) \<Longrightarrow> t (ancestor n q) = Some Dir"
  shows "tree_ok (t(q \<mapsto> f))"
proof -
  have ne: "ancestor n q \<noteq> q" if "n < length (pp_parts q)" for n
  proof
    assume "ancestor n q = q"
    then have "length (pp_parts (ancestor n q)) = length (pp_parts q)" by simp
    with that show False by (simp add: ancestor_def)
  qed
  have "ancestor n p \<noteq> q" if "t p \<noteq> None" "n < length (pp_parts p)" for p n
    using that assms(1,2) by (auto simp: tree_ok_def)
  moreover have "pp_parts q \<noteq> []" using assms(1,2) by (auto simp: tree_ok_def)
  ultimately show ?thesis using assms ne unfolding tree_ok_def by auto
qed

subsection \<open>The store as a map\<close>

definition plain_path :: "ppath \<Rightarrow> bool" where
  "plain_path p \<longleftrightarrow> pp_parts p \<noteq> [] \<and> last (pp_parts p) \<noteq> ''..''"

lemma locate_plain:
  "plain_path p \<Longrightarrow> locate st p = (locate st (path_parent p))\<lparr>pp_parts :=
      pp_parts (locate st (path_parent p)) @ [last (pp_parts p)]\<rparr>"
proof -
  assume p: "plain_path p"
  then obtain xs l where xs: "pp_parts p = xs @ [l]" "l \<noteq> ''..''"
    by (metis append_butlast_last_id plain_path_def)
  then show ?thesis
    by (simp add: locate_def path_resolve_def path_parent_def resolve_parts_append)
qed

lemma locate_other:
  assumes "\<not> plain_path p"
  shows "\<exists>n \<le> length (pp_parts (locate st (path_parent p))). locate st p = ancestor n (locate st (path_parent p))"
proof (cases "pp_parts p = []")
  case True
  then have "path_parent p = p" by (simp add: path_parent_def)
  then show ?thesis by (intro exI [of _ "length (pp_parts (locate st p))"]) (simp add: ancestor_def)
next
  case False
  then obtain xs where xs: "pp_parts p = xs @ [''..'']"
    using assms by (metis append_butlast_last_id plain_path_def)
  let ?d = "locate st (path_parent p)"
  have "locate st p = ancestor (length (pp_parts ?d) - 1) ?d"
    using xs by (simp add: locate_def path_resolve_def path_parent_def resolve_parts_append ancestor_def butlast_conv_take)
  then show ?thesis by (intro exI [of _ "length (pp_parts ?d) - 1"]) simp
qed

definition ls_file :: "local_storage \<Rightarrow> string \<Rightarrow> ppath option" where
  "ls_file st key =
     (case path_for_key st key of Inl _ \<Rightarrow> None | Inr p \<Rightarrow> if plain_path p then Some (locate st p) else None)"

definition ls_stored :: "local_storage \<Rightarrow> tree \<Rightarrow> string \<Rightarrow> string option" where
  "ls_stored st t key =
     (case ls_file st key of None \<Rightarrow> None
      | Some q \<Rightarrow> (case t q of Some (File c) \<Rightarrow> Some c | _ \<Rightarrow> None))"

definition ls_put :: "local_storage \<Rightarrow> string \<Rightarrow> string \<Rightarrow> tree \<Rightarrow> bool result \<times> tree" where
  "ls_put st key content t =
     (case write_bytes_idempotent st key content t of (r, t') \<Rightarrow> (bindR r (\<lambda>f. Inr (sf_written f)), t'))"

definition same_hash :: "string \<Rightarrow> string \<Rightarrow> bool" where
  "same_hash x y \<longleftrightarrow> sha256_hex x = sha256_hex y"

text \<open>What a write does: it raises having created directories at most, or finds the file, or makes it.\<close>

lemma ls_put_cases:
  assumes "ls_put st k c t = (r, t')" "tree_ok t"
  obtains (raised) e where "r = Inl e" "t' = t \<or> (\<exists>p. mkdir p t = Inr t')"
  | (found) q x where "ls_file st k = Some q" "t q = Some (File x)" "same_hash x c" "r = Inr False"
      "\<exists>p. mkdir p t = Inr t'"
  | (made) q d where "ls_file st k = Some q" "mkdir (ancestor (length (pp_parts q) - 1) q) t = Inr d" "d q = None"
      "pp_parts q \<noteq> []" "r = Inr True" "t' = d(q \<mapsto> File c)"
proof (cases "path_for_key st k")
  case (Inl e)
  then have "r = Inl e" "t' = t" using assms by (auto simp: ls_put_def write_bytes_idempotent_def)
  then show ?thesis using raised by blast
next
  case p: (Inr p)
  let ?q = "locate st p" and ?d = "locate st (path_parent p)"
  show ?thesis
  proof (cases "mkdir ?d t")
    case (Inl e)
    then have "r = Inl e" "t' = t" using assms p by (auto simp: ls_put_def write_bytes_idempotent_def)
    then show ?thesis using raised by blast
  next
    case d: (Inr d)
    show ?thesis
    proof (cases "plain_path p")
      case False
      then obtain n where "n \<le> length (pp_parts ?d)" "?q = ancestor n ?d" using locate_other by blast
      then have "d ?q = Some Dir" using mkdir_ancestor [OF d assms(2)] by simp
      then have "r = Inl OSError" "t' = d" using assms p d by (auto simp: ls_put_def write_bytes_idempotent_def)
      then show ?thesis using raised d by blast
    next
      case True
      note q = locate_plain [OF True, of st]
      have lf: "ls_file st k = Some ?q" using p True by (simp add: ls_file_def)
      have anc: "?d = ancestor (length (pp_parts ?q) - 1) ?q" "pp_parts ?q \<noteq> []"
        by (subst (1 2) q, simp add: ancestor_def) (subst q, simp)
      show ?thesis
      proof (cases "d ?q")
        case None
        then have "r = Inr True" "t' = d(?q \<mapsto> File c)"
          using assms p d by (auto simp: ls_put_def write_bytes_idempotent_def)
        moreover have "mkdir (ancestor (length (pp_parts ?q) - 1) ?q) t = Inr d" using d anc(1) by simp
        ultimately show ?thesis using made lf None anc(2) by blast
      next
        case (Some n)
        show ?thesis
        proof (cases "\<exists>x. n = File x \<and> same_hash x c")
          case True
          then obtain x where x: "n = File x" "same_hash x c" by blast
          then have "r = Inr False" "t' = d"
            using assms p d Some by (auto simp: ls_put_def write_bytes_idempotent_def same_hash_def)
          moreover have "t ?q = Some (File x)" using Some x(1) mkdir_file [OF d] by simp
          ultimately show ?thesis using found lf x(2) d by blast
        next
          case False
          then have "(\<exists>e. r = Inl e) \<and> t' = d" using assms p d Some
            by (cases n) (auto simp: ls_put_def write_bytes_idempotent_def same_hash_def)
          then show ?thesis using raised d by blast
        qed
      qed
    qed
  qed
qed

subsection \<open>The evidence store\<close>

fun put_all ::
  "(string \<Rightarrow> string \<Rightarrow> 's \<Rightarrow> bool result \<times> 's) \<Rightarrow> (string \<times> string) list \<Rightarrow> 's \<Rightarrow> bool list result \<times> 's" where
  "put_all put [] s = (Inr [], s)"
| "put_all put ((k, c) # es) s =
     (case put k c s of
        (Inl e, s') \<Rightarrow> (Inl e, s')
      | (Inr w, s') \<Rightarrow> (case put_all put es s' of (r, s'') \<Rightarrow> (bindR r (\<lambda>ws. Inr (w # ws)), s'')))"

locale evidence_store =
  fixes stored :: "'s \<Rightarrow> string \<Rightarrow> string option"
    and put :: "string \<Rightarrow> string \<Rightarrow> 's \<Rightarrow> bool result \<times> 's"
    and same :: "string \<Rightarrow> string \<Rightarrow> bool"
    and ok :: "'s \<Rightarrow> bool"
  assumes put_ok: "ok s \<Longrightarrow> put k c s = (r, s') \<Longrightarrow> ok s'"
    and put_keeps: "ok s \<Longrightarrow> put k c s = (r, s') \<Longrightarrow> stored s j = Some x \<Longrightarrow> stored s' j = Some x"
    and put_new: "ok s \<Longrightarrow> put k c s = (r, s') \<Longrightarrow> stored s j = None \<Longrightarrow> stored s' j = Some x \<Longrightarrow> x = c"
    and put_stores: "ok s \<Longrightarrow> put k c s = (Inr w, s') \<Longrightarrow>
      \<exists>x. stored s' k = Some x \<and> same x c \<and> (w \<longleftrightarrow> stored s k = None)"
    and put_again: "ok s \<Longrightarrow> stored s k = Some x \<Longrightarrow> same x c \<Longrightarrow> put k c s = (Inr False, s)"
    and put_conflict: "ok s \<Longrightarrow> stored s k = Some x \<Longrightarrow> \<not> same x c \<Longrightarrow> \<exists>e. fst (put k c s) = Inl e"
begin

lemma put_all_Cons:
  assumes "put_all put ((k, c) # es) s = (r, s')"
  obtains e where "put k c s = (Inl e, s')" "r = Inl e"
  | w t q where "put k c s = (Inr w, t)" "put_all put es t = (q, s')" "r = bindR q (\<lambda>ws. Inr (w # ws))"
  using assms by (auto split: prod.splits sum.splits)

lemma put_all_ok: "ok s \<Longrightarrow> put_all put es s = (r, s') \<Longrightarrow> ok s'"
proof (induction es arbitrary: s r)
  case (Cons e es)
  obtain k c where e: "e = (k, c)" by fastforce
  from Cons.prems(2) [unfolded e] show ?case
    using put_ok [OF Cons.prems(1)] Cons.IH by (cases rule: put_all_Cons) blast+
qed simp

lemma put_all_keeps: "ok s \<Longrightarrow> put_all put es s = (r, s') \<Longrightarrow> stored s j = Some x \<Longrightarrow> stored s' j = Some x"
proof (induction es arbitrary: s r)
  case (Cons e es)
  obtain k c where e: "e = (k, c)" by fastforce
  from Cons.prems(2) [unfolded e] show ?case
    using put_keeps [OF Cons.prems(1) _ Cons.prems(3)] put_ok [OF Cons.prems(1)] Cons.IH
    by (cases rule: put_all_Cons) blast+
qed simp

lemma put_all_new:
  "ok s \<Longrightarrow> put_all put es s = (r, s') \<Longrightarrow> stored s j = None \<Longrightarrow> stored s' j = Some x \<Longrightarrow> x \<in> snd ` set es"
proof (induction es arbitrary: s r)
  case (Cons e es)
  obtain k c where e: "e = (k, c)" by fastforce
  from Cons.prems(2) [unfolded e] show ?case
  proof (cases rule: put_all_Cons)
    case (1 er)
    then show ?thesis using put_new [OF Cons.prems(1) 1(1) Cons.prems(3,4)] e by simp
  next
    case (2 w t q)
    have ok: "ok t" using put_ok [OF Cons.prems(1) 2(1)] .
    show ?thesis
    proof (cases "stored t j")
      case None
      then show ?thesis using Cons.IH [OF ok 2(2) _ Cons.prems(4)] by simp
    next
      case (Some y)
      then have "y = x" "y = c"
        using put_all_keeps [OF ok 2(2) Some] Cons.prems(4) put_new [OF Cons.prems(1) 2(1) Cons.prems(3) Some] by simp_all
      then show ?thesis using e by simp
    qed
  qed
qed simp

lemma put_all_stores:
  "ok s \<Longrightarrow> put_all put es s = (Inr ws, s') \<Longrightarrow> (k, c) \<in> set es \<Longrightarrow> \<exists>x. stored s' k = Some x \<and> same x c"
proof (induction es arbitrary: s ws)
  case (Cons e es)
  obtain ek ec where e: "e = (ek, ec)" by fastforce
  from Cons.prems(2) [unfolded e] show ?case
  proof (cases rule: put_all_Cons)
    case (2 w t q)
    then obtain vs where vs: "put_all put es t = (Inr vs, s')" by (cases q) auto
    have ok: "ok t" using put_ok [OF Cons.prems(1) 2(1)] .
    show ?thesis
    proof (cases "(k, c) = e")
      case True
      then show ?thesis using put_stores [OF Cons.prems(1) 2(1)] put_all_keeps [OF ok 2(2)] e by blast
    next
      case False
      then show ?thesis using Cons.IH [OF ok vs] Cons.prems(3) by simp
    qed
  qed simp
qed simp

lemma put_all_present:
  assumes "ok s" "\<forall>(k, c) \<in> set es. \<exists>x. stored s k = Some x \<and> same x c"
  shows "put_all put es s = (Inr (replicate (length es) False), s)"
  using assms(2)
proof (induction es)
  case (Cons e es)
  then obtain k c x where e: "e = (k, c)" "stored s k = Some x" "same x c" by (cases e) auto
  then show ?case using Cons put_again [OF assms(1) e(2,3)] by simp
qed simp

text \<open>Storing the same entries a second time changes nothing and writes nothing.\<close>

lemma put_all_twice:
  assumes "ok s" "put_all put es s = (Inr ws, s')"
  shows "put_all put es s' = (Inr (replicate (length es) False), s')"
  using put_all_present [OF put_all_ok [OF assms]] put_all_stores [OF assms] by blast

end

text \<open>What a write does to the map.\<close>

lemma ls_stored_mkdir:
  assumes "mkdir p t = Inr t'"
  shows "ls_stored st t' = ls_stored st t"
proof
  fix k
  show "ls_stored st t' k = ls_stored st t k"
  proof (cases "ls_file st k")
    case (Some q)
    then show ?thesis using mkdir_facts(1) [OF assms, of q] by (auto simp: ls_stored_def)
  qed (simp add: ls_stored_def)
qed

lemma ls_put_stored:
  assumes "ls_put st k c t = (r, t')" "tree_ok t"
  obtains (raised) e where "r = Inl e" "ls_stored st t' = ls_stored st t" "tree_ok t'"
  | (found) x where "ls_stored st t k = Some x" "same_hash x c" "r = Inr False" "ls_stored st t' = ls_stored st t" "tree_ok t'"
  | (made) "ls_stored st t k = None" "r = Inr True" "tree_ok t'" "ls_stored st t' k = Some c"
      "\<forall>j. ls_stored st t' j = ls_stored st t j \<or> ls_stored st t j = None \<and> ls_stored st t' j = Some c"
  using assms
proof (cases rule: ls_put_cases)
  case (raised e)
  then have "ls_stored st t' = ls_stored st t" "tree_ok t'"
    using assms(2) ls_stored_mkdir mkdir_ok by blast+
  then show ?thesis using that(1) raised(1) by blast
next
  case (found q x)
  then have "ls_stored st t' = ls_stored st t" "tree_ok t'" "ls_stored st t k = Some x"
    using assms(2) ls_stored_mkdir mkdir_ok by (blast, blast, simp add: ls_stored_def)
  then show ?thesis using that(2) found(3,4) by blast
next
  case (made q d)
  have n: "t q = None" using mkdir_facts(1) [OF made(2), of q] made(3) by auto
  have "tree_ok d" using made(2) assms(2) by (rule mkdir_ok)
  moreover have "d (ancestor n q) = Some Dir" if "n < length (pp_parts q)" for n
  proof -
    have "ancestor n q = ancestor n (ancestor (length (pp_parts q) - 1) q)"
      using that by (auto simp: ancestor_def min_def)
    then show ?thesis using mkdir_ancestor [OF made(2) assms(2), of n] that by (auto simp: ancestor_def)
  qed
  ultimately have "tree_ok t'" using tree_ok_add made(3,6) by simp
  moreover have "ls_stored st t' j = ls_stored st t j \<or> ls_stored st t j = None \<and> ls_stored st t' j = Some c" for j
  proof (cases "ls_file st j = Some q")
    case True
    then show ?thesis using made(6) n by (simp add: ls_stored_def)
  next
    case False
    then have "ls_stored st t' j = ls_stored st d j" using made(6) by (auto simp: ls_stored_def split: option.split)
    then show ?thesis using ls_stored_mkdir [OF made(2), of st] by simp
  qed
  moreover have "ls_stored st t k = None" "ls_stored st t' k = Some c" using made(1,6) n by (simp_all add: ls_stored_def)
  ultimately show ?thesis using that(3) made(5) by blast
qed

lemma ls_put_present:
  assumes "tree_ok t" "ls_stored st t k = Some x" "same_hash x c"
  shows "ls_put st k c t = (Inr False, t)"
proof -
  obtain p where p: "path_for_key st k = Inr p" "plain_path p" "t (locate st p) = Some (File x)"
    using assms(2) by (auto simp: ls_stored_def ls_file_def split: option.splits sum.splits if_splits node.splits)
  note q = locate_plain [OF p(2), of st]
  have "t (ancestor n (locate st (path_parent p))) = Some Dir" if "n \<le> length (pp_parts (locate st (path_parent p)))" for n
  proof -
    have "ancestor n (locate st (path_parent p)) = ancestor n (locate st p)" "n < length (pp_parts (locate st p))"
      using that by (subst q, simp add: ancestor_def) (subst q, use that in simp)
    then show ?thesis using assms(1) p(3) by (simp add: tree_ok_def)
  qed
  then have "mkdir (locate st (path_parent p)) t = Inr t" by (intro mkdir_present)
  then show ?thesis using p assms(3) by (simp add: ls_put_def write_bytes_idempotent_def same_hash_def)
qed

interpretation local: evidence_store "ls_stored st" "ls_put st" same_hash tree_ok for st
proof unfold_locales
  fix s k c r s' j x
  assume ok: "tree_ok s" and p: "ls_put st k c s = (r, s')"
  from p ok show "tree_ok s'" by (cases rule: ls_put_stored)
  from p ok show "ls_stored st s j = Some x \<Longrightarrow> ls_stored st s' j = Some x"
    by (cases rule: ls_put_stored) (simp, simp, metis option.distinct(1))
  from p ok show "ls_stored st s j = None \<Longrightarrow> ls_stored st s' j = Some x \<Longrightarrow> x = c"
    by (cases rule: ls_put_stored) (simp, simp, metis option.distinct(1) option.inject)
next
  fix s k c w s'
  assume ok: "tree_ok s" and p: "ls_put st k c s = (Inr w, s')"
  from p ok show "\<exists>x. ls_stored st s' k = Some x \<and> same_hash x c \<and> w = (ls_stored st s k = None)"
    by (cases rule: ls_put_stored) (auto simp: same_hash_def)
next
  fix s k x c
  assume "tree_ok s" "ls_stored st s k = Some x" "same_hash x c"
  then show "ls_put st k c s = (Inr False, s)" by (rule ls_put_present)
next
  fix s k x c
  assume ok: "tree_ok s" and st: "ls_stored st s k = Some x" "\<not> same_hash x c"
  obtain r s' where p: "ls_put st k c s = (r, s')" by fastforce
  from p ok show "\<exists>e. fst (ls_put st k c s) = Inl e"
    by (cases rule: ls_put_stored) (use p st in auto)
qed

subsection \<open>Where a key leads\<close>

definition plain_part :: "string \<Rightarrow> bool" where
  "plain_part p \<longleftrightarrow> p \<noteq> [] \<and> p \<noteq> ''.'' \<and> p \<noteq> ''..'' \<and> CHR ''/'' \<notin> set p \<and> CHR 0x5C \<notin> set p"

definition below_root :: "local_storage \<Rightarrow> string list \<Rightarrow> ppath" where
  "below_root st ps = (locate st (ls_root st))\<lparr>pp_parts := pp_parts (locate st (ls_root st)) @ ps\<rparr>"

lemma join_chars: "c \<in> set (py_join sep ps) \<Longrightarrow> c \<in> set sep \<or> (\<exists>p \<in> set ps. c \<in> set p)"
  by (induction sep ps rule: py_join.induct) auto

lemma key_file:
  assumes "ps \<noteq> []" "\<forall>p \<in> set ps. plain_part p"
  shows "ls_file st (py_join ''/'' ps) = Some (below_root st ps)"
proof -
  let ?k = "py_join ''/'' ps"
  have parts: "\<forall>p \<in> set ps. p \<noteq> [] \<and> p \<noteq> ''.'' \<and> CHR ''/'' \<notin> set p" and dots: "''..'' \<notin> set ps"
    using assms(2) by (auto simp: plain_part_def)
  have "CHR 0x5C \<notin> set ?k" using assms(2) join_chars by (fastforce simp: plain_part_def)
  moreover have "hd ?k \<noteq> CHR ''/''" "?k \<noteq> []"
  proof -
    have h: "hd ps \<in> set ps" using assms(1) by simp
    then have "hd ps \<noteq> []" "hd (hd ps) \<noteq> CHR ''/''" using parts by (auto simp: list.set_sel(1)) (metis list.set_sel(1))
    then show "hd ?k \<noteq> CHR ''/''" "?k \<noteq> []" using join_hd [OF assms(1), of "''/''"] by auto
  qed
  ultimately have k: "dropWhile (\<lambda>c. c = CHR ''/'') (replace_char (CHR 0x5C) ''/'' ?k) = ?k"
    by (simp add: replace_char_absent dropWhile_eq_self_iff)
  have root: "path_root ?k = []" using path_root_join [OF parts, of "[]"] by simp
  let ?p = "(ls_root st)\<lparr>pp_parts := pp_parts (ls_root st) @ ps\<rparr>"
  have j: "path_join (ls_root st) ?k = ?p"
    using root path_parts_join [OF parts] by (simp add: path_join_def)
  have loc: "locate st ((ls_root st)\<lparr>pp_parts := pp_parts (ls_root st) @ qs\<rparr>) = below_root st qs" if "''..'' \<notin> set qs" for qs
    using that by (simp add: locate_def below_root_def path_resolve_def resolve_parts_append resolve_parts_plain)
  have "path_parent ?p = (ls_root st)\<lparr>pp_parts := pp_parts (ls_root st) @ butlast ps\<rparr>"
    using assms(1) by (simp add: path_parent_def butlast_append)
  moreover have "''..'' \<notin> set (butlast ps)" using dots by (meson in_set_butlastD)
  ultimately have "is_relative_to (locate st (path_parent ?p)) (locate st (ls_root st))"
    using loc by (simp add: is_relative_to_def below_root_def)
  moreover have "plain_path ?p" using assms(1) dots by (auto simp: plain_path_def) (metis last_in_set)
  ultimately show ?thesis using loc [OF dots] by (simp add: ls_file_def path_for_key_def k j Let_def)
qed

lemma segment_plain:
  assumes "\<forall>c \<in> set s. segment_char c" "s \<noteq> []" "s \<noteq> ''.''" "s \<noteq> ''..''"
  shows "plain_part s"
proof -
  have "\<not> segment_char (CHR 0x5C)" by code_simp
  then show ?thesis using assms segment_not_slash by (auto simp: plain_part_def)
qed

lemma safe_segment_plain: "safe_segment v = Inr s \<Longrightarrow> plain_part s \<and> (\<forall>c \<in> set s. segment_char c)"
  using safe_segment_part [of v] safe_segment_chars [of _ v] segment_plain [of s]
  by (auto simp: safe_segment_def Let_def split: if_splits)

lemma key_name_chars:
  assumes "key_name i sha suffix = Inr n" "\<forall>c \<in> set suffix. segment_char c"
  shows "(\<forall>c \<in> set n. segment_char c) \<and> CHR ''-'' \<in> set n"
proof -
  have "segment_char (CHR ''-'')" by code_simp
  then show ?thesis using assms by (auto simp: key_name_def bindR_Inr_conv dest!: safe_segment_plain)
qed

lemma name_plain: "\<forall>c \<in> set n. segment_char c \<Longrightarrow> CHR ''-'' \<in> set n \<Longrightarrow> plain_part n"
  by (rule segment_plain) auto

lemma year_month_plain:
  assumes "year_month v = (y, m)"
  shows "plain_part y" "plain_part m"
proof -
  have dig: "char_is_digit c \<Longrightarrow> segment_char c" for c by (simp add: segment_char_def char_is_alnum_def)
  have d: "\<forall>c \<in> set (pad w n). segment_char c" for w n using pad_digits dig by blast
  have ne: "pad w n \<noteq> ''.''" "pad w n \<noteq> ''..''" for w n
    using pad_digits [of "CHR ''.''" w n] by (auto simp: char_is_digit_def char_code_def simp del: pad.simps)
  have "pad 4 n \<noteq> []" "pad 2 n \<noteq> []" for n
    by (simp_all add: length_0_conv [symmetric] del: pad.simps length_0_conv)
  then have "plain_part (pad 4 n)" "plain_part (pad 2 n)" for n
    using d ne by (auto intro!: segment_plain simp del: pad.simps)
  then show "plain_part y" "plain_part m" using assms by (auto simp: year_month_def split: prod.splits)
qed

lemma period_key_file:
  assumes "period_key st rfc family period name now t = (Inr key, t')"
    and "plain_part family" "plain_part name"
  shows "\<exists>seg y m. safe_rfc rfc = Inr seg \<and> year_month period = (y, m)
    \<and> key = py_join ''/'' [seg, family, y, m, name] \<and> ls_file st key = Some (below_root st [seg, family, y, m, name])"
proof -
  obtain y m where ym: "year_month period = (y, m)" by fastforce
  obtain seg where seg: "safe_rfc rfc = Inr seg" "key = py_join ''/'' [seg, family, y, m, name]"
    using assms(1) ym by (auto simp: period_key_def bindR_Inr_conv simp del: py_join.simps split: prod.splits sum.splits)
  have "\<forall>p \<in> set [seg, family, y, m, name]. plain_part p"
    using assms(2,3) year_month_plain [OF ym] safe_segment_plain seg(1) by (auto simp: safe_rfc_def)
  then show ?thesis using key_file [of "[seg, family, y, m, name]" st] seg ym by simp
qed

subsection \<open>Properties\<close>

definition write_step :: "local_storage \<Rightarrow> string \<times> string \<Rightarrow> tree \<Rightarrow> tree" where
  "write_step st kc t = snd (write_bytes_idempotent st (fst kc) (snd kc) t)"

lemma write_step_put: "write_step st (k, c) t = snd (ls_put st k c t)"
  by (simp add: write_step_def ls_put_def split: prod.split)

lemma write_steps_keep:
  "tree_ok t \<Longrightarrow> tree_ok (fold (write_step st) ops t)
    \<and> (ls_stored st t j = Some x \<longrightarrow> ls_stored st (fold (write_step st) ops t) j = Some x)
    \<and> (ls_stored st t j = None \<longrightarrow> ls_stored st (fold (write_step st) ops t) j = Some x \<longrightarrow> x \<in> snd ` set ops)"
proof (induction ops arbitrary: t x)
  case (Cons op ops)
  obtain k c where op: "op = (k, c)" by fastforce
  obtain r t' where p: "ls_put st k c t = (r, t')" by fastforce
  have s: "write_step st op t = t'" using p op by (simp add: write_step_put)
  note IH = Cons.IH [OF local.put_ok [OF Cons.prems p]]
  note k = local.put_keeps [OF Cons.prems p, of j] and n = local.put_new [OF Cons.prems p, of j]
  show ?case
  proof (cases "ls_stored st t j")
    case None
    show ?thesis
    proof (cases "ls_stored st t' j")
      case (Some y)
      then have "y = c" "ls_stored st (fold (write_step st) ops t') j = Some y"
        using n [OF None] IH [of y] by auto
      then show ?thesis using None IH [of x] s op by auto
    qed (use None IH [of x] s in auto)
  next
    case (Some y)
    then show ?thesis using IH [of x] k [OF Some] s by auto
  qed
qed simp

lemma written_digest:
  assumes "write_bytes_idempotent st k c t = (Inr f, t')"
  shows "sf_sha256 f = sha256_hex c"
proof -
  obtain p d where p: "path_for_key st k = Inr p" "mkdir (locate st (path_parent p)) t = Inr d"
    using assms by (simp add: write_bytes_idempotent_def split: sum.splits)
  show ?thesis
  proof (cases "d (locate st p)")
    case (Some n)
    then show ?thesis using assms p by (cases n) (simp_all add: write_bytes_idempotent_def split: if_splits, safe, simp)
  qed (use assms p in \<open>simp add: write_bytes_idempotent_def, safe, simp\<close>)
qed

text \<open>C5: evidence is written once: over any sequence of idempotent writes, with any keys and contents,
  the bytes stored under a key never change, and new bytes are the bytes of one of the writes. A write
  that returns has stored bytes with the digest it reports; a repeated write finds them and changes
  nothing.\<close>

theorem evidence_is_written_once:
  assumes "tree_ok t"
  shows "(ls_stored st t j = Some x \<longrightarrow> ls_stored st (fold (write_step st) ops t) j = Some x)
    \<and> (ls_stored st t j = None \<longrightarrow> ls_stored st (fold (write_step st) ops t) j = Some x \<longrightarrow> x \<in> snd ` set ops)
    \<and> (\<forall>k c f t'. write_bytes_idempotent st k c t = (Inr f, t') \<longrightarrow>
         (\<exists>x. ls_stored st t' k = Some x \<and> sha256_hex x = sf_sha256 f \<and> (sf_written f \<longleftrightarrow> ls_stored st t k = None))
         \<and> snd (write_bytes_idempotent st k c t') = t')"
proof (intro conjI)
  show "ls_stored st t j = Some x \<longrightarrow> ls_stored st (fold (write_step st) ops t) j = Some x"
    "ls_stored st t j = None \<longrightarrow> ls_stored st (fold (write_step st) ops t) j = Some x \<longrightarrow> x \<in> snd ` set ops"
    using write_steps_keep [OF assms] by blast+
  show "\<forall>k c f t'. write_bytes_idempotent st k c t = (Inr f, t') \<longrightarrow>
         (\<exists>x. ls_stored st t' k = Some x \<and> sha256_hex x = sf_sha256 f \<and> (sf_written f \<longleftrightarrow> ls_stored st t k = None))
         \<and> snd (write_bytes_idempotent st k c t') = t'"
  proof (intro allI impI)
    fix k c f t' assume w: "write_bytes_idempotent st k c t = (Inr f, t')"
    then have p: "ls_put st k c t = (Inr (sf_written f), t')" by (simp add: ls_put_def)
    have h: "sf_sha256 f = sha256_hex c" using w by (rule written_digest)
    obtain x where x: "ls_stored st t' k = Some x" "same_hash x c" "sf_written f = (ls_stored st t k = None)"
      using local.put_stores [OF assms p] by metis
    have "ls_put st k c t' = (Inr False, t')" using local.put_again [OF local.put_ok [OF assms p] x(1,2)] .
    then have "snd (write_bytes_idempotent st k c t') = t'"
      using write_step_put [of st k c t'] by (simp add: write_step_def)
    then show "(\<exists>x. ls_stored st t' k = Some x \<and> sha256_hex x = sf_sha256 f \<and> (sf_written f \<longleftrightarrow> ls_stored st t k = None))
         \<and> snd (write_bytes_idempotent st k c t') = t'"
      using x h by (intro conjI exI [of _ x]) (simp_all add: same_hash_def)
  qed
qed

definition empty_tree :: tree where
  "empty_tree p = (if pp_parts p = [] then Some Dir else None)"

lemma empty_tree_ok: "tree_ok empty_tree"
  by (auto simp: tree_ok_def empty_tree_def ancestor_def)

definition example_store :: local_storage where
  "example_store = \<lparr>ls_root = mk_path ''/s'', ls_cwd = mk_path ''/''\<rparr>"

text \<open>A new file whose way is free of files is written.\<close>

lemma mkdir_free:
  assumes "\<And>n c. 0 < n \<Longrightarrow> n \<le> length (pp_parts p) \<Longrightarrow> t (ancestor n p) \<noteq> Some (File c)"
  shows "\<exists>t'. mkdir p t = Inr t'"
proof -
  have "\<exists>t'. make_dirs base ps t = Inr t'"
    if "\<forall>n < length ps. \<forall>c. t (base\<lparr>pp_parts := pp_parts base @ take (Suc n) ps\<rparr>) \<noteq> Some (File c)" for base ps t
    using that
  proof (induction ps arbitrary: base t)
    case (Cons q qs)
    let ?b = "base\<lparr>pp_parts := pp_parts base @ [q]\<rparr>"
    have "t ?b = None \<or> t ?b = Some Dir"
    proof (cases "t ?b")
      case (Some a)
      then show ?thesis using Cons.prems [rule_format, of 0] by (cases a) auto
    qed simp
    moreover have "\<exists>t'. make_dirs ?b qs (t(?b \<mapsto> Dir)) = Inr t'"
    proof (rule Cons.IH, intro allI impI)
      fix n c assume "n < length qs"
      then have "t (base\<lparr>pp_parts := pp_parts base @ take (Suc (Suc n)) (q # qs)\<rparr>) \<noteq> Some (File c)"
        using Cons.prems by (metis Suc_less_eq length_Cons)
      then show "(t(?b \<mapsto> Dir)) (?b\<lparr>pp_parts := pp_parts ?b @ take (Suc n) qs\<rparr>) \<noteq> Some (File c)" by simp
    qed
    ultimately show ?case by (auto simp: Let_def)
  qed simp
  then show ?thesis using assms [of "Suc _"] by (simp add: mkdir_def ancestor_def)
qed

lemma ls_put_fresh:
  assumes "tree_ok t" "ls_file st k = Some q" "t q = None"
    and free: "\<And>n c. n < length (pp_parts q) \<Longrightarrow> t (ancestor n q) \<noteq> Some (File c)"
  shows "\<exists>t'. ls_put st k c t = (Inr True, t')
    \<and> (\<forall>r x. t' r = Some (File x) \<longrightarrow> r = q \<or> t r = Some (File x)) \<and> (\<forall>r. t r = None \<longrightarrow> length (pp_parts q) \<le> length (pp_parts r) \<longrightarrow> r \<noteq> q \<longrightarrow> t' r = None)"
proof -
  obtain p where p: "path_for_key st k = Inr p" "plain_path p" "q = locate st p"
    using assms(2) by (auto simp: ls_file_def split: sum.splits if_splits)
  let ?D = "locate st (path_parent p)"
  note loc = locate_plain [OF p(2), of st]
  have anc: "ancestor n ?D = ancestor n q" if "n \<le> length (pp_parts ?D)" for n
    using that by (subst p(3), subst loc) (simp add: ancestor_def)
  have len: "length (pp_parts q) = Suc (length (pp_parts ?D))" by (subst p(3), subst loc) simp
  obtain d where d: "mkdir ?D t = Inr d"
    using mkdir_free [of ?D t] free anc len by (metis le_imp_less_Suc)
  have new: "r = ancestor n ?D \<Longrightarrow> length (pp_parts r) < length (pp_parts q)" for r n
    using len by (simp add: ancestor_def)
  have "d q = None" using mkdir_facts(3) [OF d, of q] assms(3) new by fastforce
  then have "ls_put st k c t = (Inr True, d(q \<mapsto> File c))"
    using p d by (simp add: ls_put_def write_bytes_idempotent_def)
  moreover have "d r = None" if "t r = None" "length (pp_parts q) \<le> length (pp_parts r)" for r
    using mkdir_facts(3) [OF d, of r] that new by fastforce
  ultimately show ?thesis using mkdir_file [OF d] by (intro exI [of _ "d(q \<mapsto> File c)"]) auto
qed

lemma empty_tree_no_file: "empty_tree q \<noteq> Some (File c)"
  by (simp add: empty_tree_def)

lemma example_write:
  "\<exists>f t. write_bytes_idempotent example_store ''a/b.xml'' ''x'' empty_tree = (Inr f, t)"
proof -
  have f: "ls_file example_store ''a/b.xml'' = Some (mk_path ''/s/a/b.xml'')" by code_simp
  have n: "empty_tree (mk_path ''/s/a/b.xml'') = None" by code_simp
  obtain t where "ls_put example_store ''a/b.xml'' ''x'' empty_tree = (Inr True, t)"
    using ls_put_fresh [OF empty_tree_ok f n empty_tree_no_file, of "''x''"] by blast
  then show ?thesis by (auto simp: ls_put_def bindR_Inr_conv split: prod.splits)
qed

theorem evidence_is_written_once_witness:
  "\<exists>f t. write_bytes_idempotent example_store ''a/b.xml'' ''x'' empty_tree = (Inr f, t)
    \<and> ls_stored example_store t ''a/b.xml'' \<noteq> None \<and> snd (write_bytes_idempotent example_store ''a/b.xml'' ''x'' t) = t"
proof -
  obtain f t where w: "write_bytes_idempotent example_store ''a/b.xml'' ''x'' empty_tree = (Inr f, t)"
    using example_write by blast
  then show ?thesis using evidence_is_written_once [OF empty_tree_ok, of example_store] by fastforce
qed



text \<open>C29: the keys of the store lead into the folder of their RFC, kind, year and month under the root:
  the key of an XML, a package or a metadata file is accepted, the name is built from the identifier and
  the first twelve characters of the digest, and none of its parts can leave the folder.\<close>

theorem keys_lead_to_period_folder:
  "(xml_key st rfc period ident sha now t = (Inr k, t') \<longrightarrow>
      (\<exists>seg y m i h. safe_rfc rfc = Inr seg \<and> year_month period = (y, m)
        \<and> safe_segment (py_upper ident) = Inr i \<and> safe_segment (take 12 sha) = Inr h
        \<and> ls_file st k = Some (below_root st [seg, ''xml'', y, m, i @ ''-'' @ h @ ''.xml''])))
   \<and> (package_key st rfc period ident sha now t = (Inr k, t') \<longrightarrow>
      (\<exists>seg y m i h. safe_rfc rfc = Inr seg \<and> year_month period = (y, m)
        \<and> safe_segment ident = Inr i \<and> safe_segment (take 12 sha) = Inr h
        \<and> ls_file st k = Some (below_root st [seg, ''packages'', y, m, i @ ''-'' @ h @ ''.zip''])))
   \<and> (metadata_key st rfc period ident sha extension now t = (Inr k, t') \<longrightarrow>
      (\<exists>seg y m i h x. safe_rfc rfc = Inr seg \<and> year_month period = (y, m)
        \<and> safe_segment ident = Inr i \<and> safe_segment (take 12 sha) = Inr h
        \<and> ls_file st k = Some (below_root st [seg, ''metadata'', y, m, i @ ''-'' @ h @ ''.'' @ x])))"
proof (intro conjI impI)
  have seg: "\<forall>c \<in> set ''.xml''. segment_char c" "\<forall>c \<in> set ''.zip''. segment_char c" "\<forall>c \<in> set ''.''. segment_char c"
    and fam: "plain_part ''xml''" "plain_part ''packages''" "plain_part ''metadata''"
    by code_simp+
  { assume "xml_key st rfc period ident sha now t = (Inr k, t')"
    then obtain n where n: "key_name (py_upper ident) sha ''.xml'' = Inr n" "period_key st rfc ''xml'' period n now t = (Inr k, t')"
      by (auto simp: xml_key_def split: sum.splits)
    have "plain_part n" using key_name_chars [OF n(1) seg(1)] name_plain by blast
    from period_key_file [OF n(2) fam(1) this] n(1)
    show "\<exists>seg y m i h. safe_rfc rfc = Inr seg \<and> year_month period = (y, m)
        \<and> safe_segment (py_upper ident) = Inr i \<and> safe_segment (take 12 sha) = Inr h
        \<and> ls_file st k = Some (below_root st [seg, ''xml'', y, m, i @ ''-'' @ h @ ''.xml''])"
      by (auto simp: key_name_def bindR_Inr_conv) }
  { assume "package_key st rfc period ident sha now t = (Inr k, t')"
    then obtain n where n: "key_name ident sha ''.zip'' = Inr n" "period_key st rfc ''packages'' period n now t = (Inr k, t')"
      by (auto simp: package_key_def split: sum.splits)
    have "plain_part n" using key_name_chars [OF n(1) seg(2)] name_plain by blast
    from period_key_file [OF n(2) fam(2) this] n(1)
    show "\<exists>seg y m i h. safe_rfc rfc = Inr seg \<and> year_month period = (y, m)
        \<and> safe_segment ident = Inr i \<and> safe_segment (take 12 sha) = Inr h
        \<and> ls_file st k = Some (below_root st [seg, ''packages'', y, m, i @ ''-'' @ h @ ''.zip''])"
      by (auto simp: key_name_def bindR_Inr_conv) }
  { assume "metadata_key st rfc period ident sha extension now t = (Inr k, t')"
    then obtain n x where n: "key_name ident sha ''.'' = Inr n" "safe_segment (dropWhile (\<lambda>c. c = CHR ''.'') extension) = Inr x"
      "period_key st rfc ''metadata'' period (n @ x) now t = (Inr k, t')"
      by (auto simp: metadata_key_def bindR_Inr_conv split: sum.splits)
    have "\<forall>c \<in> set (n @ x). segment_char c" "CHR ''-'' \<in> set (n @ x)"
      using key_name_chars [OF n(1) seg(3)] safe_segment_plain [OF n(2)] by auto
    then have "plain_part (n @ x)" by (rule name_plain)
    from period_key_file [OF n(3) fam(3) this] n(1)
    show "\<exists>seg y m i h x. safe_rfc rfc = Inr seg \<and> year_month period = (y, m)
        \<and> safe_segment ident = Inr i \<and> safe_segment (take 12 sha) = Inr h
        \<and> ls_file st k = Some (below_root st [seg, ''metadata'', y, m, i @ ''-'' @ h @ ''.'' @ x])"
      by (fastforce simp: key_name_def bindR_Inr_conv) }
qed

theorem keys_lead_to_period_folder_witness:
  "\<exists>k t'. xml_key example_store ''x y'' (Naive 0) ''u/../1'' ''0123456789abcdef'' 0 empty_tree = (Inr k, t')
    \<and> (\<exists>ps. ls_file example_store k = Some (below_root example_store ([''X-Y'', ''xml'', ''0001'', ''01''] @ ps)))"
proof -
  have "case fst (xml_key example_store ''x y'' (Naive 0) ''u/../1'' ''0123456789abcdef'' 0 empty_tree) of
      Inr k \<Rightarrow> True | Inl _ \<Rightarrow> False"
    by code_simp
  then obtain k t' where k: "xml_key example_store ''x y'' (Naive 0) ''u/../1'' ''0123456789abcdef'' 0 empty_tree = (Inr k, t')"
    by (cases "xml_key example_store ''x y'' (Naive 0) ''u/../1'' ''0123456789abcdef'' 0 empty_tree") (auto split: sum.splits)
  have "safe_rfc ''x y'' = Inr ''X-Y''" "year_month (Naive 0) = (''0001'', ''01'')" by code_simp+
  with keys_lead_to_period_folder [THEN conjunct1, rule_format, OF k] k show ?thesis by fastforce
qed

end
