(* ===== verification/PackageProcessor.thy ===== *)
theory PackageProcessor
  imports Storage
begin

text \<open>
  \<open>src/cfdi_vault/package_processor.py\<close>: checking, storing and extracting a downloaded ZIP package.

  \<open>zipfile.ZipFile\<close> is a parameter: it maps bytes to the entries of the archive, each with its name,
  whether it is a directory, and what reading it gives, or to an error; \<open>ZBad\<close> stands for the four
  exceptions the code turns into its own error. The storage is the port of Storage (locale
  \<open>evidence_store\<close>); \<open>MemoryPackageStorage\<close> is its second provider.
\<close>

subsection \<open>Archives\<close>

datatype zip_error = ZBad | ZOther exc

record zip_info =
  zi_filename :: string
  zi_is_dir :: bool
  zi_read :: "zip_error + string"

type_synonym zip_reader = "string \<Rightarrow> zip_error + zip_info list"

definition ALLOWED_EXTENSIONS :: "string list" where
  "ALLOWED_EXTENSIONS = [''.csv'', ''.txt'', ''.xml'']"

abbreviation package_error :: "string \<Rightarrow> 'a result" where
  "package_error m \<equiv> Inl (PackageProcessingError m)"

definition zip_result :: "zip_error + 'a \<Rightarrow> 'a result" where
  "zip_result r =
     (case r of Inl ZBad \<Rightarrow> package_error ''invalid ZIP package'' | Inl (ZOther e) \<Rightarrow> Inl e | Inr x \<Rightarrow> Inr x)"

subsection \<open>The scan of the raw headers\<close>

datatype zip_header = LocalHeader | CentralHeader

fun zip_signature :: "zip_header \<Rightarrow> string" where
  "zip_signature LocalHeader = [CHR ''P'', CHR ''K'', CHR 0x03, CHR 0x04]"
| "zip_signature CentralHeader = [CHR ''P'', CHR ''K'', CHR 0x01, CHR 0x02]"

fun header_size :: "zip_header \<Rightarrow> nat" where
  "header_size LocalHeader = 30"
| "header_size CentralHeader = 46"

fun name_offset :: "zip_header \<Rightarrow> nat" where
  "name_offset LocalHeader = 26"
| "name_offset CentralHeader = 28"

fun extra_offset :: "zip_header \<Rightarrow> nat" where
  "extra_offset LocalHeader = 28"
| "extra_offset CentralHeader = 30"

definition find_from :: "string \<Rightarrow> string \<Rightarrow> nat \<Rightarrow> nat option" where
  "find_from sub s start = find (\<lambda>i. py_startswith sub (drop i s)) [start..<length s]"

definition u16 :: "string \<Rightarrow> nat \<Rightarrow> nat" where
  "u16 s i = char_code (s ! i) + 256 * char_code (s ! (i + 1))"

lemma header_size_pos [simp]: "0 < header_size h"
  by (cases h) simp_all

lemma less_add_header: "start \<le> i \<Longrightarrow> start < i + header_size h + n + m"
  using header_size_pos [of h] by linarith

lemma find_from_Some: "find_from sub s start = Some i \<Longrightarrow> start \<le> i \<and> i < length s"
  by (auto simp: find_from_def find_Some_iff)

text \<open>The result is False when the function has returned, so that no further header kind is scanned.\<close>

function scan_headers :: "zip_header \<Rightarrow> string \<Rightarrow> nat \<Rightarrow> bool result" where
  "scan_headers h content start =
     (case find_from (zip_signature h) content start of
        None \<Rightarrow> Inr True
      | Some cursor \<Rightarrow>
          if length content < cursor + header_size h then Inr False
          else (let name_length = u16 content (cursor + name_offset h);
                    extra_length = u16 content (cursor + extra_offset h);
                    name_start = cursor + header_size h; name_end = name_start + name_length in
                if length content < name_end then Inr False
                else if CHR 0x5C \<in> set (take name_length (drop name_start content))
                then package_error ''backslash ZIP entry path rejected''
                else scan_headers h content (name_end + extra_length)))"
  by pat_completeness auto
termination
  by (relation "measure (\<lambda>(h, content, start). length content - start)")
     (auto dest!: find_from_Some intro!: diff_less_mono2 simp: less_add_header)

declare scan_headers.simps [simp del]

definition reject_raw_backslash_names :: "string \<Rightarrow> unit result" where
  "reject_raw_backslash_names content =
     bindR (scan_headers LocalHeader content 0) (\<lambda>more.
       if more then bindR (scan_headers CentralHeader content 0) (\<lambda>_. Inr ()) else Inr ())"

subsection \<open>Members\<close>

definition drive_prefix :: "string \<Rightarrow> bool" where
  "drive_prefix s \<longleftrightarrow> 2 \<le> length s \<and> char_is_alpha (s ! 0) \<and> s ! 1 = CHR '':''"

definition validate_member_name :: "string \<Rightarrow> bool \<Rightarrow> string list \<Rightarrow> string result" where
  "validate_member_name raw is_dir allowed =
     (if is_dir \<or> py_endswith ''/'' raw then package_error (''directory ZIP entry rejected: '' @ raw)
      else if CHR 0x5C \<in> set raw then package_error (''backslash ZIP entry path rejected: '' @ raw)
      else if py_startswith ''/'' raw \<or> drive_prefix raw
        then package_error (''absolute ZIP entry path rejected: '' @ raw)
      else (let path = mk_path raw in
        if \<exists>p \<in> set (pp_parts path). p \<in> {[], ''.'', ''..''}
          then package_error (''unsafe ZIP entry path rejected: '' @ raw)
        else if py_lower (path_suffix path) \<notin> set allowed
          then package_error (''unsupported ZIP entry extension rejected: '' @ raw)
        else Inr (path_str path)))"

fun collect_members :: "string list \<Rightarrow> zip_info list \<Rightarrow> string list \<Rightarrow> (string \<times> string) list result" where
  "collect_members allowed [] seen = Inr []"
| "collect_members allowed (info # infos) seen =
     bindR (validate_member_name (zi_filename info) (zi_is_dir info) allowed) (\<lambda>name.
       if py_lower name \<in> set seen then package_error (''duplicate ZIP entry path rejected: '' @ name)
       else bindR (zip_result (zi_read info)) (\<lambda>data.
            bindR (collect_members allowed infos (py_lower name # seen)) (\<lambda>rest. Inr ((name, data) # rest))))"

definition safe_members :: "zip_reader \<Rightarrow> string \<Rightarrow> string list \<Rightarrow> (string \<times> string) list result" where
  "safe_members reader content allowed =
     bindR (reject_raw_backslash_names content) (\<lambda>_.
     bindR (zip_result (reader content)) (\<lambda>infos.
     bindR (collect_members allowed infos []) (\<lambda>members. Inr (sort_asc fst members))))"

subsection \<open>Processing\<close>

record ExtractedPackageEntry =
  ee_name :: string
  ee_kind :: string
  ee_sha256 :: string
  ee_size :: nat
  ee_storage_key :: string
  ee_written :: bool

record ProcessedPackage =
  pk_package_id :: string
  pk_sha256 :: string
  pk_size :: nat
  pk_package_storage_key :: string
  pk_package_written :: bool
  pk_entries :: "ExtractedPackageEntry list"

definition safe_key_segment :: "string \<Rightarrow> string result" where
  "safe_key_segment v =
     (let safe = safe_segment_text v in
      if safe = [] then package_error ''package_id cannot be empty'' else Inr safe)"

definition package_stem :: "string \<Rightarrow> string \<Rightarrow> string" where
  "package_stem safe content = safe @ ''-'' @ take 12 (sha256_hex content)"

definition entry_key :: "string \<Rightarrow> string \<Rightarrow> string \<Rightarrow> string" where
  "entry_key safe content name = ''sat-packages/'' @ package_stem safe content @ ''/extracted/'' @ name"

definition package_zip_key :: "string \<Rightarrow> string \<Rightarrow> string" where
  "package_zip_key safe content = ''sat-packages/'' @ package_stem safe content @ ''.zip''"

definition extracted :: "string \<Rightarrow> string \<Rightarrow> (string \<times> string) \<Rightarrow> bool \<Rightarrow> ExtractedPackageEntry" where
  "extracted safe content member written =
     (case member of (name, data) \<Rightarrow>
       \<lparr>ee_name = name,
        ee_kind = py_lower (dropWhile (\<lambda>c. c = CHR ''.'') (path_suffix (mk_path name))),
        ee_sha256 = sha256_hex data, ee_size = length data,
        ee_storage_key = entry_key safe content name, ee_written = written\<rparr>)"

definition package_writes :: "string \<Rightarrow> string \<Rightarrow> (string \<times> string) list \<Rightarrow> (string \<times> string) list" where
  "package_writes safe content members =
     (package_zip_key safe content, content) # map (\<lambda>(name, data). (entry_key safe content name, data)) members"

definition processed :: "string \<Rightarrow> string \<Rightarrow> string \<Rightarrow> (string \<times> string) list \<Rightarrow> bool list \<Rightarrow> ProcessedPackage" where
  "processed package_id safe content members ws =
     \<lparr>pk_package_id = package_id, pk_sha256 = sha256_hex content, pk_size = length content,
      pk_package_storage_key = package_zip_key safe content, pk_package_written = hd ws,
      pk_entries = map2 (extracted safe content) members (tl ws)\<rparr>"

definition process_sat_package ::
  "(string \<Rightarrow> string \<Rightarrow> 's \<Rightarrow> bool result \<times> 's) \<Rightarrow> zip_reader \<Rightarrow> string \<Rightarrow> string \<Rightarrow> string list \<Rightarrow> 's
    \<Rightarrow> ProcessedPackage result \<times> 's" where
  "process_sat_package put reader package_id content allowed s =
     (case bindR (safe_key_segment package_id) (\<lambda>safe.
           bindR (safe_members reader content (if allowed = [] then ALLOWED_EXTENSIONS else allowed)) (\<lambda>ms. Inr (safe, ms))) of
        Inl e \<Rightarrow> (Inl e, s)
      | Inr (safe, members) \<Rightarrow>
          (case put_all put (package_writes safe content members) s of
             (r, s') \<Rightarrow> (bindR r (\<lambda>ws. Inr (processed package_id safe content members ws)), s')))"

subsection \<open>MemoryPackageStorage\<close>

definition memory_put :: "string \<Rightarrow> string \<Rightarrow> (string \<Rightarrow> string option) \<Rightarrow> bool result \<times> (string \<Rightarrow> string option)" where
  "memory_put k c objects =
     (case objects k of
        Some existing \<Rightarrow>
          (if existing \<noteq> c then (Inl (ValueError (''storage collision for '' @ k @ '': existing bytes differ'')), objects)
           else (Inr False, objects))
      | None \<Rightarrow> (Inr True, objects(k \<mapsto> c)))"

interpretation memory_package: evidence_store "\<lambda>objects k. objects k" memory_put "(=)" "\<lambda>_. True"
  by unfold_locales (auto simp: memory_put_def split: option.splits if_splits)

subsection \<open>Facts\<close>

definition safe_member_name :: "string list \<Rightarrow> string \<Rightarrow> bool" where
  "safe_member_name allowed n \<longleftrightarrow>
     path_root n = [] \<and> path_parts n \<noteq> [] \<and> list_all plain_part (path_parts n) \<and> py_join ''/'' (path_parts n) = n
     \<and> py_lower (path_suffix (mk_path n)) \<in> set allowed"

lemma join_not_in: "c \<notin> set sep \<Longrightarrow> \<forall>p \<in> set ps. c \<notin> set p \<Longrightarrow> c \<notin> set (py_join sep ps)"
  using join_chars by fastforce

lemma split_chars: "p \<in> set (split_on_aux d acc s) \<Longrightarrow> c \<in> set p \<Longrightarrow> c \<in> set acc \<or> c \<in> set s"
  by (induction d acc s rule: split_on_aux.induct) (auto split: if_splits)

lemma path_parts_chars: "p \<in> set (path_parts s) \<Longrightarrow> c \<in> set p \<Longrightarrow> c \<in> set s"
  using split_chars [of p "CHR ''/''" "[]" s c] by (auto simp: path_parts_def split_on_def)

lemma valid_member_name:
  assumes "validate_member_name raw is_dir allowed = Inr n" and "[] \<notin> set allowed"
  shows "safe_member_name allowed n" "\<not> is_dir" "CHR 0x5C \<notin> set raw" "\<not> drive_prefix raw" "pp_parts (mk_path n) = path_parts raw"
proof -
  let ?p = "mk_path raw"
  have n: "n = path_str ?p" and nd: "\<not> is_dir" and bs: "CHR 0x5C \<notin> set raw" and ab: "\<not> py_startswith ''/'' raw" "\<not> drive_prefix raw"
    and parts: "\<forall>p \<in> set (pp_parts ?p). p \<noteq> ''..''" and suf: "py_lower (path_suffix ?p) \<in> set allowed"
    using assms(1) by (auto simp: validate_member_name_def Let_def split: if_splits)
  show "\<not> is_dir" "CHR 0x5C \<notin> set raw" "\<not> drive_prefix raw" using nd bs ab by auto
  have mk: "mk_path n = ?p" using n by simp
  have root: "path_root raw = []"
  proof (cases raw)
    case (Cons c cs)
    then show ?thesis using ab(1) by (simp add: path_root_def py_startswith_def)
  qed (simp add: path_root_def py_startswith_def)
  have ne: "pp_parts ?p \<noteq> []"
  proof
    assume "pp_parts ?p = []"
    then have "py_lower (path_suffix ?p) = []" by (simp add: path_suffix_def)
    then show False using suf assms(2) by simp
  qed
  have "path_root n = []" "path_parts n = path_parts raw" using mk root by (simp_all add: mk_path_def)
  moreover have "list_all plain_part (path_parts raw)"
    using path_parts_ok [of _ raw] parts bs path_parts_chars [of _ raw] by (auto simp: list_all_iff plain_part_def mk_path_def)
  moreover have "py_join ''/'' (path_parts raw) = n"
  proof -
    have "hd (path_parts raw) \<noteq> []" using ne path_parts_ok [of "hd (path_parts raw)" raw] by (simp add: mk_path_def)
    from join_hd [OF _ this, of "''/''"] ne have "py_join ''/'' (path_parts raw) \<noteq> []" by (auto simp: mk_path_def)
    then show ?thesis using n root by (simp add: path_str_def mk_path_def str_or_def)
  qed
  ultimately show "safe_member_name allowed n" "pp_parts (mk_path n) = path_parts raw"
    using mk suf ne by (simp_all add: safe_member_name_def mk_path_def)
qed

lemma collect_members_spec:
  "collect_members allowed infos seen = Inr ms \<Longrightarrow>
     list_all2 (\<lambda>info m. validate_member_name (zi_filename info) (zi_is_dir info) allowed = Inr (fst m)
        \<and> zi_read info = Inr (snd m)) infos ms
     \<and> distinct (map (py_lower \<circ> fst) ms) \<and> set (map (py_lower \<circ> fst) ms) \<inter> set seen = {}"
proof (induction infos arbitrary: seen ms)
  case (Cons info infos)
  obtain name data rest where m: "validate_member_name (zi_filename info) (zi_is_dir info) allowed = Inr name"
      "py_lower name \<notin> set seen" "zi_read info = Inr data"
      "collect_members allowed infos (py_lower name # seen) = Inr rest" "ms = (name, data) # rest"
    using Cons.prems by (auto simp: bindR_Inr_conv zip_result_def split: if_splits sum.splits zip_error.splits)
  then show ?case using Cons.IH [OF m(4)] by auto
qed simp

lemma safe_members_spec:
  assumes "safe_members reader content allowed = Inr ms" and "[] \<notin> set allowed"
  obtains infos where "reader content = Inr infos" "sorted (map fst ms)" "distinct (map (py_lower \<circ> fst) ms)"
    "\<forall>m \<in> set ms. safe_member_name allowed (fst m)"
    "set ms = {(n, d). \<exists>info \<in> set infos. validate_member_name (zi_filename info) (zi_is_dir info) allowed = Inr n
        \<and> zi_read info = Inr d}"
    "\<forall>info \<in> set infos. \<not> zi_is_dir info \<and> CHR 0x5C \<notin> set (zi_filename info) \<and> \<not> drive_prefix (zi_filename info)"
    "\<forall>info \<in> set infos. \<exists>m \<in> set ms.
        validate_member_name (zi_filename info) (zi_is_dir info) allowed = Inr (fst m) \<and> zi_read info = Inr (snd m)"
    "length ms = length infos"
proof -
  obtain infos xs where i: "reader content = Inr infos" "collect_members allowed infos [] = Inr xs" "ms = sort_asc fst xs"
    using assms(1) by (auto simp: safe_members_def bindR_Inr_conv zip_result_def split: sum.splits zip_error.splits)
  note c = collect_members_spec [OF i(2)]
  let ?P = "\<lambda>info m. validate_member_name (zi_filename info) (zi_is_dir info) allowed = Inr (fst m) \<and> zi_read info = Inr (snd m)"
  have len: "length infos = length xs" and nth: "\<forall>j < length xs. ?P (infos ! j) (xs ! j)"
    using c by (auto simp: list_all2_conv_all_nth)
  have "\<forall>m \<in> set xs. \<exists>info \<in> set infos. ?P info m" "\<forall>info \<in> set infos. \<exists>m \<in> set xs. ?P info m"
    using len nth by (metis in_set_conv_nth)+
  then have e: "\<forall>info \<in> set infos. \<exists>m \<in> set ms. ?P info m" and s: "set ms = {(n, d). \<exists>info \<in> set infos. validate_member_name (zi_filename info) (zi_is_dir info) allowed = Inr n
        \<and> zi_read info = Inr d}"
      and v: "\<forall>info \<in> set infos. \<exists>n. validate_member_name (zi_filename info) (zi_is_dir info) allowed = Inr n"
    by (simp add: i(3), force simp: i(3), blast)
  show ?thesis
  proof (rule that [OF i(1) _ _ _ s _ e])
    show "sorted (map fst ms)" by (simp add: i(3) sort_asc_def)
    show "distinct (map (py_lower \<circ> fst) ms)" using c by (simp add: i(3))
    show "\<forall>m \<in> set ms. safe_member_name allowed (fst m)" using s valid_member_name(1) [OF _ assms(2)] by auto
    show "\<forall>info \<in> set infos. \<not> zi_is_dir info \<and> CHR 0x5C \<notin> set (zi_filename info) \<and> \<not> drive_prefix (zi_filename info)"
      using v valid_member_name(2-4) [OF _ assms(2)] by blast
    show "length ms = length infos" using len by (simp add: i(3))
  qed
qed

subsection \<open>Where the files of a package go\<close>





subsection \<open>Processing twice\<close>

lemma process_cases:
  assumes "process_sat_package put reader v content allowed s = (Inr p, s')"
  obtains safe ms ws where "safe_key_segment v = Inr safe"
    "safe_members reader content (if allowed = [] then ALLOWED_EXTENSIONS else allowed) = Inr ms"
    "put_all put (package_writes safe content ms) s = (Inr ws, s')" "p = processed v safe content ms ws"
  using assms by (auto simp: process_sat_package_def bindR_Inr_conv split: sum.splits prod.splits)

lemma put_all_length: "put_all put es s = (Inr ws, s') \<Longrightarrow> length ws = length es"
proof (induction es arbitrary: s ws)
  case (Cons e es)
  then show ?case by (cases e) (auto simp: bindR_Inr_conv split: prod.splits sum.splits)
qed simp

lemma processed_again:
  assumes "length ws = Suc (length ms)"
  shows "processed v safe content ms (replicate (Suc (length ms)) False)
    = (processed v safe content ms ws)\<lparr>pk_package_written := False,
        pk_entries := map (\<lambda>e. e\<lparr>ee_written := False\<rparr>) (pk_entries (processed v safe content ms ws))\<rparr>"
proof -
  obtain w vs where ws: "ws = w # vs" "length vs = length ms" using assms by (cases ws) auto
  have "map2 (extracted safe content) ms (replicate (length ms) False)
      = map (\<lambda>e. e\<lparr>ee_written := False\<rparr>) (map2 (extracted safe content) ms vs)"
    by (rule nth_equalityI) (auto simp: extracted_def ws(2) split: prod.splits)
  then show ?thesis by (simp add: processed_def ws(1))
qed

context evidence_store begin

lemma process_facts:
  assumes "ok s" "process_sat_package put reader v content allowed s = (Inr p, s')"
    and "safe_key_segment v = Inr safe"
    and "safe_members reader content (if allowed = [] then ALLOWED_EXTENSIONS else allowed) = Inr ms"
  shows "process_sat_package put reader v content allowed s'
      = (Inr (p\<lparr>pk_package_written := False, pk_entries := map (\<lambda>e. e\<lparr>ee_written := False\<rparr>) (pk_entries p)\<rparr>), s')"
    and "(k, c) \<in> set (package_writes safe content ms) \<Longrightarrow> \<exists>x. stored s' k = Some x \<and> same x c"
    and "stored s j = Some x \<Longrightarrow> stored s' j = Some x"
proof -
  obtain ws where p: "put_all put (package_writes safe content ms) s = (Inr ws, s')" "p = processed v safe content ms ws"
    using assms(2-4) by (auto elim!: process_cases)
  have "length ws = Suc (length ms)" using put_all_length [OF p(1)] by (simp add: package_writes_def)
  then show "process_sat_package put reader v content allowed s'
      = (Inr (p\<lparr>pk_package_written := False, pk_entries := map (\<lambda>e. e\<lparr>ee_written := False\<rparr>) (pk_entries p)\<rparr>), s')"
    using put_all_twice [OF assms(1) p(1)] processed_again [of ws ms v safe content] p(2) assms(3,4)
    by (simp add: process_sat_package_def package_writes_def)
  show "(k, c) \<in> set (package_writes safe content ms) \<Longrightarrow> \<exists>x. stored s' k = Some x \<and> same x c"
    using put_all_stores [OF assms(1) p(1)] .
  show "stored s j = Some x \<Longrightarrow> stored s' j = Some x" using put_all_keeps [OF assms(1) p(1)] .
qed

end

subsection \<open>Properties\<close>

text \<open>C10: the members that are accepted are safe: they are the entries of the archive, each once and
  sorted by name; every name is a normalised relative path without dots, backslashes or empty parts, with
  an allowed extension, and no two names differ only in case; no entry is a directory, and no raw name
  has a backslash or starts with a drive letter.\<close>

theorem accepted_members_are_safe:
  assumes "safe_members reader content allowed = Inr ms" and "[] \<notin> set allowed"
  shows "\<exists>infos. reader content = Inr infos \<and> length ms = length infos
    \<and> sorted (map fst ms) \<and> distinct (map (py_lower \<circ> fst) ms)
    \<and> (\<forall>m \<in> set ms. safe_member_name allowed (fst m))
    \<and> (\<forall>info \<in> set infos. \<not> zi_is_dir info \<and> CHR 0x5C \<notin> set (zi_filename info)
          \<and> \<not> drive_prefix (zi_filename info)
          \<and> (\<exists>m \<in> set ms. path_parts (fst m) = path_parts (zi_filename info) \<and> zi_read info = Inr (snd m)))"
proof -
  obtain infos where i: "reader content = Inr infos" "sorted (map fst ms)" "distinct (map (py_lower \<circ> fst) ms)"
    "\<forall>m \<in> set ms. safe_member_name allowed (fst m)"
    "\<forall>info \<in> set infos. \<not> zi_is_dir info \<and> CHR 0x5C \<notin> set (zi_filename info) \<and> \<not> drive_prefix (zi_filename info)"
    "\<forall>info \<in> set infos. \<exists>m \<in> set ms.
        validate_member_name (zi_filename info) (zi_is_dir info) allowed = Inr (fst m) \<and> zi_read info = Inr (snd m)"
    "length ms = length infos"
    using assms by (rule safe_members_spec)
  have "\<exists>m \<in> set ms. path_parts (fst m) = path_parts (zi_filename info) \<and> zi_read info = Inr (snd m)"
    if info: "info \<in> set infos" for info
  proof -
    obtain m where m: "m \<in> set ms" "validate_member_name (zi_filename info) (zi_is_dir info) allowed = Inr (fst m)"
      "zi_read info = Inr (snd m)"
      using bspec [OF i(6) info] by blast
    have "path_parts (fst m) = path_parts (zi_filename info)"
      using valid_member_name(5) [OF m(2) assms(2)] by (simp add: mk_path_def)
    with m(1,3) show ?thesis by metis
  qed
  then show ?thesis using i(1-5,7) by (intro exI [of _ infos]) simp
qed

definition example_reader :: zip_reader where
  "example_reader content =
     Inr [\<lparr>zi_filename = ''d/./b.XML'', zi_is_dir = False, zi_read = Inr ''2''\<rparr>,
          \<lparr>zi_filename = ''a.txt'', zi_is_dir = False, zi_read = Inr ''1''\<rparr>]"

lemma example_members: "safe_members example_reader ''PK'' ALLOWED_EXTENSIONS = Inr [(''a.txt'', ''1''), (''d/b.XML'', ''2'')]"
proof -
  have "scan_headers h ''PK'' 0 = Inr True" for h
    by (cases h) (simp_all add: scan_headers.simps find_from_def py_startswith_def)
  moreover have "collect_members ALLOWED_EXTENSIONS (projr (example_reader ''PK'')) [] = Inr [(''d/b.XML'', ''2''), (''a.txt'', ''1'')]"
    by code_simp
  moreover have "sort_asc fst [(''d/b.XML'', ''2''), (''a.txt'', ''1'')] = [(''a.txt'', ''1''), (''d/b.XML'', ''2'')]" by code_simp
  ultimately show ?thesis
    by (simp add: safe_members_def reject_raw_backslash_names_def zip_result_def example_reader_def)
qed

lemma allowed_nonempty: "[] \<notin> set ALLOWED_EXTENSIONS"
  by (simp add: ALLOWED_EXTENSIONS_def)

theorem accepted_members_are_safe_witness:
  "\<exists>infos. example_reader ''PK'' = Inr infos \<and> length infos = 2
    \<and> safe_member_name ALLOWED_EXTENSIONS ''d/b.XML''"
  using accepted_members_are_safe [OF example_members allowed_nonempty] by auto




text \<open>A drive prefix is looked for in the raw name only: a leading dot part hides it, and the
  accepted name starts with the drive letter.\<close>

theorem drive_prefix_after_dot:
  "validate_member_name ''./C:x.xml'' False ALLOWED_EXTENSIONS = Inr ''C:x.xml''
   \<and> validate_member_name ''C:x.xml'' False ALLOWED_EXTENSIONS \<noteq> Inr n"
proof -
  have "validate_member_name ''./C:x.xml'' False ALLOWED_EXTENSIONS = Inr ''C:x.xml''" "drive_prefix ''C:x.xml''"
    "CHR 0x5C \<notin> set ''C:x.xml''" "\<not> py_endswith ''/'' ''C:x.xml''" by code_simp+
  then show ?thesis by (simp add: validate_member_name_def)
qed

definition central_record :: string where
  "central_record = zip_signature CentralHeader @ replicate 24 (CHR 0x00) @ [CHR 0x03, CHR 0x00] @ replicate 16 (CHR 0x00)
     @ [CHR ''a'', CHR 0x5C, CHR ''b'']"

text \<open>The scan for backslashes stops at a local header that is cut off by the end of the bytes: four
  bytes appended to an archive that is rejected make the scan pass, because the central directory is
  then never looked at.\<close>

theorem cut_header_ends_the_scan:
  "reject_raw_backslash_names central_record = Inl (PackageProcessingError ''backslash ZIP entry path rejected'')
   \<and> reject_raw_backslash_names (central_record @ zip_signature LocalHeader) = Inr ()"
proof -
  have f: "find_from (zip_signature LocalHeader) central_record 0 = None"
    "find_from (zip_signature CentralHeader) central_record 0 = Some 0"
    "find_from (zip_signature LocalHeader) (central_record @ zip_signature LocalHeader) 0 = Some 49"
    "u16 central_record 28 = 3" "u16 central_record 30 = 0" "length central_record = 49"
    "CHR 0x5C \<in> set (take 3 (drop 46 central_record))" by code_simp+
  then have "scan_headers LocalHeader central_record 0 = Inr True"
    "scan_headers CentralHeader central_record 0 = Inl (PackageProcessingError ''backslash ZIP entry path rejected'')"
    "scan_headers LocalHeader (central_record @ zip_signature LocalHeader) 0 = Inr False"
    by (subst scan_headers.simps, simp)+
  then show ?thesis by (simp add: reject_raw_backslash_names_def)
qed

end
