(* ===== verification/PyXml.thy ===== *)
theory PyXml
  imports PyBase
begin

text \<open>
  XML elements as \<open>xml.etree.ElementTree\<close> presents them: a tag (with its namespace in braces), the
  attributes, the text before the first child and the children. Reading bytes into an element is a
  parameter of the parsers. \<open>xml_iter\<close> is \<open>element.iter()\<close>: the element and its descendants in
  document order; \<open>local_name\<close> is what stands after the last closing brace. Base64 is \<open>b64decode\<close>
  with \<open>validate=True\<close>, and its encoding.
\<close>

subsection \<open>Elements\<close>

datatype xml = Xml (x_tag: string) (x_attrs: "(string \<times> string) list") (x_text: "string option") (x_children: "xml list")

fun xml_iter :: "xml \<Rightarrow> xml list" where
  "xml_iter (Xml t a x cs) = Xml t a x cs # concat (map xml_iter cs)"

definition local_name :: "string \<Rightarrow> string" where
  "local_name tag = rev (takeWhile (\<lambda>c. c \<noteq> CHR ''}'') (rev tag))"

definition x_attr :: "xml \<Rightarrow> string \<Rightarrow> string option" where
  "x_attr e k = map_of (x_attrs e) k"

definition x_local :: "xml \<Rightarrow> string" where
  "x_local e = local_name (x_tag e)"

fun strip_namespaces :: "xml \<Rightarrow> xml" where
  "strip_namespaces (Xml t a x cs) = Xml (local_name t) a x (map strip_namespaces cs)"

lemma iter_self: "e \<in> set (xml_iter e)"
  by (cases e) simp

lemma local_name_idem [simp]: "local_name (local_name t) = local_name t"
proof -
  have "CHR ''}'' \<notin> set (takeWhile (\<lambda>c. c \<noteq> CHR ''}'') (rev t))" by (auto dest: set_takeWhileD)
  then have "takeWhile (\<lambda>c. c \<noteq> CHR ''}'') (takeWhile (\<lambda>c. c \<noteq> CHR ''}'') (rev t)) = takeWhile (\<lambda>c. c \<noteq> CHR ''}'') (rev t)"
    by (auto simp: takeWhile_eq_all_conv)
  then show ?thesis by (simp add: local_name_def)
qed

lemma x_local_strip [simp]: "x_local (strip_namespaces e) = x_local e"
  by (cases e) (simp add: x_local_def)

lemma x_attr_strip [simp]: "x_attr (strip_namespaces e) k = x_attr e k"
  by (cases e) (simp add: x_attr_def)

lemma x_children_strip [simp]: "x_children (strip_namespaces e) = map strip_namespaces (x_children e)"
  by (cases e) simp

lemma xml_iter_strip: "xml_iter (strip_namespaces e) = map strip_namespaces (xml_iter e)"
proof (induction e)
  case (Xml t a x cs)
  then have "map (xml_iter \<circ> strip_namespaces) cs = map (map strip_namespaces \<circ> xml_iter) cs" by simp
  then show ?case by (simp add: map_concat del: map_eq_conv)
qed

lemma find_map_strip: "find P (map f xs) = map_option f (find (P \<circ> f) xs)"
  by (induction xs) auto

subsection \<open>Base64\<close>

definition b64_value :: "char \<Rightarrow> nat option" where
  "b64_value c =
     (if char_is_upper c then Some (char_code c - 65)
      else if char_is_lower c then Some (char_code c - 71)
      else if char_is_digit c then Some (char_code c + 4)
      else if c = CHR ''+'' then Some 62
      else if c = CHR ''/'' then Some 63 else None)"

fun b64_decode :: "string \<Rightarrow> string option" where
  "b64_decode [] = Some []"
| "b64_decode (a # b # c # d # rest) =
     (case (b64_value a, b64_value b) of
        (Some x, Some y) \<Rightarrow>
          (if c = CHR ''='' \<and> d = CHR ''='' \<and> rest = []
           then Some [char_of (x * 4 + y div 16)]
           else case b64_value c of
             None \<Rightarrow> None
           | Some z \<Rightarrow>
              (if d = CHR ''='' \<and> rest = []
               then Some [char_of (x * 4 + y div 16), char_of (y mod 16 * 16 + z div 4)]
               else case b64_value d of
                 None \<Rightarrow> None
               | Some w \<Rightarrow> map_option (\<lambda>bs. char_of (x * 4 + y div 16) # char_of (y mod 16 * 16 + z div 4)
                   # char_of (z mod 4 * 64 + w) # bs) (b64_decode rest)))
      | _ \<Rightarrow> None)"
| "b64_decode _ = None"

definition b64_symbol :: "nat \<Rightarrow> char" where
  "b64_symbol n =
     (if n < 26 then char_of (n + 65) else if n < 52 then char_of (n + 71)
      else if n < 62 then char_of (n - 4) else if n = 62 then CHR ''+'' else CHR ''/'')"

fun b64_encode :: "string \<Rightarrow> string" where
  "b64_encode [] = []"
| "b64_encode [a] = [b64_symbol (char_code a div 4), b64_symbol (char_code a mod 4 * 16), CHR ''='', CHR ''='']"
| "b64_encode [a, b] =
     [b64_symbol (char_code a div 4), b64_symbol (char_code a mod 4 * 16 + char_code b div 16),
      b64_symbol (char_code b mod 16 * 4), CHR ''='']"
| "b64_encode (a # b # c # rest) =
     b64_symbol (char_code a div 4) # b64_symbol (char_code a mod 4 * 16 + char_code b div 16)
     # b64_symbol (char_code b mod 16 * 4 + char_code c div 64) # b64_symbol (char_code c mod 64) # b64_encode rest"

lemma b64_value_char:
  assumes "n < 64"
  shows "b64_value (b64_symbol n) = Some n" "b64_symbol n \<noteq> CHR ''=''" "\<not> char_is_space (b64_symbol n)"
proof -
  have code: "char_code (b64_symbol n) =
      (if n < 26 then n + 65 else if n < 52 then n + 71 else if n < 62 then n - 4 else if n = 62 then 43 else 47)"
    using assms by (auto simp: b64_symbol_def char_code_char_of) (simp_all add: char_code_def)
  have eq: "x = c \<longleftrightarrow> char_code x = char_code c" for x c by (auto simp: char_code_def)
  have lits: "char_code (CHR ''='') = 61" "char_code (CHR ''+'') = 43" "char_code (CHR ''/'') = 47"
    by (simp_all add: char_code_def)
  show "b64_value (b64_symbol n) = Some n"
    unfolding b64_value_def char_is_upper_def char_is_lower_def char_is_digit_def eq code lits using assms by auto
  show "b64_symbol n \<noteq> CHR ''=''" unfolding eq code lits by auto
  show "\<not> char_is_space (b64_symbol n)"
    unfolding char_is_space_def code by auto
qed

lemma char_of_code [simp]: "char_of (char_code c) = c"
  by (simp add: char_code_def)

lemma b64_pieces:
  "char_code a div 4 < 64 \<and> char_code a mod 4 * 16 + char_code b div 16 < 64
   \<and> char_code b mod 16 * 4 + char_code c div 64 < 64 \<and> char_code c mod 64 < 64
   \<and> char_code a mod 4 * 16 < 64 \<and> char_code b mod 16 * 4 < 64
   \<and> char_code a div 4 * 4 + (char_code a mod 4 * 16 + char_code b div 16) div 16 = char_code a
   \<and> (char_code a mod 4 * 16 + char_code b div 16) mod 16 * 16 + (char_code b mod 16 * 4 + char_code c div 64) div 4 = char_code b
   \<and> (char_code b mod 16 * 4 + char_code c div 64) mod 4 * 64 + char_code c mod 64 = char_code c"
proof -
  have "char_code a < 256" "char_code b < 256" "char_code c < 256" by simp_all
  then have d: "char_code a div 4 < 64" "char_code b div 16 < 16" "char_code c div 64 < 4"
    by (simp_all add: less_mult_imp_div_less)
  have m: "char_code a mod 4 < 4" "char_code b mod 16 < 16" "char_code c mod 64 < 64" by simp_all
  have e: "char_code a div 4 * 4 + char_code a mod 4 = char_code a" "char_code b div 16 * 16 + char_code b mod 16 = char_code b"
    "char_code c div 64 * 64 + char_code c mod 64 = char_code c" by (simp_all add: div_mult_mod_eq)
  have q: "(char_code a mod 4 * 16 + char_code b div 16) div 16 = char_code a mod 4"
    "(char_code a mod 4 * 16 + char_code b div 16) mod 16 = char_code b div 16"
    "(char_code b mod 16 * 4 + char_code c div 64) div 4 = char_code b mod 16"
    "(char_code b mod 16 * 4 + char_code c div 64) mod 4 = char_code c div 64" using d by simp_all
  show ?thesis unfolding q using d m e by (intro conjI; linarith)
qed

lemma b64_roundtrip: "b64_decode (b64_encode s) = Some s"
proof (induction s rule: b64_encode.induct)
  case (2 a)
  have "char_code (CHR 0x00) = 0" by (simp add: char_code_def)
  then show ?case using b64_pieces [of a "CHR 0x00" "CHR 0x00"] b64_value_char by simp
next
  case (3 a b)
  have "char_code (CHR 0x00) = 0" by (simp add: char_code_def)
  then show ?case using b64_pieces [of a b "CHR 0x00"] b64_value_char by simp
next
  case (4 a b c rest)
  then show ?case using b64_pieces [of a b c] b64_value_char by simp
qed simp

end
