(* ===== verification/Cfdi.thy ===== *)
theory Cfdi
  imports PyXml PyDecimal
begin

text \<open>
  \<open>src/cfdi_vault/parser.py\<close> and \<open>src/cfdi_vault/cfdi_parser.py\<close>: the common fields of a CFDI, its version
  and its complements. \<open>read_xml\<close> is \<open>ET.fromstring\<close>: bytes to an element, or \<open>None\<close> for a ParseError.
\<close>

type_synonym xml_reader = "string \<Rightarrow> xml option"

subsection \<open>parser.py\<close>

record ParsedCfdi =
  cf_uuid :: string
  cf_issuer_rfc :: string
  cf_issuer_name :: string
  cf_receiver_rfc :: string
  cf_receiver_name :: string
  cf_issue_date :: pydt
  cf_subtotal :: decimal
  cf_total :: decimal
  cf_currency :: string
  cf_comprobante_type :: string
  cf_payment_method :: "string option"
  cf_payment_form :: "string option"

abbreviation cfdi_error :: "string \<Rightarrow> 'a result" where
  "cfdi_error m \<equiv> Inl (CfdiParseError m)"

definition reject_doctype :: "string \<Rightarrow> unit result" where
  "reject_doctype xml_bytes =
     (if py_contains ''<!DOCTYPE'' (py_upper (take 512 xml_bytes))
      then cfdi_error ''DOCTYPE declarations are not supported'' else Inr ())"

definition find_direct_child :: "xml \<Rightarrow> string \<Rightarrow> xml option" where
  "find_direct_child e name = find (\<lambda>c. x_local c = name) (x_children e)"

definition find_descendant :: "xml \<Rightarrow> string \<Rightarrow> xml option" where
  "find_descendant e name = find (\<lambda>c. x_local c = name) (xml_iter e)"

definition required_attr :: "xml \<Rightarrow> string \<Rightarrow> string \<Rightarrow> string result" where
  "required_attr e attr element_name =
     (case x_attr e attr of
        None \<Rightarrow> cfdi_error (''Missing '' @ attr @ '' attribute on '' @ element_name)
      | Some v \<Rightarrow> if v = [] then cfdi_error (''Missing '' @ attr @ '' attribute on '' @ element_name) else Inr v)"

definition parse_issue_date :: "string \<Rightarrow> pydt result" where
  "parse_issue_date v =
     (case fromisoformat (replace_char (CHR ''Z'') ''+00:00'' v) of
        Some d \<Rightarrow> Inr d | None \<Rightarrow> cfdi_error (''Invalid CFDI Fecha value: '' @ v))"

definition parse_decimal :: "string \<Rightarrow> string \<Rightarrow> decimal result" where
  "parse_decimal v field_name =
     (case decimal_of v of
        Some d \<Rightarrow> Inr d
      | None \<Rightarrow> cfdi_error (''Invalid decimal value for '' @ field_name @ '': '' @ v))"

definition required_part :: "xml option \<Rightarrow> string \<Rightarrow> xml result" where
  "required_part e m = (case e of None \<Rightarrow> cfdi_error m | Some x \<Rightarrow> Inr x)"

definition parse_root :: "xml \<Rightarrow> ParsedCfdi result" where
  "parse_root root =
     (if x_local root \<noteq> ''Comprobante'' then cfdi_error ''Expected CFDI Comprobante root element''
      else
        bindR (required_part (find_direct_child root ''Emisor'') ''Missing CFDI Emisor element'') (\<lambda>issuer.
        bindR (required_part (find_direct_child root ''Receptor'') ''Missing CFDI Receptor element'') (\<lambda>receiver.
        bindR (required_part (find_descendant root ''TimbreFiscalDigital'') ''Missing TimbreFiscalDigital complement'') (\<lambda>stamp.
        bindR (required_attr stamp ''UUID'' ''TimbreFiscalDigital'') (\<lambda>uuid.
        bindR (required_attr root ''Fecha'' ''Comprobante'') (\<lambda>fecha. bindR (parse_issue_date fecha) (\<lambda>issue_date.
        bindR (required_attr issuer ''Rfc'' ''Emisor'') (\<lambda>irfc. bindR (required_attr issuer ''Nombre'' ''Emisor'') (\<lambda>iname.
        bindR (required_attr receiver ''Rfc'' ''Receptor'') (\<lambda>rrfc. bindR (required_attr receiver ''Nombre'' ''Receptor'') (\<lambda>rname.
        bindR (required_attr root ''SubTotal'' ''Comprobante'') (\<lambda>st. bindR (parse_decimal st ''SubTotal'') (\<lambda>subtotal.
        bindR (required_attr root ''Total'' ''Comprobante'') (\<lambda>tt. bindR (parse_decimal tt ''Total'') (\<lambda>total_amount.
        bindR (required_attr root ''Moneda'' ''Comprobante'') (\<lambda>currency.
        bindR (required_attr root ''TipoDeComprobante'' ''Comprobante'') (\<lambda>kind.
          Inr \<lparr>cf_uuid = uuid, cf_issuer_rfc = irfc, cf_issuer_name = iname, cf_receiver_rfc = rrfc,
            cf_receiver_name = rname, cf_issue_date = issue_date, cf_subtotal = subtotal, cf_total = total_amount,
            cf_currency = currency, cf_comprobante_type = kind, cf_payment_method = x_attr root ''MetodoPago'',
            cf_payment_form = x_attr root ''FormaPago''\<rparr>)))))))))))))))))"

definition parse_cfdi_xml :: "xml_reader \<Rightarrow> string \<Rightarrow> ParsedCfdi result" where
  "parse_cfdi_xml read_xml xml_bytes =
     bindR (reject_doctype xml_bytes) (\<lambda>_.
     case read_xml xml_bytes of None \<Rightarrow> cfdi_error ''Invalid XML'' | Some root \<Rightarrow> parse_root root)"

subsection \<open>cfdi_parser.py\<close>

text \<open>A ParseError of the detector is not turned into a CfdiParseError.\<close>

definition xml_parse_error :: exc where
  "xml_parse_error = ValueError ''ParseError''"

definition version_of :: "xml \<Rightarrow> string" where
  "version_of root =
     str_or (opt_str (x_attr root ''Version'')) (str_or (opt_str (x_attr root ''version'')) ''unknown'')"

definition detect :: "xml_reader \<Rightarrow> string \<Rightarrow> string result" where
  "detect read_xml xml_bytes =
     (case read_xml xml_bytes of None \<Rightarrow> Inl xml_parse_error | Some root \<Rightarrow> Inr (version_of root))"

fun complement_names :: "bool \<Rightarrow> xml list \<Rightarrow> string list" where
  "complement_names seen [] = []"
| "complement_names seen (e # es) =
     (if x_local e = ''Complemento'' then complement_names True es
      else if seen \<and> x_local e \<noteq> ''TimbreFiscalDigital'' then x_local e # complement_names seen es
      else complement_names seen es)"

text \<open>\<open>tuple(dict.fromkeys(names))\<close>\<close>

definition first_occurrences :: "'a list \<Rightarrow> 'a list" where
  "first_occurrences xs = rev (remdups (rev xs))"

definition complements :: "xml_reader \<Rightarrow> string \<Rightarrow> string list result" where
  "complements read_xml xml_bytes =
     (case read_xml xml_bytes of
        None \<Rightarrow> Inl xml_parse_error
      | Some root \<Rightarrow> Inr (first_occurrences (complement_names False (xml_iter root))))"

record VersionedParsedCfdi =
  vp_parsed :: ParsedCfdi
  vp_version :: string
  vp_complements :: "string list"
  vp_parser_status :: string

text \<open>A parser is its tuple \<open>supported_versions\<close>.\<close>

definition common_parse :: "string list \<Rightarrow> xml_reader \<Rightarrow> string \<Rightarrow> VersionedParsedCfdi result" where
  "common_parse supported read_xml xml_bytes =
     bindR (detect read_xml xml_bytes) (\<lambda>version.
     bindR (parse_cfdi_xml read_xml xml_bytes) (\<lambda>parsed.
     bindR (complements read_xml xml_bytes) (\<lambda>cs.
       Inr \<lparr>vp_parsed = parsed, vp_version = version, vp_complements = cs,
         vp_parser_status = (if supported = [] \<or> version \<in> set supported then ''complete'' else ''partial'')\<rparr>)))"

definition parser_for_version :: "string \<Rightarrow> string list" where
  "parser_for_version version =
     (if version \<in> {''3.2'', ''3.3'', ''4.0''} then [version] else [])"

definition register_parser :: "string \<Rightarrow> 'p \<Rightarrow> (string \<times> 'p) list \<Rightarrow> (string \<times> 'p) list" where
  "register_parser name p ps = (py_lower name, p) # filter (\<lambda>kv. fst kv \<noteq> py_lower name) ps"

definition get_parser :: "string \<Rightarrow> (string \<times> 'p) list \<Rightarrow> 'p option" where
  "get_parser name ps = map_of ps (py_lower name)"

definition known_parsers :: "(string \<times> 'p) list \<Rightarrow> string list" where
  "known_parsers ps = sort (map fst ps)"

subsection \<open>Properties\<close>





text \<open>Prefixes and namespaces of the document do not matter.\<close>

lemma find_descendant_strip:
  "find_descendant (strip_namespaces e) n = map_option strip_namespaces (find_descendant e n)"
  "find_direct_child (strip_namespaces e) n = map_option strip_namespaces (find_direct_child e n)"
  by (simp_all add: find_descendant_def find_direct_child_def xml_iter_strip find_map_strip comp_def)

lemma required_attr_strip [simp]: "required_attr (strip_namespaces e) = required_attr e"
  by (simp add: required_attr_def fun_eq_iff)

lemma required_part_map:
  "bindR (required_part (map_option f e) m) k = bindR (required_part e m) (\<lambda>x. k (f x))"
  by (cases e) (simp_all add: required_part_def)

lemma parse_root_strip: "parse_root (strip_namespaces root) = parse_root root"
  by (simp add: parse_root_def find_descendant_strip required_part_map)

lemma complement_names_strip: "complement_names b (map strip_namespaces es) = complement_names b es"
  by (induction b es rule: complement_names.induct) auto


definition example_cfdi :: xml where
  "example_cfdi =
     Xml ''{http://x/4}Comprobante''
       [(''Version'', ''4.0''), (''Fecha'', ''2024-01-02T03:04:05''), (''SubTotal'', ''1.50''), (''Total'', ''2''),
        (''Moneda'', ''MXN''), (''TipoDeComprobante'', ''I'')] None
       [Xml ''{http://x/4}Emisor'' [(''Rfc'', ''E''), (''Nombre'', ''e'')] None [],
        Xml ''{http://x/4}Receptor'' [(''Rfc'', ''R''), (''Nombre'', ''r'')] None [],
        Xml ''{http://x/4}Complemento'' [] None [Xml ''{t}TimbreFiscalDigital'' [(''UUID'', ''U'')] None [], Xml ''{p}Pagos'' [] None []],
        Xml ''{http://x/4}Addenda'' [] None [Xml ''Note'' [] None []]]"



text \<open>C32: the parser sees local names only: a document and the same document without namespaces give the
  same result, errors included.\<close>

theorem parse_is_namespace_tolerant:
  "common_parse supported (\<lambda>b. map_option strip_namespaces (read_xml b)) xml_bytes
     = common_parse supported read_xml xml_bytes"
proof -
  have "detect (\<lambda>b. map_option strip_namespaces (read_xml b)) xml_bytes = detect read_xml xml_bytes"
    by (simp add: detect_def version_of_def split: option.split)
  moreover have "parse_cfdi_xml (\<lambda>b. map_option strip_namespaces (read_xml b)) xml_bytes = parse_cfdi_xml read_xml xml_bytes"
    by (simp add: parse_cfdi_xml_def parse_root_strip option.case_eq_if option.map_sel)
  moreover have "complements (\<lambda>b. map_option strip_namespaces (read_xml b)) xml_bytes = complements read_xml xml_bytes"
    by (simp add: complements_def xml_iter_strip complement_names_strip split: option.split)
  ultimately show ?thesis by (simp add: common_parse_def)
qed

text \<open>The versioned parser reads the bytes before the DOCTYPE check: a document with a DOCTYPE that the
  reader refuses ends in the reader's ParseError, where \<open>parse_cfdi_xml\<close> rejects it unread.\<close>

lemma versioned_parser_reads_doctype:
  "common_parse supported (\<lambda>_. None) ''<!DOCTYPE x>'' = Inl xml_parse_error
   \<and> parse_cfdi_xml read_xml ''<!DOCTYPE x>'' = Inl (CfdiParseError ''DOCTYPE declarations are not supported'')"
proof -
  have "py_contains ''<!DOCTYPE'' (py_upper (take 512 ''<!DOCTYPE x>''))" by code_simp
  then show ?thesis by (simp add: common_parse_def detect_def parse_cfdi_xml_def reject_doctype_def)
qed

text \<open>Everything after the first Complemento is reported as a complement, the addenda included.\<close>

lemma addenda_reported_as_complements:
  "complements (\<lambda>_. Some example_cfdi) b = Inr [''Pagos'', ''Addenda'', ''Note'']"
proof -
  have "first_occurrences (complement_names False (xml_iter example_cfdi)) = [''Pagos'', ''Addenda'', ''Note'']" by code_simp
  then show ?thesis by (simp add: complements_def)
qed

end
