(* ===== verification/SatSoapParse.thy ===== *)
theory SatSoapParse
  imports PyXml SatContract
begin

text \<open>
  \<open>src/cfdi_vault/sat_soap_parse.py\<close>: the SOAP responses of the SAT, from elements to the results of
  SatContract. As in Cfdi, \<open>read_xml\<close> is \<open>ET.fromstring\<close>. Names are compared by their letters and digits
  in lower case, after the namespace is dropped. \<open>raw_response\<close> is left out.
\<close>

type_synonym soap_reader = "string \<Rightarrow> xml option"

abbreviation soap_error :: "string \<Rightarrow> 'a result" where
  "soap_error m \<equiv> Inl (SatSoapParseError m)"

subsection \<open>Looking up values\<close>

definition soap_norm :: "string \<Rightarrow> string" where
  "soap_norm v = filter char_is_alnum (py_lower v)"

definition direct_text :: "xml \<Rightarrow> string option" where
  "direct_text e = (case x_text e of None \<Rightarrow> None | Some t \<Rightarrow> if py_strip t = [] then None else Some (py_strip t))"

definition soap_targets :: "string list \<Rightarrow> xml \<Rightarrow> bool" where
  "soap_targets names e \<longleftrightarrow> soap_norm (x_local e) \<in> set (map soap_norm names)"

definition soap_first :: "xml \<Rightarrow> string list \<Rightarrow> xml option" where
  "soap_first e names = find (soap_targets names) (xml_iter e)"

definition value_at :: "string list \<Rightarrow> xml \<Rightarrow> string option" where
  "value_at names e =
     (case find (\<lambda>(k, v). soap_norm (local_name k) \<in> set (map soap_norm names) \<and> py_strip v \<noteq> []) (x_attrs e) of
        Some (k, v) \<Rightarrow> Some (py_strip v)
      | None \<Rightarrow> if soap_targets names e then direct_text e else None)"

fun first_value :: "string list \<Rightarrow> xml list \<Rightarrow> string option" where
  "first_value names [] = None"
| "first_value names (e # es) = (case value_at names e of Some v \<Rightarrow> Some v | None \<Rightarrow> first_value names es)"

definition soap_value :: "xml \<Rightarrow> string list \<Rightarrow> string option" where
  "soap_value e names = first_value names (xml_iter e)"

definition soap_texts :: "xml \<Rightarrow> string list \<Rightarrow> string list" where
  "soap_texts e names = List.map_filter (\<lambda>c. if soap_targets names c then direct_text c else None) (xml_iter e)"

definition soap_required_element :: "xml \<Rightarrow> string \<Rightarrow> string list \<Rightarrow> xml result" where
  "soap_required_element e label names =
     (case soap_first e names of None \<Rightarrow> soap_error (label @ '' is required in SOAP response'') | Some x \<Rightarrow> Inr x)"

definition soap_required_value :: "xml \<Rightarrow> string \<Rightarrow> string list \<Rightarrow> string result" where
  "soap_required_value e field_name names =
     (case soap_value e names of None \<Rightarrow> soap_error (field_name @ '' is required in SOAP response'') | Some v \<Rightarrow> Inr v)"

definition fault_message :: "xml \<Rightarrow> string" where
  "fault_message e = (case soap_value e [''Text'', ''Reason'', ''faultstring''] of None \<Rightarrow> ''SAT SOAP fault'' | Some v \<Rightarrow> v)"

definition response_root :: "soap_reader \<Rightarrow> string \<Rightarrow> xml result" where
  "response_root read_xml b =
     (case read_xml b of
        None \<Rightarrow> soap_error ''invalid SOAP XML''
      | Some root \<Rightarrow>
          (case soap_first root [''Fault''] of
             Some f \<Rightarrow> soap_error (''SOAP fault: '' @ fault_message f)
           | None \<Rightarrow> Inr root))"

definition soap_datetime :: "string \<Rightarrow> pydt result" where
  "soap_datetime v =
     (case fromisoformat (replace_char (CHR ''Z'') ''+00:00'' v) of
        Some d \<Rightarrow> Inr d | None \<Rightarrow> soap_error ''invalid authentication expiration datetime'')"

definition state_aliases :: "(string \<times> SatRequestState) list" where
  "state_aliases =
     [(''1'', RS_ACCEPTED), (''aceptada'', RS_ACCEPTED), (''accepted'', RS_ACCEPTED),
      (''2'', RS_IN_PROCESS), (''enproceso'', RS_IN_PROCESS), (''inprocess'', RS_IN_PROCESS), (''in_process'', RS_IN_PROCESS),
      (''3'', RS_FINISHED), (''terminada'', RS_FINISHED), (''finished'', RS_FINISHED),
      (''4'', RS_ERROR), (''error'', RS_ERROR),
      (''5'', RS_REJECTED), (''rechazada'', RS_REJECTED), (''rejected'', RS_REJECTED),
      (''6'', RS_EXPIRED), (''vencida'', RS_EXPIRED), (''expired'', RS_EXPIRED)]"

definition parse_soap_state :: "string \<Rightarrow> SatRequestState result" where
  "parse_soap_state v =
     (case map_of state_aliases (soap_norm v) of
        Some s \<Rightarrow> Inr s
      | None \<Rightarrow> (case SatRequestState_of v of Inr s \<Rightarrow> Inr s | Inl _ \<Rightarrow> soap_error (''unknown SAT request state: '' @ v)))"

definition decode_package :: "string \<Rightarrow> string result" where
  "decode_package v =
     (case b64_decode (concat (py_split v)) of
        Some c \<Rightarrow> Inr c | None \<Rightarrow> soap_error ''invalid base64 package content'')"

subsection \<open>The four responses\<close>

definition auth_result_names :: "string list" where
  "auth_result_names = [''AutenticaResult'', ''AuthenticateResult'', ''AuthenticationResult'']"

definition parse_authentication_response :: "soap_reader \<Rightarrow> string \<Rightarrow> SatAuthResult result" where
  "parse_authentication_response read_xml b =
     bindR (response_root read_xml b) (\<lambda>root.
     bindR (soap_required_element root ''authentication result'' auth_result_names) (\<lambda>res.
       let auth = (case soap_value res [''Authorization'', ''Autorizacion'', ''Token'', ''AuthenticationToken''] of
                     Some v \<Rightarrow> Some v | None \<Rightarrow> direct_text res) in
       case auth of
         None \<Rightarrow> soap_error ''authorization is required in authentication response''
       | Some a \<Rightarrow>
           bindR (case soap_value res [''ExpiresAt'', ''Expiration'', ''Vigencia'', ''ValidTo''] of
                    None \<Rightarrow> Inr None | Some v \<Rightarrow> bindR (soap_datetime v) (\<lambda>d. Inr (Some d))) (\<lambda>expires.
             Inr \<lparr>ar_authorization = a, ar_expires_at = expires\<rparr>)))"

definition code_names :: "string list" where
  "code_names = [''CodEstatus'', ''CodigoEstatus'', ''StatusCode'']"
definition message_names :: "string list" where
  "message_names = [''Mensaje'', ''Message'', ''StatusMessage'']"
definition request_id_names :: "string list" where
  "request_id_names = [''IdSolicitud'', ''RequestId'', ''SolicitudId'']"
definition request_result_names :: "string list" where
  "request_result_names =
     [''SolicitaDescargaResult'', ''SolicitaDescargaEmitidosResult'', ''SolicitaDescargaRecibidosResult'',
      ''SolicitaDescargaFolioResult'', ''RequestDownloadResult'']"

definition parse_download_request_response :: "soap_reader \<Rightarrow> string \<Rightarrow> SatRequestResult result" where
  "parse_download_request_response read_xml b =
     bindR (response_root read_xml b) (\<lambda>root.
     bindR (soap_required_element root ''download request result'' request_result_names) (\<lambda>res.
     bindR (soap_required_value res ''sat_code'' code_names) (\<lambda>code.
       let message = opt_str (soap_value res message_names);
           request_id = opt_str (soap_value res request_id_names);
           c = classify_sat_outcome OP_REQUEST (Some (CodeText code)) None in
       if oc_action c = ACT_ACCEPTED \<and> request_id = []
       then soap_error ''request_id is required when SAT request is accepted''
       else Inr \<lparr>rr_request_id = request_id, rr_sat_code = code, rr_message = message, rr_action = oc_action c\<rparr>)))"

definition parse_verification_response :: "soap_reader \<Rightarrow> string \<Rightarrow> SatVerificationResult result" where
  "parse_verification_response read_xml b =
     bindR (response_root read_xml b) (\<lambda>root.
     bindR (soap_required_element root ''verification result'' [''VerificaSolicitudDescargaResult'', ''VerifyRequestResult'']) (\<lambda>res.
     bindR (soap_required_value res ''sat_code'' code_names) (\<lambda>code.
     bindR (soap_required_value res ''state'' [''EstadoSolicitud'', ''State'', ''RequestState'']) (\<lambda>state_text.
     bindR (parse_soap_state state_text) (\<lambda>st.
       Inr \<lparr>vr_request_id = opt_str (soap_value res request_id_names), vr_state = st, vr_sat_code = code,
         vr_message = opt_str (soap_value res message_names),
         vr_package_ids = soap_texts root [''IdPaquete'', ''IdsPaquetes'', ''PackageId''],
         vr_action = oc_action (classify_sat_outcome OP_VERIFY (Some (CodeText code)) (Some (StateMember st)))\<rparr>)))))"

definition download_result_names :: "string list" where
  "download_result_names = [''DescargaResult'', ''DescargarResult'', ''DownloadResult'', ''RespuestaDescargaMasivaTercerosSalida'']"

definition parse_package_download_response :: "soap_reader \<Rightarrow> string \<Rightarrow> string option \<Rightarrow> SatDownloadResult result" where
  "parse_package_download_response read_xml b package_id =
     bindR (response_root read_xml b) (\<lambda>root.
     bindR (soap_required_element root ''package download result'' download_result_names) (\<lambda>res.
       let message = opt_str (soap_value res message_names);
           ident = str_or (opt_str package_id) (opt_str (soap_value res [''IdPaquete'', ''PackageId''])) in
       if ident = [] then soap_error ''package_id is required in package download response''
       else
         let encoded = (case soap_value res [''Paquete'', ''Package'', ''Contenido'', ''Content''] of
                          Some v \<Rightarrow> Some v | None \<Rightarrow> direct_text res);
             code = str_or (opt_str (soap_value res code_names)) (if encoded \<noteq> None then ''5000'' else []) in
         if code = [] then soap_error ''sat_code is required in SOAP response''
         else
           let action = oc_action (classify_sat_outcome OP_DOWNLOAD (Some (CodeText code)) None) in
           bindR (if action = ACT_FINISHED
                  then (case encoded of
                          None \<Rightarrow> soap_error ''package content is required when SAT download succeeds''
                        | Some v \<Rightarrow> bindR (decode_package v) (\<lambda>c. Inr (Some c)))
                  else Inr None) (\<lambda>content.
             Inr \<lparr>dr_package_id = ident, dr_sat_code = code, dr_message = message, dr_action = action,
               dr_content = content\<rparr>)))"

subsection \<open>Facts\<close>

lemma direct_text_nonempty: "direct_text e = Some v \<Longrightarrow> v \<noteq> []"
  by (auto simp: direct_text_def split: option.splits if_splits)

lemma find_SomeD: "find P xs = Some x \<Longrightarrow> P x \<and> x \<in> set xs"
  by (induction xs) (auto split: if_splits)

lemma value_at_nonempty: "value_at names e = Some v \<Longrightarrow> v \<noteq> []"
  by (auto simp: value_at_def direct_text_nonempty dest: find_SomeD split: option.splits if_splits)

lemma soap_value_nonempty: "soap_value e names = Some v \<Longrightarrow> v \<noteq> []"
proof -
  have "first_value names es = Some v \<Longrightarrow> v \<noteq> []" for es
    by (induction es) (auto split: option.splits dest: value_at_nonempty)
  then show "soap_value e names = Some v \<Longrightarrow> v \<noteq> []" by (simp add: soap_value_def)
qed

lemma soap_value_not_Nil [simp]: "soap_value e names \<noteq> Some []"
  using soap_value_nonempty by blast



lemma concat_split_ws: "concat (py_split v) = filter (\<lambda>c. \<not> char_is_space c) v"
proof -
  have "concat (split_ws_aux acc v) = rev acc @ filter (\<lambda>c. \<not> char_is_space c) v" for acc
    by (induction acc v rule: split_ws_aux.induct) auto
  then show ?thesis by (simp add: py_split_def)
qed

text \<open>C15: a response with a Fault anywhere, or that is no XML, is an error of all four parsers and never a
  result.\<close>

theorem fault_is_never_a_result:
  assumes "read_xml b = None \<or> (\<exists>root f. read_xml b = Some root \<and> soap_first root [''Fault''] = Some f)"
  shows "\<exists>m. parse_authentication_response read_xml b = Inl (SatSoapParseError m)
    \<and> parse_download_request_response read_xml b = Inl (SatSoapParseError m)
    \<and> parse_verification_response read_xml b = Inl (SatSoapParseError m)
    \<and> parse_package_download_response read_xml b ident = Inl (SatSoapParseError m)"
proof -
  obtain m where "response_root read_xml b = Inl (SatSoapParseError m)"
    using assms by (auto simp: response_root_def)
  then show ?thesis
    by (simp add: parse_authentication_response_def parse_download_request_response_def
        parse_verification_response_def parse_package_download_response_def)
qed

text \<open>The normalised names of the example responses.\<close>

lemma norm_names:
  "soap_norm ''Fault'' = ''fault''" "soap_norm ''Envelope'' = ''envelope''" "soap_norm ''Result'' = ''result''"
  "soap_norm ''Package'' = ''package''" "map soap_norm [''Fault''] = [''fault'']"
  "map soap_norm code_names = [''codestatus'', ''codigoestatus'', ''statuscode'']" "soap_norm ''CodEstatus'' = ''codestatus''"
  "soap_norm ''Paquete'' = ''paquete''" "soap_norm ''Contenido'' = ''contenido''" "soap_norm ''Content'' = ''content''"
  by code_simp+

lemma norm_download_result: "soap_norm ''DescargaResult'' = ''descargaresult''"
  "map soap_norm download_result_names =
     [''descargaresult'', ''descargarresult'', ''downloadresult'', ''respuestadescargamasivatercerossalida'']"
  by code_simp+

lemma x_local_plain: "x_local (Xml t a x cs) = (if CHR ''}'' \<in> set t then local_name t else t)"
proof (cases "CHR ''}'' \<in> set t")
  case False
  then have "\<forall>c \<in> set (rev t). c \<noteq> CHR ''}''" by auto
  then have tw: "takeWhile (\<lambda>c. c \<noteq> CHR ''}'') (rev t) = rev t" by (simp only: takeWhile_eq_all_conv)
  show ?thesis unfolding x_local_def local_name_def xml.sel tw using False by simp
qed (simp add: x_local_def)

lemmas soap_lookup = soap_first_def soap_value_def soap_targets_def value_at_def x_local_plain norm_names norm_download_result

theorem fault_is_never_a_result_witness:
  "\<exists>m. parse_verification_response (\<lambda>_. Some (Xml ''Envelope'' [] None [Xml ''Fault'' [] None []])) ''x'' = Inl (SatSoapParseError m)"
proof -
  have "soap_first (Xml ''Envelope'' [] None [Xml ''Fault'' [] None []]) [''Fault''] = Some (Xml ''Fault'' [] None [])"
    by (simp add: soap_lookup)
  with fault_is_never_a_result [of "\<lambda>_. Some (Xml ''Envelope'' [] None [Xml ''Fault'' [] None []])" "''x''"] show ?thesis
    by blast
qed


lemma package_arrives:
  assumes "response_root read_xml b = Inr root" and "soap_first root download_result_names = Some res"
    and "soap_value res [''Paquete'', ''Package'', ''Contenido'', ''Content''] = Some v"
    and "filter (\<lambda>c. \<not> char_is_space c) v = b64_encode content"
    and "soap_value res code_names \<in> {None, Some ''5000''}" and "ident \<noteq> []"
  shows "\<exists>r. parse_package_download_response read_xml b (Some ident) = Inr r \<and> dr_content r = Some content
    \<and> dr_package_id r = ident \<and> dr_action r = ACT_FINISHED"
proof -
  have strip: "py_strip ''5000'' = ''5000''" by code_simp
  have "classify_code OP_DOWNLOAD ''5000'' = cls ACT_FINISHED ''SAT package download succeeded'' False"
    by (simp add: classify_code_def)
  then have "oc_action (classify_sat_outcome OP_DOWNLOAD (Some (CodeText ''5000'')) None) = ACT_FINISHED"
    by (simp add: classify_sat_outcome_def normalize_code_def normalize_state_def strip)
  moreover have "decode_package v = Inr content"
    using assms(4) b64_roundtrip [of content] by (simp add: decode_package_def concat_split_ws)
  ultimately show ?thesis using assms(1-3,5,6)
    by (auto simp: parse_package_download_response_def soap_required_element_def str_or_def opt_str_def Let_def)
qed

definition example_download_xml :: xml where
  "example_download_xml =
     Xml ''Envelope'' [] None [Xml ''DescargaResult'' [(''CodEstatus'', ''5000'')] None [Xml ''Package'' [] (Some '' UEs= '') []]]"

abbreviation example_result :: xml where
  "example_result \<equiv> Xml ''DescargaResult'' [(''CodEstatus'', ''5000'')] None [Xml ''Package'' [] (Some '' UEs= '') []]"

lemma example_download:
  "response_root (\<lambda>_. Some example_download_xml) ''x'' = Inr example_download_xml"
  "soap_first example_download_xml download_result_names = Some example_result"
  "soap_value example_result [''Paquete'', ''Package'', ''Contenido'', ''Content''] = Some ''UEs=''"
  "soap_value example_result code_names \<in> {None, Some ''5000''}"
proof -
  have t: "py_strip '' UEs= '' = ''UEs=''" "py_strip ''5000'' = ''5000''" "local_name ''CodEstatus'' = ''CodEstatus''" by code_simp+
  show "response_root (\<lambda>_. Some example_download_xml) ''x'' = Inr example_download_xml"
    "soap_first example_download_xml download_result_names = Some example_result"
    by (simp_all add: response_root_def example_download_xml_def soap_lookup)
  show "soap_value example_result [''Paquete'', ''Package'', ''Contenido'', ''Content''] = Some ''UEs=''"
    "soap_value example_result code_names \<in> {None, Some ''5000''}"
    by (simp_all add: soap_lookup t direct_text_def)
qed

lemma example_bytes: "filter (\<lambda>c. \<not> char_is_space c) ''UEs='' = b64_encode ''PK''"
  by code_simp


text \<open>C31: a package that the SAT sends in base64, broken into lines in any way, arrives as the bytes it
  was: encoding the bytes and parsing the response is the identity.\<close>

theorem package_bytes_arrive:
  assumes "response_root read_xml b = Inr root" and "soap_first root download_result_names = Some res"
    and "soap_value res [''Paquete'', ''Package'', ''Contenido'', ''Content''] = Some v"
    and "filter (\<lambda>c. \<not> char_is_space c) v = b64_encode content"
    and "soap_value res code_names \<in> {None, Some ''5000''}" and "ident \<noteq> []"
  shows "\<exists>r. parse_package_download_response read_xml b (Some ident) = Inr r \<and> dr_content r = Some content
    \<and> dr_package_id r = ident \<and> dr_action r = ACT_FINISHED"
  using assms by (rule package_arrives)

theorem package_bytes_arrive_witness:
  "\<exists>r. parse_package_download_response (\<lambda>_. Some example_download_xml) ''x'' (Some ''p'') = Inr r
    \<and> dr_content r = Some ''PK''"
  using package_bytes_arrive [OF example_download(1-3) example_bytes example_download(4), of "''p''"] by auto

end
