(* ===== verification/Transport.thy ===== *)
theory Transport
  imports PyUrl PyJson
begin

text \<open>
  \<open>src/cfdi_vault/sat_transport.py\<close>: the guarded SOAP transport. The environment is an association list,
  and the guard input a record with the safe defaults of the class. Sending is a parameter: a function of
  the request and of the requests sent before. Redaction of an endpoint covers the user part of the
  authority; the query is redacted by \<open>urlencode\<close>, which is a parameter.
\<close>

record SoapTransportRequest =
  st_endpoint :: string
  st_body :: string
  st_headers :: "(string \<times> string) list"
  st_tls_verify :: bool
  st_client_certificate :: bool

text \<open>\<open>__post_init__\<close>; the body is a byte string, and \<open>st_client_certificate\<close> says whether one was given.\<close>

definition mk_soap_request :: "string \<Rightarrow> string \<Rightarrow> (string \<times> string) list \<Rightarrow> bool \<Rightarrow> bool \<Rightarrow> SoapTransportRequest result" where
  "mk_soap_request endpoint body headers tls cert =
     (if body = [] then Inl (ValueError ''soap-body-required'')
      else if \<not> tls then Inl (ValueError ''tls-verification-required'')
      else if cert then Inl (ValueError ''client-tls-certificate-not-supported'')
      else Inr \<lparr>st_endpoint = endpoint, st_body = body, st_headers = headers, st_tls_verify = tls,
             st_client_certificate = cert\<rparr>)"

record SoapTransportResponse =
  sr_status_code :: int
  sr_headers :: "(string \<times> string) list"
  sr_body :: string
  sr_reason :: string

record LiveSatGuardInput =
  gi_manual_real_sat :: bool
  gi_terminal_interactive :: bool
  gi_confirmation_verified :: bool
  gi_profile_ready :: bool
  gi_credentials_ready :: bool
  gi_doctor_ok :: bool
  gi_scanner_passed :: bool
  gi_repo_clean :: bool
  gi_metadata_only :: bool
  gi_range_within_limit :: bool
  gi_live_permit_verified :: bool
  gi_live_permit_allows_real_credentials :: bool
  gi_real_credentials_required :: bool
  gi_environ :: "(string \<times> string) list"

definition default_guard_input :: "(string \<times> string) list \<Rightarrow> LiveSatGuardInput" where
  "default_guard_input environ =
     \<lparr>gi_manual_real_sat = False, gi_terminal_interactive = False, gi_confirmation_verified = False,
      gi_profile_ready = False, gi_credentials_ready = False, gi_doctor_ok = False, gi_scanner_passed = False,
      gi_repo_clean = False, gi_metadata_only = False, gi_range_within_limit = False,
      gi_live_permit_verified = False, gi_live_permit_allows_real_credentials = False,
      gi_real_credentials_required = True, gi_environ = environ\<rparr>"

definition FALSEY_ENV_VALUES :: "string list" where
  "FALSEY_ENV_VALUES = [[], ''0'', ''false'', ''no'', ''off'']"

definition env_truthy :: "string option \<Rightarrow> bool" where
  "env_truthy v = (case v of None \<Rightarrow> False | Some s \<Rightarrow> py_lower (py_strip s) \<notin> set FALSEY_ENV_VALUES)"

definition reason_if :: "bool \<Rightarrow> string \<Rightarrow> string list" where
  "reason_if b r = (if b then [r] else [])"

definition guard_reasons :: "LiveSatGuardInput \<Rightarrow> string list" where
  "guard_reasons g =
     (let env = map_of (gi_environ g) in
      reason_if (env_truthy (env ''CI'')) ''ci-enabled''
      @ reason_if (env ''CFDI_VAULT_ALLOW_REAL_SAT'' \<noteq> Some ''1'' \<and> \<not> gi_live_permit_verified g)
          ''missing-explicit-real-sat-env''
      @ reason_if (gi_real_credentials_required g \<and> env ''CFDI_VAULT_ALLOW_REAL_CREDENTIALS'' \<noteq> Some ''1''
            \<and> \<not> (gi_live_permit_verified g \<and> gi_live_permit_allows_real_credentials g))
          ''missing-explicit-real-credentials-env''
      @ (if gi_live_permit_verified g then []
         else reason_if (\<not> gi_manual_real_sat g) ''missing-manual-real-sat-flag''
           @ reason_if (\<not> gi_terminal_interactive g) ''non-interactive-terminal''
           @ reason_if (\<not> gi_confirmation_verified g) ''missing-live-smoke-confirmation'')
      @ reason_if (\<not> gi_profile_ready g) ''profile-not-ready''
      @ reason_if (gi_real_credentials_required g \<and> \<not> gi_credentials_ready g) ''local-credentials-not-ready''
      @ reason_if (\<not> gi_doctor_ok g) ''doctor-not-ok''
      @ reason_if (\<not> gi_scanner_passed g) ''scanner-not-passed''
      @ reason_if (\<not> gi_repo_clean g) ''repo-dirty''
      @ reason_if (\<not> gi_metadata_only g) ''metadata-only-required''
      @ reason_if (\<not> gi_range_within_limit g) ''range-too-wide'')"

definition validate_live_sat_guard :: "LiveSatGuardInput \<Rightarrow> unit result" where
  "validate_live_sat_guard g =
     (if guard_reasons g = [] then Inr () else Inl (LiveSatGuardError (guard_reasons g)))"

subsection \<open>Transports\<close>

record fake_transport =
  ft_responses :: "SoapTransportResponse list"
  ft_requests :: "SoapTransportRequest list"

definition synthetic_response :: SoapTransportResponse where
  "synthetic_response =
     \<lparr>sr_status_code = 200, sr_headers = [], sr_body = ''SYNTHETIC_SOAP_RESPONSE'', sr_reason = []\<rparr>"

definition mk_fake_transport :: "SoapTransportResponse list \<Rightarrow> fake_transport" where
  "mk_fake_transport rs = \<lparr>ft_responses = (if rs = [] then [synthetic_response] else rs), ft_requests = []\<rparr>"

definition fake_send :: "SoapTransportRequest \<Rightarrow> fake_transport \<Rightarrow> SoapTransportResponse \<times> fake_transport" where
  "fake_send req t =
     (let t' = t\<lparr>ft_requests := ft_requests t @ [req]\<rparr> in
      case ft_responses t of [] \<Rightarrow> (synthetic_response, t') | r # rs \<Rightarrow> (r, t'\<lparr>ft_responses := rs\<rparr>))"

text \<open>The state of the guarded transport is what it sent; the guard input is made anew for every send.\<close>

definition guarded_send ::
  "(SoapTransportRequest list \<Rightarrow> SoapTransportRequest \<Rightarrow> SoapTransportResponse result) \<Rightarrow> LiveSatGuardInput
    \<Rightarrow> SoapTransportRequest \<Rightarrow> SoapTransportRequest list \<Rightarrow> SoapTransportResponse result \<times> SoapTransportRequest list" where
  "guarded_send sender g req sent =
     (case validate_live_sat_guard g of
        Inl e \<Rightarrow> (Inl e, sent)
      | Inr _ \<Rightarrow> (sender sent req, sent @ [req]))"

fun guarded_run ::
  "(SoapTransportRequest list \<Rightarrow> SoapTransportRequest \<Rightarrow> SoapTransportResponse result)
    \<Rightarrow> (LiveSatGuardInput \<times> SoapTransportRequest) list \<Rightarrow> SoapTransportRequest list \<Rightarrow> SoapTransportRequest list" where
  "guarded_run sender [] sent = sent"
| "guarded_run sender ((g, req) # ops) sent = guarded_run sender ops (snd (guarded_send sender g req sent))"

subsection \<open>Redaction\<close>

definition redact_headers :: "(string \<times> string) list \<Rightarrow> (string \<times> string) list" where
  "redact_headers hs = map (\<lambda>(k, v). (k, ''<redacted>'')) hs"

definition redact_netloc :: "string \<Rightarrow> string" where
  "redact_netloc netloc =
     (if CHR ''@'' \<in> set netloc
      then ''<redacted>@'' @ rev (takeWhile (\<lambda>c. c \<noteq> CHR ''@'') (rev netloc)) else netloc)"

subsection \<open>Properties\<close>

text \<open>The gates, each on its own.\<close>

definition guard_open :: "LiveSatGuardInput \<Rightarrow> bool" where
  "guard_open g \<longleftrightarrow>
     \<not> env_truthy (map_of (gi_environ g) ''CI'')
     \<and> (gi_live_permit_verified g
        \<or> map_of (gi_environ g) ''CFDI_VAULT_ALLOW_REAL_SAT'' = Some ''1'' \<and> gi_manual_real_sat g
          \<and> gi_terminal_interactive g \<and> gi_confirmation_verified g)
     \<and> (gi_real_credentials_required g \<longrightarrow> gi_credentials_ready g
        \<and> (map_of (gi_environ g) ''CFDI_VAULT_ALLOW_REAL_CREDENTIALS'' = Some ''1''
           \<or> gi_live_permit_verified g \<and> gi_live_permit_allows_real_credentials g))
     \<and> gi_profile_ready g \<and> gi_doctor_ok g \<and> gi_scanner_passed g \<and> gi_repo_clean g \<and> gi_metadata_only g
     \<and> gi_range_within_limit g"

lemma reason_if_Nil [simp]: "reason_if b r = [] \<longleftrightarrow> \<not> b"
  by (simp add: reason_if_def)

lemma guard_reasons_Nil: "guard_reasons g = [] \<longleftrightarrow> guard_open g"
  by (auto simp: guard_reasons_def guard_open_def Let_def)

text \<open>C2: nothing reaches the network unless every gate is open: over any attempts, what is sent is the
  requests of the attempts whose guard was open at that moment, in order; a closed guard raises with at
  least one reason and sends nothing, and the default guard is closed.\<close>

theorem nothing_sent_past_the_guard:
  "guarded_run sender ops sent = sent @ map snd (filter (\<lambda>(g, req). guard_open g) ops)
   \<and> (\<forall>g req s. \<not> guard_open g \<longrightarrow>
        (\<exists>rs. rs \<noteq> [] \<and> guarded_send sender g req s = (Inl (LiveSatGuardError rs), s)))
   \<and> \<not> guard_open (default_guard_input env)"
proof (intro conjI allI impI)
  show "guarded_run sender ops sent = sent @ map snd (filter (\<lambda>(g, req). guard_open g) ops)"
    by (induction sender ops sent rule: guarded_run.induct)
       (auto simp: guarded_send_def validate_live_sat_guard_def guard_reasons_Nil)
  show "\<exists>rs. rs \<noteq> [] \<and> guarded_send sender g req s = (Inl (LiveSatGuardError rs), s)" if "\<not> guard_open g" for g req s
    using that by (simp add: guarded_send_def validate_live_sat_guard_def guard_reasons_Nil)
  show "\<not> guard_open (default_guard_input env)" by (simp add: guard_open_def default_guard_input_def)
qed

theorem nothing_sent_past_the_guard_witness:
  "guarded_run (\<lambda>_ _. Inr synthetic_response)
     [(default_guard_input [], \<lparr>st_endpoint = [], st_body = ''b'', st_headers = [], st_tls_verify = True, st_client_certificate = False\<rparr>)] [] = []"
  using nothing_sent_past_the_guard [of "\<lambda>_ _. Inr synthetic_response"
    "[(default_guard_input [], \<lparr>st_endpoint = [], st_body = ''b'', st_headers = [], st_tls_verify = True, st_client_certificate = False\<rparr>)]" "[]" "[]"]
  by simp

text \<open>The user part of an authority never shows: what is left of the last at sign is replaced.\<close>

lemma redact_netloc_user:
  assumes "CHR ''@'' \<notin> set host"
  shows "redact_netloc (user @ ''@'' @ host) = ''<redacted>@'' @ host"
proof -
  have "takeWhile (\<lambda>c. c \<noteq> CHR ''@'') (rev host @ CHR ''@'' # rev user) = rev host"
    using assms by (subst takeWhile_append2) auto
  then show ?thesis by (simp add: redact_netloc_def)
qed

end
