(* ===== verification/DomainRows.thy ===== *)
theory DomainRows
  imports Domain PyDecimal
begin

text \<open>
  The rows of \<open>src/cfdi_vault/domain.py\<close> that hold amounts and dates: the metadata inventory row, the
  status query and its result, and the error payload for callers. Fields that only carry free
  dictionaries (\<open>raw_response\<close>) are left out.
\<close>

record MetadataEntry =
  me_uuid :: string
  me_issuer_rfc :: string
  me_issuer_name :: string
  me_receiver_rfc :: string
  me_receiver_name :: string
  me_issue_date :: pydt
  me_total :: decimal
  me_status :: string
  me_effect :: string
  me_source_package_id :: string

record CfdiStatusQuery =
  csq_uuid :: string
  csq_issuer_rfc :: string
  csq_receiver_rfc :: string
  csq_total :: decimal

record CfdiStatusResult =
  csr_uuid :: string
  csr_status :: string
  csr_checked_at :: pydt
  csr_sat_code :: "string option"
  csr_outcome :: CfdiStatusOutcome

record UserFacingError =
  ufe_code :: string
  ufe_user_message :: string
  ufe_developer_message :: string
  ufe_next_action :: string
  ufe_retryable :: bool
  ufe_severity :: string
  ufe_sat_code :: "string option"
  ufe_request_id :: "string option"
  ufe_package_id :: "string option"
  ufe_correlation_id :: string

end
