(* ===== verification/PyCsv.thy ===== *)
theory PyCsv
  imports PyBase
begin

text \<open>
  Python's \<open>csv\<close> module with its default dialect (quote character, doubled quotes, minimal quoting,
  CR LF after a record) and a given delimiter: the reader is the state machine of \<open>_csv.c\<close>, fed with the
  characters of the text and with an end-of-line event (\<open>None\<close>) after every line of \<open>StringIO\<close>; the writer is
  \<open>join_append\<close>. The field size limit of the module is kept. A delimiter that is a quote or a line
  break is accepted, as the module does before Python 3.13.
\<close>

subsection \<open>Reader\<close>

datatype csv_mode = START_RECORD | START_FIELD | IN_FIELD | IN_QUOTED_FIELD | QUOTE_IN_QUOTED_FIELD | EAT_CRNL

record csv_state =
  cs_mode :: csv_mode
  cs_field :: string
  cs_fields :: "string list"

definition csv_fresh :: csv_state where
  "csv_fresh = \<lparr>cs_mode = START_RECORD, cs_field = [], cs_fields = []\<rparr>"

definition csv_field_limit :: nat where "csv_field_limit = 131072"

definition line_break :: "char \<Rightarrow> bool" where
  "line_break c \<longleftrightarrow> c = CHR 0x0A \<or> c = CHR 0x0D"

definition csv_save :: "csv_mode \<Rightarrow> csv_state \<Rightarrow> csv_state" where
  "csv_save m s = s\<lparr>cs_mode := m, cs_field := [], cs_fields := cs_fields s @ [cs_field s]\<rparr>"

definition csv_add :: "csv_mode \<Rightarrow> char \<Rightarrow> csv_state \<Rightarrow> csv_state result" where
  "csv_add m c s =
     (if csv_field_limit \<le> length (cs_field s) then Inl (CsvError ''field larger than field limit'')
      else Inr (s\<lparr>cs_mode := m, cs_field := cs_field s @ [c]\<rparr>))"

text \<open>The limit in binary, for evaluation.\<close>

lemma csv_add_code [code]:
  "csv_add m c s =
     (if (131072::int) \<le> int (length (cs_field s)) then Inl (CsvError ''field larger than field limit'')
      else Inr (s\<lparr>cs_mode := m, cs_field := cs_field s @ [c]\<rparr>))"
proof -
  have "(131072::int) \<le> int n \<longleftrightarrow> csv_field_limit \<le> n" for n
    unfolding csv_field_limit_def by linarith
  then show ?thesis by (simp add: csv_add_def)
qed

definition csv_start_field :: "char \<Rightarrow> csv_state \<Rightarrow> char \<Rightarrow> csv_state result" where
  "csv_start_field d s c =
     (if line_break c then Inr (csv_save EAT_CRNL s)
      else if c = CHR 0x22 then Inr (s\<lparr>cs_mode := IN_QUOTED_FIELD\<rparr>)
      else if c = d then Inr (csv_save START_FIELD s)
      else csv_add IN_FIELD c s)"

fun csv_char :: "char \<Rightarrow> csv_mode \<Rightarrow> csv_state \<Rightarrow> char \<Rightarrow> csv_state result" where
  "csv_char d START_RECORD s c =
     (if line_break c then Inr (s\<lparr>cs_mode := EAT_CRNL\<rparr>) else csv_start_field d s c)"
| "csv_char d START_FIELD s c = csv_start_field d s c"
| "csv_char d IN_FIELD s c =
     (if line_break c then Inr (csv_save EAT_CRNL s)
      else if c = d then Inr (csv_save START_FIELD s)
      else csv_add IN_FIELD c s)"
| "csv_char d IN_QUOTED_FIELD s c =
     (if c = CHR 0x22 then Inr (s\<lparr>cs_mode := QUOTE_IN_QUOTED_FIELD\<rparr>) else csv_add IN_QUOTED_FIELD c s)"
| "csv_char d QUOTE_IN_QUOTED_FIELD s c =
     (if c = CHR 0x22 then csv_add IN_QUOTED_FIELD c s
      else if c = d then Inr (csv_save START_FIELD s)
      else if line_break c then Inr (csv_save EAT_CRNL s)
      else csv_add IN_FIELD c s)"
| "csv_char d EAT_CRNL s c =
     (if line_break c then Inr s
      else Inl (CsvError (''new-line character seen in unquoted field - do you need to open the file with newline=''
        @ [CHR 0x27, CHR 0x27, CHR ''?''])))"

fun csv_eol :: "csv_mode \<Rightarrow> csv_state \<Rightarrow> csv_state" where
  "csv_eol START_RECORD s = s"
| "csv_eol IN_QUOTED_FIELD s = s"
| "csv_eol EAT_CRNL s = s\<lparr>cs_mode := START_RECORD\<rparr>"
| "csv_eol _ s = csv_save START_RECORD s"

definition csv_step :: "char \<Rightarrow> csv_state \<Rightarrow> char option \<Rightarrow> csv_state result" where
  "csv_step d s e = (case e of None \<Rightarrow> Inr (csv_eol (cs_mode s) s) | Some c \<Rightarrow> csv_char d (cs_mode s) s c)"

text \<open>A record ends with the end-of-line event that leads back to the start state; what is left at the end
  of the input is a record when a quoted field is open.\<close>

fun csv_run :: "char \<Rightarrow> csv_state \<Rightarrow> char option list \<Rightarrow> string list list result" where
  "csv_run d s [] =
     Inr (if cs_field s \<noteq> [] \<or> cs_mode s = IN_QUOTED_FIELD then [cs_fields s @ [cs_field s]] else [])"
| "csv_run d s (e # es) =
     bindR (csv_step d s e) (\<lambda>s'.
       if e = None \<and> cs_mode s' = START_RECORD
       then bindR (csv_run d csv_fresh es) (\<lambda>rest. Inr (cs_fields s' # rest))
       else csv_run d s' es)"

definition char_events :: "char \<Rightarrow> char option list" where
  "char_events c = (if c = CHR 0x0A then [Some c, None] else [Some c])"

definition csv_events :: "string \<Rightarrow> char option list" where
  "csv_events t = concat (map char_events t) @ (if t = [] \<or> last t = CHR 0x0A then [] else [None])"

definition csv_reader :: "char \<Rightarrow> string \<Rightarrow> string list list result" where
  "csv_reader d t = csv_run d csv_fresh (csv_events t)"

subsection \<open>Writer\<close>

definition csv_quote :: "string \<Rightarrow> string" where
  "csv_quote f = [CHR 0x22] @ replace_char (CHR 0x22) [CHR 0x22, CHR 0x22] f @ [CHR 0x22]"

definition needs_quotes :: "char \<Rightarrow> string \<Rightarrow> bool" where
  "needs_quotes d f \<longleftrightarrow> list_ex (\<lambda>c. c = d \<or> c = CHR 0x22 \<or> line_break c) f"

definition csv_field :: "char \<Rightarrow> bool \<Rightarrow> string \<Rightarrow> string" where
  "csv_field d single f = (if needs_quotes d f \<or> single \<and> f = [] then csv_quote f else f)"

definition csv_line :: "char \<Rightarrow> string list \<Rightarrow> string" where
  "csv_line d fs = py_join [d] (map (csv_field d (length fs = 1)) fs) @ [CHR 0x0D, CHR 0x0A]"

definition csv_writer :: "char \<Rightarrow> string list list \<Rightarrow> string" where
  "csv_writer d rows = concat (map (csv_line d) rows)"

subsection \<open>Reading back what was written\<close>

definition csv_delimiter :: "char \<Rightarrow> bool" where
  "csv_delimiter d \<longleftrightarrow> d \<noteq> CHR 0x22 \<and> \<not> line_break d"

definition csv_row_ok :: "string list \<Rightarrow> bool" where
  "csv_row_ok fs \<longleftrightarrow> fs \<noteq> [] \<and> list_all (\<lambda>f. length f \<le> csv_field_limit) fs"

abbreviation csv_st :: "csv_mode \<Rightarrow> string \<Rightarrow> string list \<Rightarrow> csv_state" where
  "csv_st m f fs \<equiv> \<lparr>cs_mode = m, cs_field = f, cs_fields = fs\<rparr>"

abbreviation text_events :: "string \<Rightarrow> char option list" where
  "text_events t \<equiv> concat (map char_events t)"

lemmas csv_runs = csv_step_def csv_start_field_def csv_add_def csv_save_def

lemma quoted_body:
  assumes "length g + length f \<le> csv_field_limit"
  shows "csv_run d (csv_st IN_QUOTED_FIELD g fs) (text_events (replace_char (CHR 0x22) [CHR 0x22, CHR 0x22] f) @ es)
    = csv_run d (csv_st IN_QUOTED_FIELD (g @ f) fs) es"
  using assms
proof (induction f arbitrary: g)
  case Nil
  then show ?case by (simp add: replace_char_def)
next
  case (Cons c f)
  have "csv_run d (csv_st IN_QUOTED_FIELD g fs)
      (text_events (replace_char (CHR 0x22) [CHR 0x22, CHR 0x22] [c]) @ es')
      = csv_run d (csv_st IN_QUOTED_FIELD (g @ [c]) fs) es'" for es'
    using Cons.prems by (simp add: replace_char_def char_events_def csv_runs)
  from this [of "text_events (replace_char (CHR 0x22) [CHR 0x22, CHR 0x22] f) @ es"] show ?case
    using Cons.IH [of "g @ [c]"] Cons.prems replace_char_append [of "CHR 0x22" "[CHR 0x22, CHR 0x22]" "[c]" f] by simp
qed

lemma plain_body:
  assumes "length g + length f \<le> csv_field_limit" "\<not> needs_quotes d f"
  shows "csv_run d (csv_st IN_FIELD g fs) (text_events f @ es) = csv_run d (csv_st IN_FIELD (g @ f) fs) es"
  using assms
proof (induction f arbitrary: g)
  case (Cons c f)
  then show ?case using Cons.IH [of "g @ [c]"]
    by (simp add: char_events_def csv_runs needs_quotes_def line_break_def)
qed simp

text \<open>A written field leaves the reader in a state in which the field ends.\<close>

definition csv_ended :: "csv_mode \<Rightarrow> bool" where
  "csv_ended m \<longleftrightarrow> m = IN_FIELD \<or> m = QUOTE_IN_QUOTED_FIELD \<or> m = START_FIELD"

lemma read_field:
  assumes "m = START_FIELD \<or> m = START_RECORD \<and> (f \<noteq> [] \<or> single)" "length f \<le> csv_field_limit"
  obtains m' where "csv_ended m'"
    "\<And>es. csv_run d (csv_st m [] fs) (text_events (csv_field d single f) @ es) = csv_run d (csv_st m' f fs) es"
proof (cases "needs_quotes d f \<or> single \<and> f = []")
  case True
  have "csv_run d (csv_st m [] fs) (text_events (csv_field d single f) @ es)
      = csv_run d (csv_st QUOTE_IN_QUOTED_FIELD f fs) es" for es
    using True assms quoted_body [of "[]" f d fs "Some (CHR 0x22) # es"]
    by (auto simp: csv_field_def csv_quote_def char_events_def csv_runs line_break_def)
  then show ?thesis by (intro that) (auto simp: csv_ended_def)
next
  case False
  show ?thesis
  proof (cases f)
    case Nil
    then have "csv_run d (csv_st m [] fs) (text_events (csv_field d single f) @ es) = csv_run d (csv_st START_FIELD f fs) es" for es
      using assms False by (auto simp: csv_field_def)
    then show ?thesis by (intro that) (auto simp: csv_ended_def)
  next
    case (Cons c g)
    have "csv_run d (csv_st m [] fs) (text_events (csv_field d single f) @ es) = csv_run d (csv_st IN_FIELD f fs) es" for es
      using False assms Cons plain_body [of "[c]" g d fs es]
      by (auto simp: csv_field_def char_events_def csv_runs line_break_def needs_quotes_def csv_field_limit_def)
    then show ?thesis by (intro that) (auto simp: csv_ended_def)
  qed
qed

lemma read_delimiter:
  assumes "csv_ended m" "csv_delimiter d"
  shows "csv_run d (csv_st m f fs) (Some d # es) = csv_run d (csv_st START_FIELD [] (fs @ [f])) es"
  using assms by (auto simp: csv_ended_def csv_delimiter_def csv_runs)

lemma read_line_end:
  assumes "csv_ended m" "csv_delimiter d"
  shows "csv_run d (csv_st m f fs) (text_events [CHR 0x0D, CHR 0x0A] @ es)
    = bindR (csv_run d csv_fresh es) (\<lambda>rest. Inr ((fs @ [f]) # rest))"
  using assms by (auto simp: csv_ended_def csv_delimiter_def csv_runs line_break_def char_events_def)

lemma read_fields:
  assumes "fs \<noteq> []" "list_all (\<lambda>f. length f \<le> csv_field_limit) fs" "csv_delimiter d"
    "m = START_FIELD \<or> m = START_RECORD \<and> (hd fs \<noteq> [] \<or> single \<or> tl fs \<noteq> [])"
  shows "csv_run d (csv_st m [] gs) (text_events (py_join [d] (map (csv_field d single) fs) @ [CHR 0x0D, CHR 0x0A]) @ es)
    = bindR (csv_run d csv_fresh es) (\<lambda>rest. Inr ((gs @ fs) # rest))"
  using assms
proof (induction fs arbitrary: m gs)
  case (Cons f fs)
  show ?case
  proof (cases fs)
    case Nil
    obtain m' where m: "csv_ended m'"
      "\<And>es. csv_run d (csv_st m [] gs) (text_events (csv_field d single f) @ es) = csv_run d (csv_st m' f gs) es"
      using Cons.prems Nil by (auto intro: read_field [of m f single d gs])
    show ?thesis using Nil m(2) read_line_end [OF m(1) Cons.prems(3), of f gs es] by simp
  next
    case (Cons f2 fs2)
    have rest: "csv_run d (csv_st START_FIELD [] (gs @ [f]))
        (text_events (py_join [d] (map (csv_field d single) fs) @ [CHR 0x0D, CHR 0x0A]) @ es)
      = bindR (csv_run d csv_fresh es) (\<lambda>rest. Inr ((gs @ f # fs) # rest))"
      using Cons.IH [of START_FIELD "gs @ [f]"] Cons.prems Cons by simp
    have d: "char_events d = [Some d]" using Cons.prems(3) by (auto simp: char_events_def csv_delimiter_def line_break_def)
    show ?thesis
    proof (cases "m = START_RECORD \<and> f = [] \<and> \<not> single")
      case True
      have "csv_run d (csv_st START_RECORD [] gs) (Some d # es') = csv_run d (csv_st START_FIELD [] (gs @ [[]])) es'" for es'
        using Cons.prems(3) by (auto simp: csv_delimiter_def csv_runs)
      moreover have "csv_field d single f = []" using True by (simp add: csv_field_def needs_quotes_def)
      ultimately show ?thesis using True rest Cons d by simp
    next
      case False
      then obtain m' where m: "csv_ended m'"
        "\<And>es. csv_run d (csv_st m [] gs) (text_events (csv_field d single f) @ es) = csv_run d (csv_st m' f gs) es"
        using Cons.prems by (auto intro: read_field [of m f single d gs])
      show ?thesis using m(2) read_delimiter [OF m(1) Cons.prems(3), of f gs] rest Cons d by simp
    qed
  qed
qed simp

lemma csv_line_read:
  assumes "csv_row_ok fs" "csv_delimiter d"
  shows "csv_run d csv_fresh (text_events (csv_line d fs) @ es) = bindR (csv_run d csv_fresh es) (\<lambda>rest. Inr (fs # rest))"
proof -
  have "hd fs \<noteq> [] \<or> length fs = 1 \<or> tl fs \<noteq> []" using assms(1) by (cases fs) (auto simp: csv_row_ok_def)
  then show ?thesis
    using read_fields [of fs d START_RECORD "length fs = 1" "[]" es] assms
    by (simp add: csv_line_def csv_row_ok_def csv_fresh_def)
qed

lemma csv_events_writer: "csv_events (csv_writer d rows) = text_events (csv_writer d rows)"
proof (cases rows rule: rev_cases)
  case Nil
  then show ?thesis by (simp add: csv_writer_def csv_events_def)
next
  case (snoc rs r)
  then show ?thesis by (simp add: csv_writer_def csv_events_def csv_line_def)
qed

text \<open>What was written is read back, record by record, whatever the fields hold.\<close>

lemma csv_roundtrip:
  assumes "list_all csv_row_ok rows" "csv_delimiter d"
  shows "csv_reader d (csv_writer d rows) = Inr rows"
proof -
  have "csv_run d csv_fresh (text_events (csv_writer d rows)) = Inr rows"
    using assms(1)
  proof (induction rows)
    case Nil
    then show ?case by (simp add: csv_writer_def csv_fresh_def)
  next
    case (Cons r rows)
    then show ?case using csv_line_read [OF _ assms(2), of r "text_events (csv_writer d rows)"]
      by (simp add: csv_writer_def)
  qed
  then show ?thesis by (simp add: csv_reader_def csv_events_writer)
qed

end
