(* ===== verification/MetadataParser.thy ===== *)
theory MetadataParser
  imports DomainRows PyCsv PyPath "HOL-Library.AList"
begin

text \<open>
  \<open>src/cfdi_vault/metadata_parser.py\<close>: metadata inventories in CSV or TXT. A Python dictionary is an
  association list in insertion order, updated with \<open>AList.update\<close>. The bytes are decoded as
  utf-8-sig: the byte order mark is dropped and ASCII text is itself; the decoding of other bytes is a
  parameter, because a \<open>char\<close> does not hold a code point above 255. Dates and amounts are read as in
  PyDatetime and PyDecimal.
\<close>

subsection \<open>Decoding and the delimiter\<close>

definition ascii_text :: "string \<Rightarrow> bool" where
  "ascii_text s \<longleftrightarrow> list_all (\<lambda>c. char_code c < 128) s"

definition decode_utf8_sig :: "(string \<Rightarrow> string result) \<Rightarrow> string \<Rightarrow> string result" where
  "decode_utf8_sig decode content =
     (let b = (if take 3 content = [CHR 0xEF, CHR 0xBB, CHR 0xBF] then drop 3 content else content) in
      if ascii_text b then Inr b else decode b)"

definition splitlines_break :: "char \<Rightarrow> bool" where
  "splitlines_break c \<longleftrightarrow> c \<in> {CHR 0x0A, CHR 0x0B, CHR 0x0C, CHR 0x0D, CHR 0x1C, CHR 0x1D, CHR 0x1E, CHR 0x85}"

definition str_count :: "char \<Rightarrow> string \<Rightarrow> nat" where
  "str_count c s = length (filter (\<lambda>x. x = c) s)"

text \<open>\<open>max(candidates, key=header.count)\<close>: the first candidate with the highest count.\<close>

definition max_by_count :: "string \<Rightarrow> char \<Rightarrow> char \<Rightarrow> char" where
  "max_by_count h best c = (if str_count best h < str_count c h then c else best)"

definition detect_delimiter :: "string \<Rightarrow> char" where
  "detect_delimiter t =
     (let header = takeWhile (\<lambda>c. \<not> splitlines_break c) t in
      if header = [] then CHR '',''
      else foldl (max_by_count header) (CHR 0x7E) [CHR ''|'', CHR '','', CHR 0x09])"

text \<open>\<open>delimiter or _detect_delimiter(text)\<close>; the csv module takes one character only.\<close>

definition chosen_delimiter :: "string option \<Rightarrow> string \<Rightarrow> char result" where
  "chosen_delimiter delimiter t =
     (case delimiter of
        Some [c] \<Rightarrow> Inr c
      | Some (_ # _ # _) \<Rightarrow> Inl TypeError
      | _ \<Rightarrow> Inr (detect_delimiter t))"

subsection \<open>DictReader\<close>

datatype cell = CText string | CNone | CRest "string list"

definition set_cells :: "(string option \<times> cell) list \<Rightarrow> (string option \<times> cell) list \<Rightarrow> (string option \<times> cell) list" where
  "set_cells kvs d = fold (\<lambda>(k, v). AList.update k v) kvs d"

definition dict_row :: "string list \<Rightarrow> string list \<Rightarrow> (string option \<times> cell) list" where
  "dict_row names row =
     (let d = set_cells (zip (map Some names) (map CText row)) [] in
      if length names < length row then set_cells [(None, CRest (drop (length names) row))] d
      else set_cells (map (\<lambda>k. (Some k, CNone)) (drop (length row) names)) d)"

definition cell_text :: "cell \<Rightarrow> string" where
  "cell_text c = (case c of CText s \<Rightarrow> s | CNone \<Rightarrow> [] | CRest xs \<Rightarrow> py_repr (JArr (map JStr xs)))"

definition normalized_row :: "(string option \<times> cell) list \<Rightarrow> (string \<times> string) list" where
  "normalized_row d =
     fold (\<lambda>(k, c). AList.update (py_strip (opt_str k)) (py_strip (cell_text c))) d []"

definition dict_rows :: "string list list \<Rightarrow> (string \<times> string) list list" where
  "dict_rows rows =
     (case rows of [] \<Rightarrow> []
      | names # data \<Rightarrow> map (\<lambda>r. normalized_row (dict_row names r)) (filter (\<lambda>r. r \<noteq> []) data))"

subsection \<open>One row\<close>

definition FIELD_ALIASES :: "(string \<times> string list) list" where
  "FIELD_ALIASES =
     [(''uuid'', [''uuid'', ''folioFiscal'', ''uuidComprobante'']),
      (''issuer_rfc'', [''rfcEmisor'', ''issuer_rfc'', ''emisorRfc'']),
      (''issuer_name'', [''nombreEmisor'', ''issuer_name'', ''emisorNombre'']),
      (''receiver_rfc'', [''rfcReceptor'', ''receiver_rfc'', ''receptorRfc'']),
      (''receiver_name'', [''nombreReceptor'', ''receiver_name'', ''receptorNombre'']),
      (''issue_date'', [''fechaEmision'', ''fecha'', ''issue_date'']),
      (''total'', [''montoTotal'', ''total'', ''importeTotal'']),
      (''status'', [''estadoComprobante'', ''estado'', ''status'']),
      (''effect'', [''tipoComprobante'', ''efectoComprobante'', ''effect'']),
      (''source_package_id'', [''idPaquete'', ''package_id'', ''source_package_id''])]"

definition row_value :: "(string \<times> string) list \<Rightarrow> string \<Rightarrow> string" where
  "row_value row canonical =
     (case find (\<lambda>a. opt_truthy (map_of row a)) (the (map_of FIELD_ALIASES canonical)) of
        Some a \<Rightarrow> opt_str (map_of row a) | None \<Rightarrow> [])"

definition hex_run :: "nat \<Rightarrow> nat \<Rightarrow> string \<Rightarrow> bool" where
  "hex_run from n s \<longleftrightarrow> list_all char_is_hex (take n (drop from s))"

definition uuid_shape :: "string \<Rightarrow> bool" where
  "uuid_shape s \<longleftrightarrow>
     length s = 36 \<and> list_all (\<lambda>i. s ! i = CHR ''-'') [8, 13, 18, 23]
     \<and> hex_run 0 8 s \<and> hex_run 9 4 s \<and> s ! 14 \<in> set ''12345'' \<and> hex_run 15 3 s
     \<and> s ! 19 \<in> set ''89ABab'' \<and> hex_run 20 3 s \<and> hex_run 24 12 s"

definition metadata_datetime :: "string \<Rightarrow> pydt option" where
  "metadata_datetime v =
     (if v = [] then None
      else map_option (\<lambda>p. case p of Naive t \<Rightarrow> Aware t 0 | Aware t off \<Rightarrow> Aware t off)
        (case fromisoformat (replace_char (CHR ''Z'') ''+00:00'' v) of
           Some p \<Rightarrow> Some p | None \<Rightarrow> fromisoformat (take 10 v)))"

text \<open>The entry of a row, or its errors; the placeholder entry that the code returns beside errors is not
  used by the caller.\<close>

definition entry_from_row :: "(string \<times> string) list \<Rightarrow> string \<Rightarrow> string list + MetadataEntry" where
  "entry_from_row row source_package_id =
    (let uuid = py_upper (row_value row ''uuid'');
         issuer_rfc = py_upper (row_value row ''issuer_rfc'');
         receiver_rfc = py_upper (row_value row ''receiver_rfc'');
         status = row_value row ''status'';
         effect = row_value row ''effect'';
         issue_date = metadata_datetime (row_value row ''issue_date'');
         amount = decimal_of (str_or (row_value row ''total'') ''0'');
         errors =
           err_if (\<not> dollar uuid_shape uuid) ''uuid must be a valid UUID''
           @ err_if (issuer_rfc = []) ''rfcEmisor is required''
           @ err_if (receiver_rfc = []) ''rfcReceptor is required''
           @ err_if (status = []) ''estadoComprobante is required''
           @ err_if (effect = []) ''tipoComprobante is required''
           @ err_if (issue_date = None) ''fechaEmision must be ISO datetime or YYYY-MM-DD''
           @ err_if (amount = None) ''montoTotal must be decimal''
     in if errors \<noteq> [] then Inl errors
        else Inr \<lparr>me_uuid = uuid, me_issuer_rfc = issuer_rfc,
          me_issuer_name = str_or (row_value row ''issuer_name'') ''Synthetic Issuer'',
          me_receiver_rfc = receiver_rfc,
          me_receiver_name = str_or (row_value row ''receiver_name'') ''Synthetic Receiver'',
          me_issue_date = the issue_date, me_total = the amount, me_status = status, me_effect = effect,
          me_source_package_id = str_or (row_value row ''source_package_id'') source_package_id\<rparr>)"

subsection \<open>A file\<close>

record InvalidMetadataRow =
  imr_line_number :: nat
  imr_errors :: "string list"
  imr_raw :: "(string \<times> string) list"

record MetadataParseResult =
  mpr_entries :: "MetadataEntry list"
  mpr_invalid_rows :: "InvalidMetadataRow list"

definition accepted_count :: "MetadataParseResult \<Rightarrow> nat" where
  "accepted_count r = length (mpr_entries r)"

definition rejected_count :: "MetadataParseResult \<Rightarrow> nat" where
  "rejected_count r = length (mpr_invalid_rows r)"

fun sort_rows :: "string \<Rightarrow> nat \<Rightarrow> (string \<times> string) list list \<Rightarrow> MetadataParseResult" where
  "sort_rows source_package_id offset [] = \<lparr>mpr_entries = [], mpr_invalid_rows = []\<rparr>"
| "sort_rows source_package_id offset (row # rows) =
     (let r = sort_rows source_package_id (offset + 1) rows in
      case entry_from_row row source_package_id of
        Inl errors \<Rightarrow> r\<lparr>mpr_invalid_rows :=
           \<lparr>imr_line_number = offset, imr_errors = errors, imr_raw = row\<rparr> # mpr_invalid_rows r\<rparr>
      | Inr entry \<Rightarrow> r\<lparr>mpr_entries := entry # mpr_entries r\<rparr>)"

definition parse_metadata_bytes ::
  "(string \<Rightarrow> string result) \<Rightarrow> string \<Rightarrow> string option \<Rightarrow> string \<Rightarrow> MetadataParseResult result" where
  "parse_metadata_bytes decode content delimiter source_package_id =
     bindR (decode_utf8_sig decode content) (\<lambda>t.
     bindR (chosen_delimiter delimiter t) (\<lambda>d.
     bindR (csv_reader d t) (\<lambda>rows.
       Inr (sort_rows source_package_id 2 (dict_rows rows)))))"

text \<open>A record with a value for every field is the dictionary of its stripped values.\<close>

lemma update_fresh: "k \<notin> fst ` set d \<Longrightarrow> AList.update k v d = d @ [(k, v)]"
  by (induction d) auto

lemma fold_update_fresh:
  assumes "distinct (map (\<lambda>x. f (fst x)) kvs)" "fst ` set d \<inter> (\<lambda>x. f (fst x)) ` set kvs = {}"
  shows "fold (\<lambda>(k, c). AList.update (f k) (g c)) kvs d = d @ map (\<lambda>(k, c). (f k, g c)) kvs"
  using assms
proof (induction kvs arbitrary: d)
  case (Cons x kvs)
  obtain k c where x: "x = (k, c)" by (cases x)
  have "AList.update (f k) (g c) d = d @ [(f k, g c)]"
    using Cons.prems(2) x by (intro update_fresh) auto
  then show ?case using Cons.IH [of "d @ [(f k, g c)]"] Cons.prems x by auto
qed simp

lemma full_row:
  assumes "length row = length names" "distinct names" "list_all (\<lambda>n. py_strip n = n) names"
  shows "normalized_row (dict_row names row) = zip names (map py_strip row)"
proof -
  have id: "fold (\<lambda>(k, v). AList.update k v) kvs d = fold (\<lambda>(k, c). AList.update (id k) (id c)) kvs d" for kvs and d :: "(string option \<times> cell) list"
    by simp
  have d: "dict_row names row = zip (map Some names) (map CText row)"
    using assms fold_update_fresh [of id "zip (map Some names) (map CText row)" "[]" id]
    by (simp add: dict_row_def set_cells_def comp_def distinct_map map_fst_zip flip: map_map)
  have k: "map (\<lambda>x. py_strip (opt_str (fst x))) (zip (map Some names) (map CText row)) = names"
    using assms by (simp add: zip_map_map comp_def case_prod_beta opt_str_def) (induction names row rule: list_induct2'; auto)
  have "normalized_row (dict_row names row) = map (\<lambda>(k, c). (py_strip (opt_str k), py_strip (cell_text c))) (zip (map Some names) (map CText row))"
    unfolding normalized_row_def d using fold_update_fresh [of "\<lambda>k. py_strip (opt_str k)" "zip (map Some names) (map CText row)" "[]" "\<lambda>c. py_strip (cell_text c)"] k assms(2) by simp
  also have "\<dots> = zip names (map py_strip row)"
    using assms(1,3) by (induction names row rule: list_induct2') (auto simp: opt_str_def cell_text_def)
  finally show ?thesis .
qed

subsection \<open>Properties\<close>

definition row_stripped :: "(string \<times> string) list \<Rightarrow> bool" where
  "row_stripped row \<longleftrightarrow> list_all (\<lambda>(k, v). py_strip v = v) row"

lemma set_update_subset: "set (AList.update k v xs) \<subseteq> insert (k, v) (set xs)"
  by (induction xs) auto

lemma row_stripped_normalized: "row_stripped (normalized_row d)"
proof -
  have "row_stripped (fold (\<lambda>(k, c). AList.update (py_strip (opt_str k)) (py_strip (cell_text c))) d row)"
    if "row_stripped row" for row
    using that
  proof (induction d arbitrary: row)
    case (Cons x d)
    have "row_stripped (AList.update (py_strip (opt_str k)) (py_strip (cell_text c)) row)" for k c
      using Cons.prems set_update_subset [of "py_strip (opt_str k)" "py_strip (cell_text c)" row]
      by (auto simp: row_stripped_def list_all_iff)
    then show ?case using Cons.IH by (cases x) simp
  qed simp
  then show ?thesis by (simp add: normalized_row_def row_stripped_def)
qed

lemma row_value_stripped: "row_stripped row \<Longrightarrow> py_strip (row_value row k) = row_value row k"
  by (auto simp: row_value_def row_stripped_def list_all_iff opt_str_def dest!: map_of_SomeD split: option.splits)

definition entry_ok :: "MetadataEntry \<Rightarrow> bool" where
  "entry_ok e \<longleftrightarrow>
     uuid_shape (me_uuid e) \<and> py_upper (me_uuid e) = me_uuid e
     \<and> me_issuer_rfc e \<noteq> [] \<and> py_upper (me_issuer_rfc e) = me_issuer_rfc e
     \<and> me_receiver_rfc e \<noteq> [] \<and> py_upper (me_receiver_rfc e) = me_receiver_rfc e
     \<and> me_issuer_name e \<noteq> [] \<and> me_receiver_name e \<noteq> [] \<and> me_status e \<noteq> [] \<and> me_effect e \<noteq> []
     \<and> (\<exists>t off. me_issue_date e = Aware t off)"

lemma err_if_Nil [simp]: "err_if c m = [] \<longleftrightarrow> \<not> c"
  by (simp add: err_if_def)

lemma metadata_datetime_aware: "metadata_datetime v = Some p \<Longrightarrow> \<exists>t off. p = Aware t off"
proof -
  assume "metadata_datetime v = Some p"
  then obtain z where "p = (case z of Naive t \<Rightarrow> Aware t 0 | Aware t off \<Rightarrow> Aware t off)"
    by (auto simp: metadata_datetime_def split: if_splits)
  then show ?thesis by (cases z) auto
qed

lemma dollar_stripped:
  assumes "dollar P (py_upper v)" "py_strip v = v"
  shows "P (py_upper v)"
proof (rule ccontr)
  assume "\<not> P (py_upper v)"
  then have l: "py_upper v \<noteq> []" "last (py_upper v) = CHR 0x0A" using assms(1) by (auto simp: dollar_def)
  then have v: "v \<noteq> []" by auto
  have "char_is_space (last (py_upper v))" unfolding l(2) by code_simp
  then have "char_is_space (last v)" using v by (simp add: py_upper_def last_map)
  then show False using py_strip_ends [of v] assms(2) v by simp
qed

lemma entry_from_row_ok:
  assumes "entry_from_row row sp = Inr e" "row_stripped row"
  shows "entry_ok e"
proof -
  let ?d = "metadata_datetime (row_value row ''issue_date'')"
  have c: "dollar uuid_shape (py_upper (row_value row ''uuid''))"
    "py_upper (row_value row ''issuer_rfc'') \<noteq> []" "py_upper (row_value row ''receiver_rfc'') \<noteq> []"
    "row_value row ''status'' \<noteq> []" "row_value row ''effect'' \<noteq> []" "?d \<noteq> None"
    "e = e\<lparr>me_uuid := py_upper (row_value row ''uuid''), me_issuer_rfc := py_upper (row_value row ''issuer_rfc''),
        me_issuer_name := str_or (row_value row ''issuer_name'') ''Synthetic Issuer'',
        me_receiver_rfc := py_upper (row_value row ''receiver_rfc''),
        me_receiver_name := str_or (row_value row ''receiver_name'') ''Synthetic Receiver'',
        me_issue_date := the ?d, me_status := row_value row ''status'', me_effect := row_value row ''effect''\<rparr>"
    using assms(1) by (auto simp: entry_from_row_def Let_def split: if_splits)
  have "uuid_shape (py_upper (row_value row ''uuid''))"
    using dollar_stripped [OF c(1)] row_value_stripped [OF assms(2)] by simp
  moreover have "\<exists>t off. the ?d = Aware t off" using c(6) metadata_datetime_aware by auto
  ultimately show ?thesis using c(1-6)
    by (subst c(7)) (simp add: entry_ok_def py_upper_idem str_or_def)
qed

lemma entry_from_row_errors: "entry_from_row row sp = Inl es \<Longrightarrow> es \<noteq> []"
  by (auto simp: entry_from_row_def Let_def split: if_splits)

lemma sort_rows_facts:
  assumes "list_all row_stripped rows"
  shows "length (mpr_entries (sort_rows sp n rows)) + length (mpr_invalid_rows (sort_rows sp n rows)) = length rows
    \<and> list_all entry_ok (mpr_entries (sort_rows sp n rows))
    \<and> list_all (\<lambda>i. imr_errors i \<noteq> [] \<and> n \<le> imr_line_number i \<and> imr_line_number i < n + length rows
          \<and> imr_raw i = rows ! (imr_line_number i - n)
          \<and> entry_from_row (imr_raw i) sp = Inl (imr_errors i)) (mpr_invalid_rows (sort_rows sp n rows))
    \<and> sorted_wrt (<) (map imr_line_number (mpr_invalid_rows (sort_rows sp n rows)))"
  using assms
proof (induction rows arbitrary: n)
  case (Cons row rows)
  have "list_all row_stripped rows" using Cons.prems by simp
  note IH = Cons.IH [OF this, of "n + 1"]
  have nth: "(row # rows) ! (k - n) = rows ! (k - (n + 1))" if "n + 1 \<le> k" for k
    using that by (simp add: nth_Cons')
  show ?case
  proof (cases "entry_from_row row sp")
    case (Inl es)
    then show ?thesis using IH nth entry_from_row_errors [OF Inl]
      by (auto simp: Let_def list_all_iff Suc_le_eq)
  next
    case (Inr e)
    then show ?thesis using IH nth entry_from_row_ok [OF Inr] Cons.prems
      by (auto simp: Let_def list_all_iff)
  qed
qed simp

text \<open>C16: no row of an inventory is lost or taken silently: when a file parses, every record after the
  header that is not blank is either an entry or an invalid row with at least one error, the record it was
  and its number, and the numbers increase; every entry has a UUID in upper case, RFCs in upper case, a
  status, an effect and a date with its offset.\<close>

theorem metadata_rows_accounted:
  assumes "parse_metadata_bytes decode content delimiter sp = Inr r"
  shows "\<exists>t d rows. decode_utf8_sig decode content = Inr t \<and> chosen_delimiter delimiter t = Inr d
    \<and> csv_reader d t = Inr rows
    \<and> accepted_count r + rejected_count r = length (filter (\<lambda>x. x \<noteq> []) (tl rows))
    \<and> list_all entry_ok (mpr_entries r)
    \<and> list_all (\<lambda>i. imr_errors i \<noteq> [] \<and> 2 \<le> imr_line_number i
          \<and> imr_line_number i < 2 + length (dict_rows rows)
          \<and> imr_raw i = dict_rows rows ! (imr_line_number i - 2)
          \<and> entry_from_row (imr_raw i) sp = Inl (imr_errors i)) (mpr_invalid_rows r)
    \<and> sorted_wrt (<) (map imr_line_number (mpr_invalid_rows r))"
proof -
  obtain t d rows where t: "decode_utf8_sig decode content = Inr t" "chosen_delimiter delimiter t = Inr d"
    "csv_reader d t = Inr rows" and r: "r = sort_rows sp 2 (dict_rows rows)"
    using assms unfolding parse_metadata_bytes_def by (elim bindR_InrE) auto
  have l: "length (dict_rows rows) = length (filter (\<lambda>x. x \<noteq> []) (tl rows))"
    by (cases rows) (simp_all add: dict_rows_def)
  have s: "list_all row_stripped (dict_rows rows)"
    by (cases rows) (simp_all add: dict_rows_def list_all_iff row_stripped_normalized)
  show ?thesis
    using t sort_rows_facts [OF s, of sp 2] l
    by (intro exI [of _ t] exI [of _ d] exI [of _ rows]) (simp add: r accepted_count_def rejected_count_def)
qed

definition example_file :: string where
  "example_file = [CHR 0xEF, CHR 0xBB, CHR 0xBF] @ ''uuid|estado'' @ [CHR 0x0A] @ ''x|'' @ [CHR 0x0A]"

lemma example_file_parsed:
  "map_sum id (\<lambda>r. (accepted_count r, rejected_count r)) (parse_metadata_bytes Inr example_file None []) = Inr (0, 1)"
  by code_simp

theorem metadata_rows_accounted_witness:
  "\<exists>r i. parse_metadata_bytes Inr example_file None [] = Inr r \<and> mpr_invalid_rows r = [i] \<and> imr_errors i \<noteq> []
     \<and> 2 \<le> imr_line_number i"
proof -
  obtain r where r: "parse_metadata_bytes Inr example_file None [] = Inr r" "rejected_count r = 1"
    using example_file_parsed by (cases "parse_metadata_bytes Inr example_file None []") auto
  then show ?thesis
    using metadata_rows_accounted [OF r(1)] by (auto simp: rejected_count_def length_Suc_conv)
qed

end
