(* ===== verification/RecoveryPayloads.thy ===== *)
theory RecoveryPayloads
  imports MetadataParser
begin

text \<open>
  The forms in which \<open>src/cfdi_vault/recovery_service.py\<close> stores and sends its data: the payload of a
  queued request, the CSV index of the metadata of a request, and the texts derived from an entry. The
  encoding of text that is not ASCII is a parameter, as its decoding is in MetadataParser.
\<close>

subsection \<open>The payload of a request\<close>

definition query_payload :: "DownloadQuery \<Rightarrow> jobj" where
  "query_payload q =
     [(''tenant_id'', JStr (q_tenant_id q)),
      (''requester_rfc'', JStr (py_upper (q_requester_rfc q))),
      (''direction'', JStr (DownloadDirection_value (q_direction q))),
      (''request_type'', JStr (RequestType_value (q_request_type q))),
      (''period'', (case q_period q of None \<Rightarrow> JNull | Some p \<Rightarrow> period_as_dict p)),
      (''issuer_rfc'', json_opt (q_issuer_rfc q)),
      (''receiver_rfcs'', JArr (map JStr (q_receiver_rfcs q))),
      (''uuid'', json_opt (q_uuid q)),
      (''document_status'', json_opt (q_document_status q)),
      (''document_type'', json_opt (q_document_type q)),
      (''complement'', json_opt (q_complement q)),
      (''rfc_on_behalf'', json_opt (q_rfc_on_behalf q)),
      (''criteria_hash'', JStr (criteria_hash q))]"

definition text_datetime :: "json \<Rightarrow> pydt result" where
  "text_datetime v = (case fromisoformat (py_str v) of Some d \<Rightarrow> Inr d | None \<Rightarrow> Inl (ValueError (py_str v)))"

definition payload_period :: "jobj \<Rightarrow> DateTimePeriod option result" where
  "payload_period d =
     (case jget d ''period'' of
        JObj p \<Rightarrow> bindR (jitem p ''start'') (\<lambda>s. bindR (text_datetime s) (\<lambda>s'.
                  bindR (jitem p ''end'') (\<lambda>e. bindR (text_datetime e) (\<lambda>e'.
                  bindR (mk_period s' e') (\<lambda>q. Inr (Some q))))))
      | _ \<Rightarrow> Inr None)"

text \<open>\<open>str(payload[k]) if payload.get(k) else None\<close>\<close>

definition payload_opt :: "jobj \<Rightarrow> string \<Rightarrow> string option" where
  "payload_opt d k = (if json_truthy (jget d k) then Some (py_str (jget d k)) else None)"

text \<open>\<open>tuple(str(v) for v in (payload.get(k) or ()))\<close>: a text iterates over its characters and a
  dictionary over its keys; another truthy value is not iterable.\<close>

definition payload_texts :: "jobj \<Rightarrow> string \<Rightarrow> string list result" where
  "payload_texts d k =
     (if \<not> json_truthy (jget d k) then Inr []
      else case jget d k of
          JArr xs \<Rightarrow> Inr (map py_str xs)
        | JStr s \<Rightarrow> Inr (map (\<lambda>c. [c]) s)
        | JObj kvs \<Rightarrow> Inr (map fst kvs)
        | _ \<Rightarrow> Inl TypeError)"

definition query_from_payload :: "jobj \<Rightarrow> DownloadQuery result" where
  "query_from_payload d =
     bindR (payload_period d) (\<lambda>period.
     bindR (jitem d ''tenant_id'') (\<lambda>tenant.
     bindR (jitem d ''requester_rfc'') (\<lambda>rfc.
     bindR (jitem d ''direction'') (\<lambda>dir. bindR (DownloadDirection_of (py_str dir)) (\<lambda>direction.
     bindR (jitem d ''request_type'') (\<lambda>rt. bindR (RequestType_of (py_str rt)) (\<lambda>request_type.
     bindR (payload_texts d ''receiver_rfcs'') (\<lambda>receivers.
       Inr \<lparr>q_tenant_id = py_str tenant, q_requester_rfc = py_str rfc, q_direction = direction,
            q_request_type = request_type, q_period = period, q_issuer_rfc = payload_opt d ''issuer_rfc'',
            q_receiver_rfcs = receivers, q_uuid = payload_opt d ''uuid'',
            q_document_status = payload_opt d ''document_status'', q_document_type = payload_opt d ''document_type'',
            q_complement = payload_opt d ''complement'', q_rfc_on_behalf = payload_opt d ''rfc_on_behalf'',
            q_recovery_variant_reason = None\<rparr>))))))))"

subsection \<open>The metadata index\<close>

definition encode_utf8 :: "(string \<Rightarrow> string) \<Rightarrow> string \<Rightarrow> string" where
  "encode_utf8 encode s = (if ascii_text s then s else encode s)"

definition index_fieldnames :: "string list" where
  "index_fieldnames = [''idSolicitud'', ''idPaquete'', ''uuid'', ''rfcEmisor'', ''rfcReceptor'', ''fechaEmision'',
     ''estadoComprobante'', ''tipoComprobante'']"

definition index_package :: "string list \<Rightarrow> MetadataEntry \<Rightarrow> string" where
  "index_package packages e =
     str_or (me_source_package_id e) (case packages of [] \<Rightarrow> [] | p # _ \<Rightarrow> p)"

definition index_row :: "string \<Rightarrow> string list \<Rightarrow> MetadataEntry \<Rightarrow> string list" where
  "index_row request_id packages e =
     [request_id, index_package packages e, me_uuid e, me_issuer_rfc e, me_receiver_rfc e,
      isoformat (me_issue_date e), me_status e, me_effect e]"

definition metadata_csv_text :: "string \<Rightarrow> string list \<Rightarrow> MetadataEntry list \<Rightarrow> string" where
  "metadata_csv_text request_id packages metadata =
     csv_writer (CHR '','') (index_fieldnames # map (index_row request_id packages) (sort_key me_uuid metadata))"

definition metadata_csv_bytes ::
  "(string \<Rightarrow> string) \<Rightarrow> string \<Rightarrow> string list \<Rightarrow> MetadataEntry list \<Rightarrow> string" where
  "metadata_csv_bytes encode request_id packages metadata =
     encode_utf8 encode (metadata_csv_text request_id packages metadata)"

subsection \<open>Texts of an entry\<close>

definition search_text :: "MetadataEntry \<Rightarrow> string" where
  "search_text e = py_lower (py_join '' ''
     [me_uuid e, me_issuer_rfc e, me_issuer_name e, me_receiver_rfc e, me_receiver_name e, me_status e, me_effect e])"

definition bytes_break :: "char \<Rightarrow> bool" where
  "bytes_break c \<longleftrightarrow> c = CHR 0x0A \<or> c = CHR 0x0D"

definition metadata_extension :: "string \<Rightarrow> string option \<Rightarrow> string" where
  "metadata_extension content delimiter =
     (let first_line = takeWhile (\<lambda>c. \<not> bytes_break c) content in
      if delimiter = Some ''|'' \<or> delimiter = Some [CHR 0x09] \<or> CHR ''|'' \<in> set first_line \<or> CHR 0x09 \<in> set first_line
      then ''txt'' else ''csv'')"

definition storage_period :: "pydt \<Rightarrow> DownloadQuery \<Rightarrow> pydt" where
  "storage_period now q = (case q_period q of Some p \<Rightarrow> p_start p | None \<Rightarrow> now)"

subsection \<open>A queued request asks for the same\<close>

definition opt_norm :: "string option \<Rightarrow> string option" where
  "opt_norm v = (if opt_truthy v then v else None)"

definition period_utc :: "DateTimePeriod option \<Rightarrow> bool" where
  "period_utc p \<longleftrightarrow>
     (case p of None \<Rightarrow> True
      | Some p \<Rightarrow> \<exists>s e. p = \<lparr>p_start = Aware s 0, p_end = Aware e 0\<rparr> \<and> dt_ok s \<and> dt_ok e \<and> s \<le> e)"

definition queued_query :: "DownloadQuery \<Rightarrow> DownloadQuery" where
  "queued_query q = q\<lparr>q_requester_rfc := py_upper (q_requester_rfc q), q_issuer_rfc := opt_norm (q_issuer_rfc q),
     q_uuid := opt_norm (q_uuid q), q_document_status := opt_norm (q_document_status q),
     q_document_type := opt_norm (q_document_type q), q_complement := opt_norm (q_complement q),
     q_rfc_on_behalf := opt_norm (q_rfc_on_behalf q), q_recovery_variant_reason := None\<rparr>"

lemma payload_get [simp]:
  "jget (query_payload q) ''period'' = (case q_period q of None \<Rightarrow> JNull | Some p \<Rightarrow> period_as_dict p)"
  "jget (query_payload q) ''issuer_rfc'' = json_opt (q_issuer_rfc q)"
  "jget (query_payload q) ''receiver_rfcs'' = JArr (map JStr (q_receiver_rfcs q))"
  "jget (query_payload q) ''uuid'' = json_opt (q_uuid q)"
  "jget (query_payload q) ''document_status'' = json_opt (q_document_status q)"
  "jget (query_payload q) ''document_type'' = json_opt (q_document_type q)"
  "jget (query_payload q) ''complement'' = json_opt (q_complement q)"
  "jget (query_payload q) ''rfc_on_behalf'' = json_opt (q_rfc_on_behalf q)"
  by (simp_all add: query_payload_def jget_def)

lemma payload_item [simp]:
  "jitem (query_payload q) ''tenant_id'' = Inr (JStr (q_tenant_id q))"
  "jitem (query_payload q) ''requester_rfc'' = Inr (JStr (py_upper (q_requester_rfc q)))"
  "jitem (query_payload q) ''direction'' = Inr (JStr (DownloadDirection_value (q_direction q)))"
  "jitem (query_payload q) ''request_type'' = Inr (JStr (RequestType_value (q_request_type q)))"
  by (simp_all add: query_payload_def jitem_def)

lemma payload_opt_json [simp]: "jget d k = json_opt v \<Longrightarrow> payload_opt d k = opt_norm v"
  by (auto simp: payload_opt_def opt_norm_def json_opt_def json_truthy_def opt_truthy_def opt_str_def split: option.split)

lemma payload_texts_JArr [simp]: "jget d k = JArr (map JStr xs) \<Longrightarrow> payload_texts d k = Inr xs"
  by (cases xs) (simp_all add: payload_texts_def json_truthy_def comp_def)

lemma payload_period_utc:
  assumes "period_utc (q_period q)"
  shows "payload_period (query_payload q) = Inr (q_period q)"
proof (cases "q_period q")
  case (Some p)
  then obtain s e where p: "p = \<lparr>p_start = Aware s 0, p_end = Aware e 0\<rparr>" "dt_ok s" "dt_ok e" "s \<le> e"
    using assms by (auto simp: period_utc_def)
  have "text_datetime (JStr (isoformat (Aware t 0))) = Inr (Aware t 0)" if "dt_ok t" for t
    using that by (simp add: text_datetime_def isoformat_Aware_0 isoformat_utc_def fromisoformat_iso_wall)
  then show ?thesis using Some p
    by (simp add: payload_period_def period_as_dict_def jitem_def mk_period_def pydt_lt_def)
qed (simp add: payload_period_def)

text \<open>C18: a request that is queued asks the worker for the same: reading the payload of a query with UTC
  bounds gives the query with its RFC in upper case and empty options as absent ones, only without the
  reason of a recovery variant. So, apart from that reason, the criteria the worker uses are those of the
  query with its empty options dropped.\<close>

theorem queued_query_roundtrip:
  assumes "period_utc (q_period q)"
  shows "query_from_payload (query_payload q) = Inr (queued_query q)
    \<and> criteria_key (queued_query q)
       = criteria_key (q\<lparr>q_document_status := opt_norm (q_document_status q), q_document_type := opt_norm (q_document_type q),
            q_complement := opt_norm (q_complement q), q_recovery_variant_reason := None\<rparr>)"
proof
  show "query_from_payload (query_payload q) = Inr (queued_query q)"
    by (simp add: query_from_payload_def payload_period_utc [OF assms]) (cases q, simp add: queued_query_def)
  have "upper_or_none (opt_norm v) = upper_or_none v" for v by (simp add: upper_or_none_def opt_norm_def)
      (simp add: opt_truthy_def opt_str_def)
  then show "criteria_key (queued_query q)
       = criteria_key (q\<lparr>q_document_status := opt_norm (q_document_status q), q_document_type := opt_norm (q_document_type q),
            q_complement := opt_norm (q_complement q), q_recovery_variant_reason := None\<rparr>)"
    by (simp add: criteria_key_def queued_query_def py_upper_idem)
qed

definition example_window :: DateTimePeriod where
  "example_window = \<lparr>p_start = Aware 0 0, p_end = Aware us_day 0\<rparr>"

lemma upper_aaa: "py_upper ''aaa'' = ''AAA''"
  by code_simp

theorem queued_query_roundtrip_witness:
  "query_from_payload (query_payload ((example_query ''aaa'' [''x''] (Some []))\<lparr>q_period := Some example_window\<rparr>))
   = Inr ((example_query ''AAA'' [''x''] None)\<lparr>q_period := Some example_window\<rparr>)"
  using queued_query_roundtrip [of "(example_query ''aaa'' [''x''] (Some []))\<lparr>q_period := Some example_window\<rparr>"]
  by (simp add: example_query_def example_window_def queued_query_def opt_norm_def opt_truthy_def opt_str_def
      period_utc_def dt_ok_def us_day_def max_ordinal_def upper_aaa)

text \<open>The variant reason is part of the criteria but not of the payload: the worker works on other criteria
  than the request that was stored.\<close>

lemma variant_reason_is_dropped:
  assumes "period_utc (q_period q)" "q_recovery_variant_reason q = Some reason"
  shows "\<exists>r. query_from_payload (query_payload q) = Inr r \<and> criteria_text r \<noteq> criteria_text q"
  using queued_query_roundtrip [OF assms(1)] assms(2)
  by (auto simp: criteria_text_eq_iff criteria_payload_eq_iff criteria_key_def queued_query_def)

subsection \<open>The metadata index can be read back\<close>

text \<open>The entries that the index can hold: as the parser makes them, with texts that stripping does not
  change, in ASCII and below the field limit, and a UTC date.\<close>

definition index_text :: "string \<Rightarrow> bool" where
  "index_text s \<longleftrightarrow> py_strip s = s \<and> ascii_text s \<and> length s \<le> csv_field_limit"

definition indexable :: "MetadataEntry \<Rightarrow> bool" where
  "indexable e \<longleftrightarrow> entry_ok e \<and> (\<exists>t. me_issue_date e = Aware t 0 \<and> dt_ok t)
     \<and> list_all index_text [me_uuid e, me_issuer_rfc e, me_receiver_rfc e, me_status e, me_effect e, me_source_package_id e]"

text \<open>What is read: the names and the amount are not in the index.\<close>

definition indexed_entry :: "string list \<Rightarrow> string \<Rightarrow> MetadataEntry \<Rightarrow> MetadataEntry" where
  "indexed_entry packages sp e = e\<lparr>me_issuer_name := ''Synthetic Issuer'', me_receiver_name := ''Synthetic Receiver'',
     me_total := dec_zero, me_source_package_id := str_or (index_package packages e) sp\<rparr>"

lemma ascii_append [simp]: "ascii_text (s @ t) \<longleftrightarrow> ascii_text s \<and> ascii_text t"
  by (simp add: ascii_text_def)

lemma ascii_csv_field: "ascii_text f \<Longrightarrow> ascii_text (csv_field d single f)"
proof -
  assume a: "ascii_text f"
  have "ascii_text (replace_char (CHR 0x22) [CHR 0x22, CHR 0x22] f)"
    using a by (induction f) (auto simp: replace_char_def ascii_text_def)
  moreover have "ascii_text [CHR 0x22]" by code_simp
  ultimately show ?thesis using a by (simp add: csv_field_def csv_quote_def ascii_text_def)
qed

lemma ascii_py_join: "list_all ascii_text xs \<Longrightarrow> ascii_text sep \<Longrightarrow> ascii_text (py_join sep xs)"
  by (induction sep xs rule: py_join.induct) (auto simp: ascii_text_def)

lemma ascii_csv_writer:
  assumes "list_all (list_all ascii_text) rows"
  shows "ascii_text (csv_writer (CHR '','') rows)"
proof -
  have c: "ascii_text [CHR '','']" "ascii_text [CHR 0x0D, CHR 0x0A]" by code_simp+
  have "ascii_text (csv_line (CHR '','') r)" if "r \<in> set rows" for r
    using assms that c unfolding csv_line_def
    by (auto simp: list_all_iff intro!: ascii_py_join ascii_csv_field)
  then show ?thesis by (auto simp: csv_writer_def ascii_text_def list_all_iff)
qed

lemma index_header_line:
  "csv_line (CHR '','') index_fieldnames =
     ''idSolicitud,idPaquete,uuid,rfcEmisor,rfcReceptor,fechaEmision,estadoComprobante,tipoComprobante'' @ [CHR 0x0D, CHR 0x0A]"
  by code_simp

lemma index_delimiter:
  "detect_delimiter (''idSolicitud,idPaquete,uuid,rfcEmisor,rfcReceptor,fechaEmision,estadoComprobante,tipoComprobante''
     @ [CHR 0x0D, CHR 0x0A] @ rest) = CHR '',''"
proof -
  let ?h = "''idSolicitud,idPaquete,uuid,rfcEmisor,rfcReceptor,fechaEmision,estadoComprobante,tipoComprobante''"
  have h: "list_all (\<lambda>c. \<not> splitlines_break c) ?h" by code_simp
  have b: "splitlines_break (CHR 0x0D)" by code_simp
  have "takeWhile (\<lambda>c. \<not> splitlines_break c) (?h @ [CHR 0x0D, CHR 0x0A] @ rest) = ?h"
    using h b by (subst takeWhile_append2) (auto simp: list_all_iff)
  moreover have "foldl (max_by_count ?h) (CHR 0x7E) [CHR ''|'', CHR '','', CHR 0x09] = CHR '',''" by code_simp
  ultimately show ?thesis unfolding detect_delimiter_def by simp
qed

lemma row_value_index:
  fixes a b c d e f g h
  defines "row \<equiv> zip index_fieldnames [a, b, c, d, e, f, g, h]"
  shows "row_value row ''uuid'' = c" "row_value row ''issuer_rfc'' = d" "row_value row ''receiver_rfc'' = e"
    "row_value row ''issuer_name'' = []" "row_value row ''receiver_name'' = []" "row_value row ''total'' = []"
    "row_value row ''issue_date'' = f" "row_value row ''status'' = g" "row_value row ''effect'' = h"
    "row_value row ''source_package_id'' = b"
  by (simp_all add: row_def row_value_def index_fieldnames_def FIELD_ALIASES_def opt_truthy_def opt_str_def)

lemma index_row_parsed:
  assumes "indexable e" "index_text request_id" "list_all index_text packages"
  shows "entry_from_row (normalized_row (dict_row index_fieldnames (index_row request_id packages e))) sp
    = Inr (indexed_entry packages sp e)"
proof -
  let ?r = "index_row request_id packages e"
  have names: "length ?r = length index_fieldnames" "distinct index_fieldnames"
    "list_all (\<lambda>n. py_strip n = n) index_fieldnames"
    by (simp add: index_row_def index_fieldnames_def, code_simp, code_simp)
  obtain t where t: "me_issue_date e = Aware t 0" "dt_ok t" using assms(1) by (auto simp: indexable_def)
  have iso: "isoformat (Aware t 0) = iso_wall t @ ''+00:00''"
    by (simp add: isoformat_Aware_0 isoformat_utc_def)
  have "py_strip (iso_wall t @ ''+00:00'') = iso_wall t @ ''+00:00''"
  proof (rule py_strip_fixed)
    have "hd (iso_wall t) \<in> set (iso_wall t)" by simp
    then have "char_is_digit (hd (iso_wall t)) \<or> hd (iso_wall t) \<in> {CHR ''-'', CHR '':'', CHR ''T'', CHR ''.''}"
      using iso_wall_chars by blast
    then show "\<not> char_is_space (hd (iso_wall t @ ''+00:00''))"
      by (auto simp: char_is_digit_def char_is_space_def char_code_def)
  qed (simp_all add: char_is_space_def char_code_def)
  moreover have "py_strip (index_package packages e) = index_package packages e"
    using assms by (cases packages) (auto simp: index_package_def str_or_def indexable_def index_text_def)
  ultimately have strip: "map py_strip ?r = ?r"
    using assms by (simp add: index_row_def t(1) iso indexable_def index_text_def)
  have "replace_char (CHR ''Z'') ''+00:00'' (iso_wall t @ ''+00:00'') = iso_wall t @ ''+00:00''"
    by (rule replace_char_absent) (simp add: iso_wall_not_in)
  then have date: "metadata_datetime (isoformat (Aware t 0)) = Some (Aware t 0)"
    by (simp add: metadata_datetime_def iso fromisoformat_iso_wall(2) [OF t(2)])
  have amount: "decimal_of ''0'' = Some dec_zero" by code_simp
  have ok: "entry_ok e" using assms(1) by (simp add: indexable_def)
  have row: "normalized_row (dict_row index_fieldnames ?r) = zip index_fieldnames ?r"
    using full_row [OF names] strip by simp
  show ?thesis
    unfolding row unfolding index_row_def
    unfolding entry_from_row_def row_value_index Let_def t(1) date
    using ok t(1) amount
    by (simp add: entry_ok_def dollar_def err_if_def str_or_def indexed_entry_def)
qed

lemma iso_cell: "ascii_text (isoformat (Aware t 0)) \<and> length (isoformat (Aware t 0)) \<le> csv_field_limit"
proof -
  have "ascii_text (iso_wall t)"
    by (auto simp: ascii_text_def list_all_iff dest!: iso_wall_chars) (auto simp: char_is_digit_def char_code_def)
  moreover have "length (iso_wall t) \<le> 40"
    by (simp add: iso_wall_def iso_date_def iso_time_def split: prod.split)
  ultimately show ?thesis
    by (simp add: isoformat_Aware_0 isoformat_utc_def csv_field_limit_def) (simp add: ascii_text_def char_code_def)
qed

lemma sort_rows_entries:
  assumes "\<And>x. x \<in> set xs \<Longrightarrow> entry_from_row (f x) sp = Inr (g x)"
  shows "sort_rows sp n (map f xs) = \<lparr>mpr_entries = map g xs, mpr_invalid_rows = []\<rparr>"
  using assms by (induction xs arbitrary: n) auto

text \<open>C17: the index of a request can be read back: when the metadata of a request is written as its CSV
  index and the file is parsed, every entry comes back, sorted by UUID and none rejected, with its UUID,
  RFCs, date, status, effect and package; only the names and the amount, which the index does not hold,
  are the defaults of the parser. Nothing in the texts can break the format.\<close>

theorem metadata_index_reads_back:
  assumes "list_all indexable metadata" "index_text request_id" "list_all index_text packages"
  shows "parse_metadata_bytes decode (metadata_csv_bytes encode request_id packages metadata) None sp
    = Inr \<lparr>mpr_entries = map (indexed_entry packages sp) (sort_key me_uuid metadata), mpr_invalid_rows = []\<rparr>"
proof -
  let ?ms = "sort_key me_uuid metadata"
  let ?rows = "index_fieldnames # map (index_row request_id packages) ?ms"
  let ?t = "metadata_csv_text request_id packages metadata"
  have iso: "ascii_text (isoformat (me_issue_date e)) \<and> length (isoformat (me_issue_date e)) \<le> csv_field_limit"
    if "e \<in> set metadata" for e
    using assms(1) that iso_cell by (fastforce simp: list_all_iff indexable_def)
  have head: "list_all (\<lambda>f. ascii_text f \<and> length f \<le> csv_field_limit) index_fieldnames"
    by (simp add: index_fieldnames_def csv_field_limit_def ascii_text_def char_code_def)
  have "index_text (index_package packages e)" if "e \<in> set metadata" for e
    using assms(1,3) that by (cases packages) (auto simp: list_all_iff indexable_def index_package_def str_or_def)
  then have cells: "list_all (\<lambda>f. ascii_text f \<and> length f \<le> csv_field_limit) r" if "r \<in> set ?rows" for r
    using that head iso assms(1,2) by (auto simp: list_all_iff index_row_def indexable_def index_text_def)
  have ascii: "ascii_text ?t" unfolding metadata_csv_text_def using cells
    by (intro ascii_csv_writer) (auto simp: list_all_iff)
  have "csv_reader (CHR '','') ?t = Inr ?rows" unfolding metadata_csv_text_def
  proof (rule csv_roundtrip)
    show "list_all csv_row_ok ?rows" using cells
      by (auto simp: list_all_iff csv_row_ok_def index_row_def index_fieldnames_def)
  qed (simp add: csv_delimiter_def line_break_def)
  moreover have "detect_delimiter ?t = CHR '',''"
    unfolding metadata_csv_text_def csv_writer_def list.map concat.simps index_header_line append_assoc
    by (rule index_delimiter)
  moreover have "decode_utf8_sig decode (metadata_csv_bytes encode request_id packages metadata) = Inr ?t"
  proof -
    have "take 3 ?t \<noteq> [CHR 0xEF, CHR 0xBB, CHR 0xBF]"
      unfolding metadata_csv_text_def csv_writer_def list.map concat.simps index_header_line by simp
    then show ?thesis using ascii by (simp add: decode_utf8_sig_def metadata_csv_bytes_def encode_utf8_def)
  qed
  moreover have "sort_rows sp 2 (dict_rows ?rows)
      = \<lparr>mpr_entries = map (indexed_entry packages sp) ?ms, mpr_invalid_rows = []\<rparr>"
  proof -
    have "filter (\<lambda>r. r \<noteq> []) (map (index_row request_id packages) ?ms) = map (index_row request_id packages) ?ms"
      by (auto simp: filter_id_conv index_row_def)
    then have "dict_rows ?rows = map (\<lambda>e. normalized_row (dict_row index_fieldnames (index_row request_id packages e))) ?ms"
      by (simp add: dict_rows_def)
    then show ?thesis using assms
      by (simp only:) (rule sort_rows_entries, auto simp: list_all_iff intro!: index_row_parsed)
  qed
  ultimately show ?thesis by (simp add: parse_metadata_bytes_def chosen_delimiter_def)
qed

definition example_entry :: "string \<Rightarrow> string \<Rightarrow> MetadataEntry" where
  "example_entry uuid status = \<lparr>me_uuid = uuid, me_issuer_rfc = ''AAA010101AAA'', me_issuer_name = ''A'',
     me_receiver_rfc = ''BBB'', me_receiver_name = ''B'', me_issue_date = Aware 0 0, me_total = DFin False 5 0,
     me_status = status, me_effect = ''I'', me_source_package_id = []\<rparr>"

lemma example_entries:
  "list_all indexable [example_entry ''B0000000-0000-4000-8000-000000000002'' ''a,;b'',
     example_entry ''A0000000-0000-4000-8000-000000000001'' ''vigente'']"
proof -
  have t: "dt_ok 0" by (simp add: dt_ok_def max_ordinal_def us_day_def)
  have u: "uuid_shape ''B0000000-0000-4000-8000-000000000002''" "uuid_shape ''A0000000-0000-4000-8000-000000000001''"
    "py_upper ''B0000000-0000-4000-8000-000000000002'' = ''B0000000-0000-4000-8000-000000000002''"
    "py_upper ''A0000000-0000-4000-8000-000000000001'' = ''A0000000-0000-4000-8000-000000000001''"
    "py_upper ''AAA010101AAA'' = ''AAA010101AAA''" "py_upper ''BBB'' = ''BBB''"
    by code_simp+
  have s: "list_all (\<lambda>s. py_strip s = s \<and> ascii_text s) [''B0000000-0000-4000-8000-000000000002'',
      ''A0000000-0000-4000-8000-000000000001'', ''AAA010101AAA'', ''BBB'', ''a,;b'', ''vigente'', ''I'', []]"
    by code_simp
  show ?thesis using t u s
    by (simp add: indexable_def entry_ok_def example_entry_def index_text_def csv_field_limit_def)
qed

lemma example_index_texts: "index_text ''REQ-1''" "list_all index_text [''PKG'']"
proof -
  have "list_all (\<lambda>s. py_strip s = s \<and> ascii_text s) [''REQ-1'', ''PKG'']" by code_simp
  then show "index_text ''REQ-1''" "list_all index_text [''PKG'']" by (simp_all add: index_text_def csv_field_limit_def)
qed

theorem metadata_index_reads_back_witness:
  "\<exists>r. parse_metadata_bytes Inr (metadata_csv_bytes id ''REQ-1'' [''PKG'']
      [example_entry ''B0000000-0000-4000-8000-000000000002'' ''a,;b'',
       example_entry ''A0000000-0000-4000-8000-000000000001'' ''vigente'']) None [] = Inr r \<and> accepted_count r = 2"
  using metadata_index_reads_back [OF example_entries example_index_texts, of Inr id "[]"]
  by (simp add: accepted_count_def)

end
