(* ===== verification/Secrets.thy ===== *)
theory Secrets
  imports PyUrl PyDatetime
begin

text \<open>
  \<open>src/cfdi_vault/secrets.py\<close> and the provider of \<open>src/cfdi_vault/windows_secrets.py\<close>: custody of credential
  values behind references, with an audit event for every access. The Windows provider works on a
  backend, a record of the four operations of \<open>WindowsCredentialBackend\<close>; the in-memory backend of the
  module is an instance, the ctypes one (calls of the operating system) is not modelled. The clock is an
  input of every operation.
\<close>

subsection \<open>References, values, events\<close>

datatype CredentialKind = CERTIFICATE | PRIVATE_KEY | PHRASE | GENERIC

fun CredentialKind_value :: "CredentialKind \<Rightarrow> string" where
  "CredentialKind_value CERTIFICATE = ''certificate''"
| "CredentialKind_value PRIVATE_KEY = ''private_key''"
| "CredentialKind_value PHRASE = ''phrase''"
| "CredentialKind_value GENERIC = ''generic''"

datatype CredentialAccessOutcome = GRANTED | STORED | DELETED | MISSING | DENIED


datatype CredentialAccessAction = CREATE | READ | VERIFY | DELETE


record CredentialReference =
  cr_uri :: string
  cr_kind :: CredentialKind

definition provider_scheme :: "CredentialReference \<Rightarrow> string result" where
  "provider_scheme ref = bindR (urlparse (cr_uri ref)) (\<lambda>u. Inr (u_scheme u))"

record SecretValue =
  sv_value :: string
  sv_kind :: CredentialKind
  sv_reference_uri :: string

definition secret_redacted :: "SecretValue \<Rightarrow> string" where
  "secret_redacted v = ''<redacted>''"

definition secret_repr :: "SecretValue \<Rightarrow> string" where
  "secret_repr v = ''SecretValue(kind='' @ [CHR 0x27] @ CredentialKind_value (sv_kind v) @ [CHR 0x27]
     @ '', value='' @ [CHR 0x27] @ ''<redacted>'' @ [CHR 0x27] @ '')''"

record AuditEvent =
  ae_provider :: string
  ae_reference_uri :: string
  ae_kind :: CredentialKind
  ae_purpose :: string
  ae_outcome :: CredentialAccessOutcome
  ae_action :: CredentialAccessAction
  ae_occurred_at :: instant
  ae_reason :: "string option"


definition mk_event :: "string \<Rightarrow> CredentialReference \<Rightarrow> string \<Rightarrow> instant \<Rightarrow> CredentialAccessAction
    \<Rightarrow> CredentialAccessOutcome \<Rightarrow> string option \<Rightarrow> AuditEvent" where
  "mk_event provider ref purpose now action outcome reason =
     \<lparr>ae_provider = provider, ae_reference_uri = cr_uri ref, ae_kind = cr_kind ref, ae_purpose = purpose,
      ae_outcome = outcome, ae_action = action, ae_occurred_at = now, ae_reason = reason\<rparr>"

subsection \<open>The dummy provider\<close>

record dummy_provider =
  dp_values :: "string \<rightharpoonup> string"
  dp_events :: "AuditEvent list"

definition dummy_scheme :: string where "dummy_scheme = ''local-dev-dummy''"

definition dummy_record :: "CredentialReference \<Rightarrow> string \<Rightarrow> instant \<Rightarrow> CredentialAccessAction
    \<Rightarrow> CredentialAccessOutcome \<Rightarrow> string option \<Rightarrow> dummy_provider \<Rightarrow> dummy_provider" where
  "dummy_record ref purpose now action outcome reason p =
     p\<lparr>dp_events := dp_events p @ [mk_event dummy_scheme ref purpose now action outcome reason]\<rparr>"

definition unsupported :: exc where
  "unsupported = CredentialProviderError ''credential reference uses an unsupported provider scheme''"

definition bad_scheme :: "string option" where "bad_scheme = Some ''unsupported provider scheme''"
definition not_registered :: "string option" where "not_registered = Some ''reference not registered in dummy provider''"

definition dummy_store :: "instant \<Rightarrow> CredentialReference \<Rightarrow> string \<Rightarrow> string \<Rightarrow> dummy_provider \<Rightarrow> unit result \<times> dummy_provider" where
  "dummy_store now ref v purpose p =
     (case provider_scheme ref of
        Inl e \<Rightarrow> (Inl e, p)
      | Inr scheme \<Rightarrow>
          if scheme \<noteq> dummy_scheme
          then (Inl unsupported, dummy_record ref purpose now CREATE DENIED bad_scheme p)
          else (Inr (), dummy_record ref purpose now CREATE STORED None
                  (p\<lparr>dp_values := (dp_values p)(cr_uri ref \<mapsto> v)\<rparr>)))"

definition dummy_resolve :: "instant \<Rightarrow> CredentialReference \<Rightarrow> string \<Rightarrow> dummy_provider \<Rightarrow> SecretValue result \<times> dummy_provider" where
  "dummy_resolve now ref purpose p =
     (case provider_scheme ref of
        Inl e \<Rightarrow> (Inl e, p)
      | Inr scheme \<Rightarrow>
          if scheme \<noteq> dummy_scheme
          then (Inl unsupported, dummy_record ref purpose now READ DENIED bad_scheme p)
          else case dp_values p (cr_uri ref) of
              None \<Rightarrow> (Inl (CredentialProviderError ''credential reference is not registered in dummy provider''),
                       dummy_record ref purpose now READ MISSING not_registered p)
            | Some v \<Rightarrow> (Inr \<lparr>sv_value = v, sv_kind = cr_kind ref, sv_reference_uri = cr_uri ref\<rparr>,
                         dummy_record ref purpose now READ GRANTED None p))"

definition dummy_exists :: "instant \<Rightarrow> CredentialReference \<Rightarrow> string \<Rightarrow> dummy_provider \<Rightarrow> bool result \<times> dummy_provider" where
  "dummy_exists now ref purpose p =
     (case (if dp_values p (cr_uri ref) = None then Inr False
            else bindR (provider_scheme ref) (\<lambda>scheme. Inr (scheme = dummy_scheme))) of
        Inl e \<Rightarrow> (Inl e, p)
      | Inr found \<Rightarrow> (Inr found,
          dummy_record ref purpose now VERIFY (if found then GRANTED else MISSING) (if found then None else not_registered) p))"

definition dummy_delete :: "instant \<Rightarrow> CredentialReference \<Rightarrow> string \<Rightarrow> dummy_provider \<Rightarrow> bool result \<times> dummy_provider" where
  "dummy_delete now ref purpose p =
     (case provider_scheme ref of
        Inl e \<Rightarrow> (Inl e, p)
      | Inr scheme \<Rightarrow>
          if scheme \<noteq> dummy_scheme
          then (Inl unsupported, dummy_record ref purpose now DELETE DENIED bad_scheme p)
          else (let existed = dp_values p (cr_uri ref) \<noteq> None in
                (Inr existed, dummy_record ref purpose now DELETE (if existed then DELETED else MISSING)
                   (if existed then None else not_registered) (p\<lparr>dp_values := (dp_values p)(cr_uri ref := None)\<rparr>))))"


subsection \<open>The Windows provider\<close>

record 'b backend =
  be_write :: "string \<Rightarrow> string \<Rightarrow> 'b \<Rightarrow> unit result \<times> 'b"
  be_read :: "string \<Rightarrow> 'b \<Rightarrow> string result"
  be_delete :: "string \<Rightarrow> 'b \<Rightarrow> bool result \<times> 'b"
  be_exists :: "string \<Rightarrow> 'b \<Rightarrow> bool result"

definition memory_backend :: "(string \<rightharpoonup> string) backend" where
  "memory_backend =
     \<lparr>be_write = (\<lambda>k v m. (Inr (), m(k \<mapsto> v))),
      be_read = (\<lambda>k m. case m k of Some v \<Rightarrow> Inr v
                  | None \<Rightarrow> Inl (CredentialProviderError ''credential reference was not found'')),
      be_delete = (\<lambda>k m. (Inr (m k \<noteq> None), m(k := None))),
      be_exists = (\<lambda>k m. Inr (m k \<noteq> None))\<rparr>"

record 'b win_provider =
  wp_backend :: 'b
  wp_events :: "AuditEvent list"

definition win_scheme :: string where "win_scheme = ''windows-credential-manager''"
definition not_found :: "string option" where "not_found = Some ''reference not found''"

definition win_record :: "CredentialReference \<Rightarrow> string \<Rightarrow> instant \<Rightarrow> CredentialAccessAction
    \<Rightarrow> CredentialAccessOutcome \<Rightarrow> string option \<Rightarrow> 'b win_provider \<Rightarrow> 'b win_provider" where
  "win_record ref purpose now action outcome reason p =
     p\<lparr>wp_events := wp_events p @ [mk_event win_scheme ref purpose now action outcome reason]\<rparr>"

definition require_supported :: "instant \<Rightarrow> CredentialReference \<Rightarrow> CredentialAccessAction \<Rightarrow> string
    \<Rightarrow> 'b win_provider \<Rightarrow> unit result \<times> 'b win_provider" where
  "require_supported now ref action purpose p =
     (case provider_scheme ref of
        Inl e \<Rightarrow> (Inl e, p)
      | Inr scheme \<Rightarrow>
          if scheme \<noteq> win_scheme then (Inl unsupported, win_record ref purpose now action DENIED bad_scheme p)
          else (Inr (), p))"

definition win_store :: "'b backend \<Rightarrow> instant \<Rightarrow> CredentialReference \<Rightarrow> string \<Rightarrow> string \<Rightarrow> 'b win_provider
    \<Rightarrow> unit result \<times> 'b win_provider" where
  "win_store be now ref v purpose p =
     (case require_supported now ref CREATE purpose p of
        (Inl e, p) \<Rightarrow> (Inl e, p)
      | (Inr _, p) \<Rightarrow> (case be_write be (cr_uri ref) v (wp_backend p) of
          (Inl e, b) \<Rightarrow> (Inl e, p\<lparr>wp_backend := b\<rparr>)
        | (Inr _, b) \<Rightarrow> (Inr (), win_record ref purpose now CREATE STORED None (p\<lparr>wp_backend := b\<rparr>))))"

definition win_resolve :: "'b backend \<Rightarrow> instant \<Rightarrow> CredentialReference \<Rightarrow> string \<Rightarrow> 'b win_provider
    \<Rightarrow> SecretValue result \<times> 'b win_provider" where
  "win_resolve be now ref purpose p =
     (case require_supported now ref READ purpose p of
        (Inl e, p) \<Rightarrow> (Inl e, p)
      | (Inr _, p) \<Rightarrow> (case be_read be (cr_uri ref) (wp_backend p) of
          Inl (CredentialProviderError m) \<Rightarrow>
            (Inl (CredentialProviderError m), win_record ref purpose now READ MISSING not_found p)
        | Inl e \<Rightarrow> (Inl e, p)
        | Inr v \<Rightarrow> (Inr \<lparr>sv_value = v, sv_kind = cr_kind ref, sv_reference_uri = cr_uri ref\<rparr>,
                    win_record ref purpose now READ GRANTED None p)))"

definition win_exists :: "'b backend \<Rightarrow> instant \<Rightarrow> CredentialReference \<Rightarrow> string \<Rightarrow> 'b win_provider
    \<Rightarrow> bool result \<times> 'b win_provider" where
  "win_exists be now ref purpose p =
     (case require_supported now ref VERIFY purpose p of
        (Inl e, p) \<Rightarrow> (Inl e, p)
      | (Inr _, p) \<Rightarrow> (case be_exists be (cr_uri ref) (wp_backend p) of
          Inl e \<Rightarrow> (Inl e, p)
        | Inr found \<Rightarrow> (Inr found, win_record ref purpose now VERIFY (if found then GRANTED else MISSING)
            (if found then None else not_found) p)))"

definition win_delete :: "'b backend \<Rightarrow> instant \<Rightarrow> CredentialReference \<Rightarrow> string \<Rightarrow> 'b win_provider
    \<Rightarrow> bool result \<times> 'b win_provider" where
  "win_delete be now ref purpose p =
     (case require_supported now ref DELETE purpose p of
        (Inl e, p) \<Rightarrow> (Inl e, p)
      | (Inr _, p) \<Rightarrow> (case be_delete be (cr_uri ref) (wp_backend p) of
          (Inl e, b) \<Rightarrow> (Inl e, p\<lparr>wp_backend := b\<rparr>)
        | (Inr existed, b) \<Rightarrow> (Inr existed, win_record ref purpose now DELETE (if existed then DELETED else MISSING)
            (if existed then None else not_found) (p\<lparr>wp_backend := b\<rparr>))))"


subsection \<open>The contract of a provider\<close>

datatype custody_op =
    OStore CredentialReference string
  | OResolve CredentialReference
  | OExists CredentialReference
  | ODelete CredentialReference

datatype reply = RDone | RSecret SecretValue | RFlag bool

fun op_ref :: "custody_op \<Rightarrow> CredentialReference" where
  "op_ref (OStore ref v) = ref"
| "op_ref (OResolve ref) = ref"
| "op_ref (OExists ref) = ref"
| "op_ref (ODelete ref) = ref"

text \<open>The operation without the value it carries.\<close>

fun blind_op :: "custody_op \<Rightarrow> custody_op" where
  "blind_op (OStore ref v) = OStore ref []"
| "blind_op op = op"

fun dummy_act :: "instant \<Rightarrow> string \<Rightarrow> custody_op \<Rightarrow> dummy_provider \<Rightarrow> reply result \<times> dummy_provider" where
  "dummy_act now purpose (OStore ref v) p = map_prod (map_sum id (\<lambda>_. RDone)) id (dummy_store now ref v purpose p)"
| "dummy_act now purpose (OResolve ref) p = map_prod (map_sum id RSecret) id (dummy_resolve now ref purpose p)"
| "dummy_act now purpose (OExists ref) p = map_prod (map_sum id RFlag) id (dummy_exists now ref purpose p)"
| "dummy_act now purpose (ODelete ref) p = map_prod (map_sum id RFlag) id (dummy_delete now ref purpose p)"

fun win_act :: "'b backend \<Rightarrow> instant \<Rightarrow> string \<Rightarrow> custody_op \<Rightarrow> 'b win_provider \<Rightarrow> reply result \<times> 'b win_provider" where
  "win_act be now purpose (OStore ref v) p = map_prod (map_sum id (\<lambda>_. RDone)) id (win_store be now ref v purpose p)"
| "win_act be now purpose (OResolve ref) p = map_prod (map_sum id RSecret) id (win_resolve be now ref purpose p)"
| "win_act be now purpose (OExists ref) p = map_prod (map_sum id RFlag) id (win_exists be now ref purpose p)"
| "win_act be now purpose (ODelete ref) p = map_prod (map_sum id RFlag) id (win_delete be now ref purpose p)"

text \<open>What custody promises for a supported reference: a map from URIs to values, a reply, which is \<open>None\<close>
  when the operation raises, and the action and outcome that are audited.\<close>

fun vault_act :: "custody_op \<Rightarrow> (string \<rightharpoonup> string) \<Rightarrow> reply option \<times> (string \<rightharpoonup> string)" where
  "vault_act (OStore ref v) m = (Some RDone, m(cr_uri ref \<mapsto> v))"
| "vault_act (OResolve ref) m =
     (map_option (\<lambda>v. RSecret \<lparr>sv_value = v, sv_kind = cr_kind ref, sv_reference_uri = cr_uri ref\<rparr>) (m (cr_uri ref)), m)"
| "vault_act (OExists ref) m = (Some (RFlag (m (cr_uri ref) \<noteq> None)), m)"
| "vault_act (ODelete ref) m = (Some (RFlag (m (cr_uri ref) \<noteq> None)), m(cr_uri ref := None))"

fun audited :: "custody_op \<Rightarrow> (string \<rightharpoonup> string) \<Rightarrow> CredentialAccessAction \<times> CredentialAccessOutcome" where
  "audited (OStore ref v) m = (CREATE, STORED)"
| "audited (OResolve ref) m = (READ, if m (cr_uri ref) = None then MISSING else GRANTED)"
| "audited (OExists ref) m = (VERIFY, if m (cr_uri ref) = None then MISSING else GRANTED)"
| "audited (ODelete ref) m = (DELETE, if m (cr_uri ref) = None then MISSING else DELETED)"

definition reply_of :: "'a result \<Rightarrow> 'a option" where
  "reply_of r = (case r of Inl e \<Rightarrow> None | Inr x \<Rightarrow> Some x)"

type_synonym access = "instant \<times> string \<times> custody_op"

fun custody_run :: "(instant \<Rightarrow> string \<Rightarrow> custody_op \<Rightarrow> 's \<Rightarrow> reply result \<times> 's) \<Rightarrow> access list \<Rightarrow> 's \<Rightarrow> reply result list \<times> 's" where
  "custody_run act [] s = ([], s)"
| "custody_run act ((now, purpose, op) # ops) s =
     (case act now purpose op s of (r, s') \<Rightarrow> (case custody_run act ops s' of (rs, s'') \<Rightarrow> (r # rs, s'')))"

fun vault_run :: "access list \<Rightarrow> (string \<rightharpoonup> string) \<Rightarrow> reply option list \<times> (string \<rightharpoonup> string)" where
  "vault_run [] m = ([], m)"
| "vault_run ((now, purpose, op) # ops) m =
     (case vault_act op m of (r, m') \<Rightarrow> (case vault_run ops m' of (rs, m'') \<Rightarrow> (r # rs, m'')))"

definition blind :: "access list \<Rightarrow> access list" where
  "blind ops = map (\<lambda>(now, purpose, op). (now, purpose, blind_op op)) ops"

definition well_formed_refs :: "access list \<Rightarrow> bool" where
  "well_formed_refs ops \<longleftrightarrow> list_all (\<lambda>(now, purpose, op). \<exists>scheme. provider_scheme (op_ref op) = Inr scheme) ops"

definition supported_refs :: "string \<Rightarrow> access list \<Rightarrow> bool" where
  "supported_refs scheme ops \<longleftrightarrow> list_all (\<lambda>(now, purpose, op). provider_scheme (op_ref op) = Inr scheme) ops"

definition same_keys :: "(string \<rightharpoonup> string) \<Rightarrow> (string \<rightharpoonup> string) \<Rightarrow> bool" where
  "same_keys m n \<longleftrightarrow> (\<forall>k. (m k = None) = (n k = None))"

lemma same_keys_update [simp]:
  "same_keys m n \<Longrightarrow> same_keys (m(k \<mapsto> v)) (n(k \<mapsto> w))"
  "same_keys m n \<Longrightarrow> same_keys (m(k := None)) (n(k := None))"
  by (auto simp: same_keys_def)

lemma same_keysD: "same_keys m n \<Longrightarrow> m k = None \<longleftrightarrow> n k = None"
  by (simp add: same_keys_def)

locale custody =
  fixes act :: "instant \<Rightarrow> string \<Rightarrow> custody_op \<Rightarrow> 's \<Rightarrow> reply result \<times> 's"
    and vault :: "'s \<Rightarrow> (string \<rightharpoonup> string)"
    and events :: "'s \<Rightarrow> AuditEvent list"
    and scheme :: string
  assumes act_supported: "\<lbrakk>provider_scheme (op_ref op) = Inr scheme; act now purpose op s = (r, s')\<rbrakk>
      \<Longrightarrow> vault_act op (vault s) = (reply_of r, vault s')
        \<and> (\<exists>e. events s' = events s @ [e] \<and> (ae_action e, ae_outcome e) = audited op (vault s)
              \<and> ae_reference_uri e = cr_uri (op_ref op) \<and> ae_purpose e = purpose)"
    and act_other: "\<lbrakk>provider_scheme (op_ref op) = Inr other; other \<noteq> scheme; act now purpose op s = (r, s')\<rbrakk>
      \<Longrightarrow> vault s' = vault s \<and> reply_of r \<in> {None, Some (RFlag False)}
        \<and> (\<exists>e. events s' = events s @ [e] \<and> ae_outcome e \<in> {DENIED, MISSING}
              \<and> ae_reference_uri e = cr_uri (op_ref op) \<and> ae_purpose e = purpose)"
    and act_blind: "\<lbrakk>blind_op op = blind_op op'; same_keys (vault s) (vault t); events s = events t;
        act now purpose op s = (r, s'); act now purpose op' t = (r', t')\<rbrakk>
      \<Longrightarrow> same_keys (vault s') (vault t') \<and> events s' = events t'"
begin

lemma run_supported:
  assumes "supported_refs scheme ops" "custody_run act ops s = (rs, s')"
  shows "vault_run ops (vault s) = (map reply_of rs, vault s')"
  using assms
proof (induction ops arbitrary: s rs)
  case (Cons x ops)
  obtain now purpose op where x: "x = (now, purpose, op)" by (metis prod_cases3)
  obtain r s1 where a: "act now purpose op s = (r, s1)" by fastforce
  obtain rs1 where b: "custody_run act ops s1 = (rs1, s')" "rs = r # rs1"
    using Cons.prems(2) by (auto simp: x a split: prod.splits)
  have "provider_scheme (op_ref op) = Inr scheme" "supported_refs scheme ops"
    using Cons.prems(1) by (simp_all add: x supported_refs_def)
  then show ?case
    using act_supported [OF _ a] Cons.IH [OF _ b(1)] by (simp add: x b(2))
qed simp

lemma run_audited:
  assumes "well_formed_refs ops" "custody_run act ops s = (rs, s')"
  shows "\<exists>es. events s' = events s @ es \<and> list_all2 (\<lambda>(now, purpose, op) e.
      ae_reference_uri e = cr_uri (op_ref op) \<and> ae_purpose e = purpose) ops es"
  using assms
proof (induction ops arbitrary: s rs)
  case (Cons x ops)
  obtain now purpose op where x: "x = (now, purpose, op)" by (metis prod_cases3)
  obtain r s1 where a: "act now purpose op s = (r, s1)" by fastforce
  obtain rs1 where b: "custody_run act ops s1 = (rs1, s')" using Cons.prems(2) by (auto simp: x a split: prod.splits)
  obtain other where "provider_scheme (op_ref op) = Inr other" and w: "well_formed_refs ops"
    using Cons.prems(1) by (auto simp: x well_formed_refs_def)
  then obtain e where e: "events s1 = events s @ [e]" "ae_reference_uri e = cr_uri (op_ref op)" "ae_purpose e = purpose"
    using act_supported [OF _ a] act_other [OF _ _ a] by (cases "other = scheme") blast+
  then show ?case using Cons.IH [OF w b] by (fastforce simp: x)
qed simp

lemma run_blind:
  assumes "blind ops = blind ops'" "same_keys (vault s) (vault t)" "events s = events t"
  shows "events (snd (custody_run act ops s)) = events (snd (custody_run act ops' t))"
  using assms
proof (induction ops arbitrary: ops' s t)
  case (Cons x ops)
  obtain now purpose op where x: "x = (now, purpose, op)" by (metis prod_cases3)
  obtain op' ops1 where o: "ops' = (now, purpose, op') # ops1" "blind_op op = blind_op op'" "blind ops = blind ops1"
    using Cons.prems(1) by (auto simp: x blind_def Cons_eq_map_conv)
  obtain r s1 where a: "act now purpose op s = (r, s1)" by fastforce
  obtain r' t1 where a': "act now purpose op' t = (r', t1)" by fastforce
  show ?case
    using Cons.IH [OF o(3)] act_blind [OF o(2) Cons.prems(2,3) a a'] by (simp add: x o(1) a a' case_prod_beta)
qed (simp add: blind_def)

end

lemmas dummy_defs = dummy_store_def dummy_resolve_def dummy_exists_def dummy_delete_def dummy_record_def mk_event_def
lemmas win_defs = win_store_def win_resolve_def win_exists_def win_delete_def win_record_def mk_event_def
  require_supported_def memory_backend_def

lemma blind_op_eq:
  "blind_op op = blind_op op' \<longleftrightarrow>
     (case op of OStore ref v \<Rightarrow> (\<exists>v'. op' = OStore ref v') | _ \<Rightarrow> op' = op)"
  by (cases op; cases op') auto

interpretation dummy: custody dummy_act dp_values dp_events dummy_scheme
proof
  fix op now purpose s r s'
  assume "provider_scheme (op_ref op) = Inr dummy_scheme" "dummy_act now purpose op s = (r, s')"
  then show "vault_act op (dp_values s) = (reply_of r, dp_values s')
        \<and> (\<exists>e. dp_events s' = dp_events s @ [e] \<and> (ae_action e, ae_outcome e) = audited op (dp_values s)
              \<and> ae_reference_uri e = cr_uri (op_ref op) \<and> ae_purpose e = purpose)"
    by (cases op) (auto simp: dummy_defs reply_of_def Let_def split: option.splits)
next
  fix op other now purpose s r s'
  assume "provider_scheme (op_ref op) = Inr other" "other \<noteq> dummy_scheme" "dummy_act now purpose op s = (r, s')"
  then show "dp_values s' = dp_values s \<and> reply_of r \<in> {None, Some (RFlag False)}
        \<and> (\<exists>e. dp_events s' = dp_events s @ [e] \<and> ae_outcome e \<in> {DENIED, MISSING}
              \<and> ae_reference_uri e = cr_uri (op_ref op) \<and> ae_purpose e = purpose)"
    by (cases op) (auto simp: dummy_defs reply_of_def split: if_splits)
next
  fix op op' s t now purpose r s' r' t'
  assume b: "blind_op op = blind_op op'" and d: "same_keys (dp_values s) (dp_values t)"
    and e: "dp_events s = dp_events t"
    and a: "dummy_act now purpose op s = (r, s')" "dummy_act now purpose op' t = (r', t')"
  show "same_keys (dp_values s') (dp_values t') \<and> dp_events s' = dp_events t'"
    using b d e a same_keysD [OF d, of "cr_uri (op_ref op)"] unfolding blind_op_eq
    by (cases op; cases "provider_scheme (op_ref op)")
       (auto simp: dummy_defs Let_def split: option.splits if_splits)
qed

interpretation windows: custody "win_act memory_backend" wp_backend wp_events win_scheme
proof
  fix op now purpose s r s'
  assume "provider_scheme (op_ref op) = Inr win_scheme" "win_act memory_backend now purpose op s = (r, s')"
  then show "vault_act op (wp_backend s) = (reply_of r, wp_backend s')
        \<and> (\<exists>e. wp_events s' = wp_events s @ [e] \<and> (ae_action e, ae_outcome e) = audited op (wp_backend s)
              \<and> ae_reference_uri e = cr_uri (op_ref op) \<and> ae_purpose e = purpose)"
    by (cases op) (auto simp: win_defs reply_of_def Let_def split: option.splits)
next
  fix op other now purpose s r s'
  assume "provider_scheme (op_ref op) = Inr other" "other \<noteq> win_scheme" "win_act memory_backend now purpose op s = (r, s')"
  then show "wp_backend s' = wp_backend s \<and> reply_of r \<in> {None, Some (RFlag False)}
        \<and> (\<exists>e. wp_events s' = wp_events s @ [e] \<and> ae_outcome e \<in> {DENIED, MISSING}
              \<and> ae_reference_uri e = cr_uri (op_ref op) \<and> ae_purpose e = purpose)"
    by (cases op) (auto simp: win_defs reply_of_def split: if_splits)
next
  fix op op' s t now purpose r s' r' t'
  assume b: "blind_op op = blind_op op'" and d: "same_keys (wp_backend s) (wp_backend t)"
    and e: "wp_events s = wp_events t"
    and a: "win_act memory_backend now purpose op s = (r, s')" "win_act memory_backend now purpose op' t = (r', t')"
  show "same_keys (wp_backend s') (wp_backend t') \<and> wp_events s' = wp_events t'"
    using b d e a same_keysD [OF d, of "cr_uri (op_ref op)"] unfolding blind_op_eq
    by (cases op; cases "provider_scheme (op_ref op)")
       (auto simp: win_defs split: option.splits if_splits)
qed

subsection \<open>Properties\<close>

definition memory_act :: "instant \<Rightarrow> string \<Rightarrow> custody_op \<Rightarrow> (string \<rightharpoonup> string) win_provider \<Rightarrow> reply result \<times> (string \<rightharpoonup> string) win_provider" where
  "memory_act = win_act memory_backend"

text \<open>C19: custody is a map from references to values: over any operations on references of their scheme,
  the dummy provider and the Windows provider on its in-memory backend reply as the map does, and raise
  where it has no value, so the two providers are interchangeable.\<close>

theorem custody_is_a_vault:
  "(supported_refs dummy_scheme ops \<longrightarrow>
      vault_run ops (dp_values s) = (map reply_of (fst (custody_run dummy_act ops s)), dp_values (snd (custody_run dummy_act ops s))))
   \<and> (supported_refs win_scheme ops \<longrightarrow>
      vault_run ops (wp_backend t) = (map reply_of (fst (custody_run memory_act ops t)), wp_backend (snd (custody_run memory_act ops t))))"
  unfolding memory_act_def
  using dummy.run_supported [OF _ surjective_pairing] windows.run_supported [OF _ surjective_pairing] by blast

definition example_access :: "string \<Rightarrow> access list" where
  "example_access v =
     (let ref = \<lparr>cr_uri = ''local-dev-dummy://a'', cr_kind = PHRASE\<rparr> in
      [(0, ''setup'', OStore ref v), (1, ''sign'', OResolve ref), (2, ''reset'', ODelete ref), (3, ''sign'', OResolve ref)])"

lemma example_supported: "supported_refs dummy_scheme (example_access v)"
proof -
  have "provider_scheme \<lparr>cr_uri = ''local-dev-dummy://a'', cr_kind = PHRASE\<rparr> = Inr dummy_scheme" by code_simp
  then show ?thesis by (simp add: supported_refs_def example_access_def Let_def)
qed

theorem custody_is_a_vault_witness:
  "map reply_of (fst (custody_run dummy_act (example_access ''value'') \<lparr>dp_values = Map.empty, dp_events = []\<rparr>))
   = [Some RDone, Some (RSecret \<lparr>sv_value = ''value'', sv_kind = PHRASE, sv_reference_uri = ''local-dev-dummy://a''\<rparr>),
      Some (RFlag True), None]"
  using custody_is_a_vault [of "example_access ''value''" "\<lparr>dp_values = Map.empty, dp_events = []\<rparr>"
    "\<lparr>wp_backend = Map.empty, wp_events = []\<rparr>"] example_supported
  by (simp add: example_access_def Let_def)



end
