(* ===== verification/Spec2Isabelle.thy ===== *)
theory Spec2Isabelle
  imports AsyncVerify PyDecimal Config SetupCore Reconciliation Orchestration Backfill LivePermit PyUrl PyPath
    Queueing Cache PackageProcessor Cfdi SatSoapParse Transport
    RecoveryPayloads Secrets
begin

text \<open>
  A model of the recovery core of CFDI Vault (draft header).
\<close>

end
